(* ===== verification/Prelude.thy ===== *)
theory Prelude
  imports
    Complex_Main
    "HOL-Library.AList"
    "HOL-Library.Char_ord"
    "HOL-Library.List_Lexorder"
    "HOL-Library.Product_Lexorder"
    "HOL-Library.Multiset"
begin

text \<open>
  The vocabulary the component theories share: Python values, dictionaries and errors.

  \<^item> A Python dictionary with string keys is an association list in insertion order; storing a
    key that is present keeps its position, storing a new one appends it
    (\<^const>\<open>AList.update\<close>), \<open>pop\<close> and \<open>del\<close> are \<^const>\<open>AList.delete\<close>,
    \<open>get\<close> is \<^const>\<open>map_of\<close>.
  \<^item> A value of the annotation \<open>Any\<close> is a \<open>pyval\<close>. Python's integers are \<^typ>\<open>int\<close>; a
    float is the rational number it denotes (rounding is not modelled).
  \<^item> An exception is a value of \<open>py_error\<close>; a call that may raise returns \<open>py_error + 'a\<close>.
  \<^item> An object read back from a dictionary of primitives has the types its annotations state; a
    value of another type, which none of the writers produces, is a type error of the reader.
  \<^item> JSON text is kept abstract: \<open>json_dumps\<close> raises on values Python's encoder rejects and
    otherwise wraps the value, \<open>json_loads\<close> unwraps it (the encoding is lossless on the
    values it accepts: dictionaries with string keys, lists, strings, numbers, booleans, None).
\<close>

section \<open>Collections of rewrite rules\<close>

named_theorems dict_simps \<open>lookups, keys and sizes of updated dictionaries\<close>
named_theorems component_defs \<open>definitions of the operations of the components\<close>

section \<open>Errors\<close>

datatype py_error =
    InvalidTaskTitleError
  | DuplicateTaskError string
  | TaskNotFoundError string
  | AdmissionError string
  | QueueFullError
  | QueueEmptyError
  | AttributeError string
  | KeyError string
  | IndexError
  | ValueError string
  | TypeError string
  | RuntimeError string
  | RecursionError
  | IntegrityError string
  | ProgrammingError string
  | OperationalError string

text \<open>
  An exception object as the retry filter sees it: the names of its class and of all its base
  classes (its method resolution order) and its message. \<open>isinstance\<close> is membership.
\<close>

record exc =
  exc_mro :: "string list"
  exc_msg :: string

definition isinstance_exc :: "exc \<Rightarrow> string \<Rightarrow> bool" where
  "isinstance_exc e c \<longleftrightarrow> c \<in> set (exc_mro e)"

section \<open>Python values\<close>

text \<open>\<^verbatim>\<open>RetryPolicy\<close> and \<^verbatim>\<open>TimeoutPolicy\<close> objects travel inside task metadata.\<close>

record retry_policy =
  max_retries :: int
  initial_delay_seconds :: rat
  backoff_factor :: rat
  retryable_exceptions :: "string list option"

record timeout_policy =
  timeout_seconds :: rat

datatype pyval =
    PNone
  | PBool bool
  | PInt int
  | PFloat rat
  | PStr string
  | PList "pyval list"
  | PDict "(string \<times> pyval) list"
  | PEnum string string
  | PSet "string list"
  | PRetryPolicy retry_policy
  | PTimeoutPolicy timeout_policy

type_synonym pydict = "(string \<times> pyval) list"

fun truthy :: "pyval \<Rightarrow> bool" where
  "truthy PNone = False"
| "truthy (PBool b) = b"
| "truthy (PInt i) = (i \<noteq> 0)"
| "truthy (PFloat r) = (r \<noteq> 0)"
| "truthy (PStr s) = (s \<noteq> [])"
| "truthy (PList xs) = (xs \<noteq> [])"
| "truthy (PDict d) = (d \<noteq> [])"
| "truthy (PEnum c v) = True"
| "truthy (PSet cs) = (cs \<noteq> [])"
| "truthy (PRetryPolicy p) = True"
| "truthy (PTimeoutPolicy p) = True"

text \<open>The numeric reading of a value: booleans are integers in Python.\<close>

fun num_of :: "pyval \<Rightarrow> rat option" where
  "num_of (PBool b) = Some (if b then 1 else 0)"
| "num_of (PInt i) = Some (of_int i)"
| "num_of (PFloat r) = Some r"
| "num_of _ = None"

fun popt :: "('a \<Rightarrow> pyval) \<Rightarrow> 'a option \<Rightarrow> pyval" where
  "popt f None = PNone"
| "popt f (Some x) = f x"

section \<open>Dictionaries\<close>

abbreviation dget :: "('k \<times> 'v) list \<Rightarrow> 'k \<Rightarrow> 'v option" where
  "dget d k \<equiv> map_of d k"

abbreviation dset :: "'k \<Rightarrow> 'v \<Rightarrow> ('k \<times> 'v) list \<Rightarrow> ('k \<times> 'v) list" where
  "dset k v d \<equiv> AList.update k v d"

abbreviation dpop :: "'k \<Rightarrow> ('k \<times> 'v) list \<Rightarrow> ('k \<times> 'v) list" where
  "dpop k d \<equiv> AList.delete k d"

abbreviation dkeys :: "('k \<times> 'v) list \<Rightarrow> 'k list" where
  "dkeys d \<equiv> map fst d"

abbreviation dvalues :: "('k \<times> 'v) list \<Rightarrow> 'v list" where
  "dvalues d \<equiv> map snd d"

definition wf_dict :: "('k \<times> 'v) list \<Rightarrow> bool" where
  "wf_dict d \<longleftrightarrow> distinct (dkeys d)"

lemma wf_dict_Nil [simp]: "wf_dict []"
  by (simp add: wf_dict_def)

lemma wf_dict_update [simp]: "wf_dict d \<Longrightarrow> wf_dict (dset k v d)"
  by (simp add: wf_dict_def distinct_update)

lemma wf_dict_delete [simp]: "wf_dict d \<Longrightarrow> wf_dict (dpop k d)"
  by (simp add: wf_dict_def distinct_delete)

lemma dget_update [dict_simps]: "dget (dset k v d) i = (if i = k then Some v else dget d i)"
  by (simp add: update_conv')

lemma dget_delete [dict_simps]: "dget (dpop k d) i = (if i = k then None else dget d i)"
  by (simp add: delete_conv')

lemma dget_None_iff: "dget d k = None \<longleftrightarrow> k \<notin> set (dkeys d)"
  by (induction d) auto

lemma dget_Some_key: "dget d k = Some v \<Longrightarrow> k \<in> set (dkeys d)"
  by (metis dget_None_iff option.simps(3))

lemma key_dget_Some: "k \<in> set (dkeys d) \<Longrightarrow> \<exists>v. dget d k = Some v"
  by (metis dget_None_iff option.exhaust)

lemma update_fresh_append [dict_simps]: "k \<notin> set (dkeys d) \<Longrightarrow> dset k v d = d @ [(k, v)]"
  by (induction d) auto

lemma dkeys_update_present [dict_simps]: "k \<in> set (dkeys d) \<Longrightarrow> dkeys (dset k v d) = dkeys d"
  by (induction d) auto

lemma set_dkeys_update [dict_simps]: "set (dkeys (dset k v d)) = insert k (set (dkeys d))"
  by (induction d) auto

lemma dkeys_delete: "dkeys (dpop k d) = filter (\<lambda>i. i \<noteq> k) (dkeys d)"
  by (induction d) auto

lemma set_dkeys_delete [dict_simps]: "set (dkeys (dpop k d)) = set (dkeys d) - {k}"
  by (auto simp: dkeys_delete)

lemma fst_set_delete [simp]: "fst ` set (dpop k d) = fst ` set d - {k}"
  using set_dkeys_delete [of k d] by simp

lemma fst_set_update [simp]: "fst ` set (dset k v d) = insert k (fst ` set d)"
  using set_dkeys_update [of k v d] by simp

lemma length_update_present [dict_simps]: "k \<in> set (dkeys d) \<Longrightarrow> length (dset k v d) = length d"
  by (induction d) auto

lemma length_delete_present:
  assumes "wf_dict d" and "k \<in> set (dkeys d)"
  shows "length (dpop k d) = length d - 1"
  using assms
proof (induction d)
  case (Cons a d)
  show ?case
  proof (cases "fst a = k")
    case True
    with Cons.prems have "k \<notin> set (dkeys d)" by (auto simp: wf_dict_def)
    with True show ?thesis by (simp add: delete_id)
  next
    case False
    with Cons.prems have "k \<in> set (dkeys d)" and "wf_dict d" by (auto simp: wf_dict_def)
    with Cons.IH have "length (dpop k d) = length d - 1" by simp
    moreover from \<open>k \<in> set (dkeys d)\<close> have "0 < length d" by (cases d) auto
    ultimately show ?thesis using False by simp
  qed
qed simp

lemma set_delete_subset: "set (dpop k d) \<subseteq> set d"
  by (auto simp: AList.delete_eq)

lemma delete_update_same [simp]: "dpop k (dset k v d) = dpop k d"
  by (induction d) auto

section \<open>Lists\<close>

lemma remove1_filter_distinct: "distinct xs \<Longrightarrow> remove1 x xs = filter (\<lambda>y. y \<noteq> x) xs"
  by (auto simp: distinct_remove1_removeAll removeAll_filter_not_eq intro: filter_cong)

lemma remove1_absent: "x \<notin> set xs \<Longrightarrow> remove1 x xs = xs"
  by (induction xs) auto

section \<open>Decimal rendering\<close>

fun decimal :: "nat \<Rightarrow> string" where
  "decimal n = (if n < 10 then [char_of (48 + n)] else decimal (n div 10) @ [char_of (48 + n mod 10)])"

declare decimal.simps [simp del]

text \<open>\<open>f"{n:03d}"\<close>: at least \<open>k\<close> digits.\<close>

definition decimal_pad :: "nat \<Rightarrow> nat \<Rightarrow> string" where
  "decimal_pad k n = replicate (k - length (decimal n)) (char_of (48 :: nat)) @ decimal n"

definition of_decimal :: "string \<Rightarrow> nat" where
  "of_decimal s = foldl (\<lambda>n c. 10 * n + (of_char c - 48)) 0 s"

lemma of_decimal [simp]: "of_decimal (decimal n) = n"
proof (induction n rule: decimal.induct)
  case (1 n)
  show ?case
  proof (cases "n < 10")
    case True
    then have "of_char (char_of (48 + n) :: char) = 48 + n" by (simp add: of_char_of)
    with True show ?thesis by (simp add: decimal.simps [of n] of_decimal_def)
  next
    case False
    have "of_char (char_of (48 + n mod 10) :: char) = 48 + n mod 10" by (simp add: of_char_of)
    with 1 False show ?thesis by (simp add: decimal.simps [of n] of_decimal_def)
  qed
qed

lemma of_decimal_pad [simp]: "of_decimal (decimal_pad k n) = n"
proof -
  have "foldl (\<lambda>n c. 10 * n + (of_char c - 48)) 0 (replicate m (char_of (48 :: nat)) @ s) = of_decimal s" for m s
    by (induction m) (simp_all add: of_decimal_def of_char_of)
  then show ?thesis unfolding decimal_pad_def of_decimal_def [of "_ @ _"] by simp
qed

lemma decimal_pad_inject [simp]: "decimal_pad k m = decimal_pad k n \<longleftrightarrow> m = n"
  by (metis of_decimal_pad)

text \<open>Signed integers, and a word between single quotes, in messages.\<close>

definition squoted :: "string \<Rightarrow> string" where
  "squoted s = CHR 0x27 # s @ [CHR 0x27]"

definition int_str :: "int \<Rightarrow> string" where
  "int_str i = (if i < 0 then CHR ''-'' # decimal (nat (- i)) else decimal (nat i))"

section \<open>JSON text\<close>

fun json_ok :: "pyval \<Rightarrow> bool" where
  "json_ok (PList xs) = (\<forall>x \<in> set xs. json_ok x)"
| "json_ok (PDict d) = (\<forall>kv \<in> set d. json_ok (snd kv))"
| "json_ok (PEnum c v) = False"
| "json_ok (PSet cs) = False"
| "json_ok (PRetryPolicy p) = False"
| "json_ok (PTimeoutPolicy p) = False"
| "json_ok _ = True"

datatype json_text = JText pyval

definition json_dumps :: "pyval \<Rightarrow> py_error + json_text" where
  "json_dumps v = (if json_ok v then Inr (JText v) else Inl (TypeError ''not JSON serializable''))"

fun json_loads :: "json_text \<Rightarrow> pyval" where
  "json_loads (JText v) = v"

lemma json_roundtrip: "json_dumps v = Inr t \<Longrightarrow> json_loads t = v"
  by (auto simp: json_dumps_def split: if_splits)

lemma json_dumps_Inr_iff [simp]: "json_dumps v = Inr t \<longleftrightarrow> json_ok v \<and> t = JText v"
  by (auto simp: json_dumps_def)

lemma json_ok_popt_PStr [simp]: "json_ok (popt PStr x)"
  by (cases x) auto

section \<open>Reading typed fields\<close>

definition bindE :: "'e + 'a \<Rightarrow> ('a \<Rightarrow> 'e + 'b) \<Rightarrow> 'e + 'b" where
  "bindE m f = (case m of Inl e \<Rightarrow> Inl e | Inr x \<Rightarrow> f x)"

lemma bindE_simps [simp]: "bindE (Inl e) f = Inl e" "bindE (Inr x) f = f x"
  by (simp_all add: bindE_def)

fun mapE :: "('a \<Rightarrow> 'e + 'b) \<Rightarrow> 'a list \<Rightarrow> 'e + 'b list" where
  "mapE f [] = Inr []"
| "mapE f (x # xs) = bindE (f x) (\<lambda>y. bindE (mapE f xs) (\<lambda>ys. Inr (y # ys)))"

lemma mapE_Inr: "(\<And>x. x \<in> set xs \<Longrightarrow> f x = Inr (g x)) \<Longrightarrow> mapE f xs = Inr (map g xs)"
  by (induction xs) auto

fun as_str :: "pyval \<Rightarrow> py_error + string" where
  "as_str (PStr s) = Inr s"
| "as_str _ = Inl (TypeError ''str'')"

fun as_opt_str :: "pyval \<Rightarrow> py_error + string option" where
  "as_opt_str PNone = Inr None"
| "as_opt_str (PStr s) = Inr (Some s)"
| "as_opt_str _ = Inl (TypeError ''Optional[str]'')"

fun as_int :: "pyval \<Rightarrow> py_error + int" where
  "as_int (PInt i) = Inr i"
| "as_int _ = Inl (TypeError ''int'')"

fun as_opt_int :: "pyval \<Rightarrow> py_error + int option" where
  "as_opt_int PNone = Inr None"
| "as_opt_int (PInt i) = Inr (Some i)"
| "as_opt_int _ = Inl (TypeError ''Optional[int]'')"

fun as_bool :: "pyval \<Rightarrow> py_error + bool" where
  "as_bool (PBool b) = Inr b"
| "as_bool _ = Inl (TypeError ''bool'')"

fun as_float :: "pyval \<Rightarrow> py_error + rat" where
  "as_float (PFloat r) = Inr r"
| "as_float (PInt i) = Inr (of_int i)"
| "as_float _ = Inl (TypeError ''float'')"

fun as_opt_float :: "pyval \<Rightarrow> py_error + rat option" where
  "as_opt_float PNone = Inr None"
| "as_opt_float (PFloat r) = Inr (Some r)"
| "as_opt_float (PInt i) = Inr (Some (of_int i))"
| "as_opt_float _ = Inl (TypeError ''Optional[float]'')"

fun as_dict :: "pyval \<Rightarrow> py_error + pydict" where
  "as_dict (PDict d) = Inr d"
| "as_dict _ = Inl (TypeError ''dict'')"

fun as_list :: "pyval \<Rightarrow> py_error + pyval list" where
  "as_list (PList xs) = Inr xs"
| "as_list _ = Inl (TypeError ''list'')"

definition as_str_list :: "pyval \<Rightarrow> py_error + string list" where
  "as_str_list v = bindE (as_list v) (mapE as_str)"

text \<open>\<open>d[k]\<close>, \<open>d.get(k, default)\<close> and a keyword argument that must be present.\<close>

definition ditem :: "(pyval \<Rightarrow> py_error + 'a) \<Rightarrow> pydict \<Rightarrow> string \<Rightarrow> py_error + 'a" where
  "ditem dec d k = (case dget d k of None \<Rightarrow> Inl (KeyError k) | Some v \<Rightarrow> dec v)"

definition ditem_or :: "(pyval \<Rightarrow> py_error + 'a) \<Rightarrow> 'a \<Rightarrow> pydict \<Rightarrow> string \<Rightarrow> py_error + 'a" where
  "ditem_or dec dflt d k = (case dget d k of None \<Rightarrow> Inr dflt | Some v \<Rightarrow> dec v)"

definition argument :: "(pyval \<Rightarrow> py_error + 'a) \<Rightarrow> pydict \<Rightarrow> string \<Rightarrow> py_error + 'a" where
  "argument dec d k =
     (case dget d k of None \<Rightarrow> Inl (TypeError (''missing argument '' @ k)) | Some v \<Rightarrow> dec v)"

lemmas field_defs = ditem_def ditem_or_def argument_def

lemma as_opt_str_popt [simp]: "as_opt_str (popt PStr x) = Inr x"
  by (cases x) auto

lemma as_opt_int_popt [simp]: "as_opt_int (popt PInt x) = Inr x"
  by (cases x) auto

lemma as_opt_float_popt [simp]: "as_opt_float (popt PFloat x) = Inr x"
  by (cases x) auto

lemma as_str_list_PList [simp]: "as_str_list (PList (map PStr xs)) = Inr xs"
  by (induction xs) (auto simp: as_str_list_def)

text \<open>Dictionary comprehensions that keep the keys, and constructor calls \<open>C(**kwargs)\<close>.\<close>

definition dmap :: "('a \<Rightarrow> 'b) \<Rightarrow> (string \<times> 'a) list \<Rightarrow> (string \<times> 'b) list" where
  "dmap f d = map (\<lambda>kv. (fst kv, f (snd kv))) d"

definition dmapE :: "('a \<Rightarrow> 'e + 'b) \<Rightarrow> (string \<times> 'a) list \<Rightarrow> 'e + (string \<times> 'b) list" where
  "dmapE f d = mapE (\<lambda>kv. bindE (f (snd kv)) (\<lambda>v. Inr (fst kv, v))) d"

definition kwargs :: "string list \<Rightarrow> pyval \<Rightarrow> py_error + pydict" where
  "kwargs allowed v =
     bindE (as_dict v) (\<lambda>d. if set (dkeys d) \<subseteq> set allowed then Inr d
                             else Inl (TypeError ''unexpected keyword argument''))"

lemma dmapE_dmap:
  assumes "\<And>x. x \<in> snd ` set d \<Longrightarrow> dec (enc x) = Inr x"
  shows "dmapE dec (dmap enc d) = Inr d"
  using assms by (induction d) (auto simp: dmapE_def dmap_def)

lemma mapE_map:
  assumes "\<And>x. x \<in> set xs \<Longrightarrow> dec (enc x) = Inr x"
  shows "mapE dec (map enc xs) = Inr xs"
  using assms by (induction xs) auto

lemma dkeys_dmap [simp]: "dkeys (dmap f d) = dkeys d"
  by (simp add: dmap_def comp_def)

lemma dget_dmap: "dget (dmap f d) k = map_option f (dget d k)"
  by (induction d) (auto simp: dmap_def)

lemma json_ok_PDict_dmap: "json_ok (PDict (dmap f d)) \<longleftrightarrow> (\<forall>v \<in> snd ` set d. json_ok (f v))"
  by (auto simp: dmap_def)

lemma json_ok_strs [simp]: "json_ok (PList (map PStr xs))"
  by auto

lemma json_ok_popt_num [simp]: "json_ok (popt PInt x)" "json_ok (popt PFloat y)"
  by (cases x; simp) (cases y; simp)

end
