(* ===== verification/Configuration.thy ===== *)
theory Configuration
  imports Prelude
begin

text \<open>
  Settings and loggers: \<^verbatim>\<open>config/settings.py\<close> and \<^verbatim>\<open>logger/logger.py\<close>. Of the module \<^verbatim>\<open>logging\<close> the model
  has what \<open>get_logger\<close> uses: the table of named loggers, each with a level and handlers, the hierarchy of
  dotted names under the root (the empty name), along which \<open>hasHandlers\<close> looks for a handler and a message
  is passed on to all of them, and the effective level, the first one set on the way up.
\<close>

section \<open>Settings\<close>

record settings =
  APP_NAME :: string
  APP_VERSION :: string
  LOG_LEVEL :: string
  MAX_TASKS :: int
  DEBUG :: bool

definition default_settings :: settings where
  "default_settings =
     \<lparr>APP_NAME = ''Mollis Runtime'', APP_VERSION = ''0.1.0'', LOG_LEVEL = ''INFO'', MAX_TASKS = 100, DEBUG = True\<rparr>"

section \<open>Loggers\<close>

text \<open>A stream handler is its format; a level that is not set is \<open>0\<close>.\<close>

record logger =
  lg_level :: nat
  lg_handlers :: "string list"

type_synonym loggers = "(string \<times> logger) list"

definition level_number :: "string \<Rightarrow> nat option" where
  "level_number = map_of
     [(''NOTSET'', 0), (''DEBUG'', 10), (''INFO'', 20), (''WARNING'', 30), (''WARN'', 30), (''ERROR'', 40),
      (''CRITICAL'', 50), (''FATAL'', 50)]"

definition logger_named :: "string \<Rightarrow> loggers \<Rightarrow> logger" where
  "logger_named name ls = (case dget ls name of None \<Rightarrow> \<lparr>lg_level = 0, lg_handlers = []\<rparr> | Some l \<Rightarrow> l)"

text \<open>The names from a logger up to the root.\<close>

definition name_path :: "string \<Rightarrow> string list" where
  "name_path name =
     (if name = [] then [[]]
      else name # rev (map (\<lambda>i. take i name) (filter (\<lambda>i. name ! i = CHR ''.'') [0..<length name])) @ [[]])"

definition has_handlers :: "string \<Rightarrow> loggers \<Rightarrow> bool" where
  "has_handlers name ls \<longleftrightarrow> list_ex (\<lambda>n. lg_handlers (logger_named n ls) \<noteq> []) (name_path name)"

definition log_format :: string where
  "log_format = ''%(asctime)s | %(levelname)s | %(name)s | %(message)s''"

text \<open>
  The name \<open>root\<close> is the root's too. \<open>getattr(logging, settings.LOG_LEVEL)\<close> raises when the module has no such
  attribute; of its attributes the model has the levels, which is what the setting is meant to name.
\<close>

definition logger_key :: "string \<Rightarrow> string" where
  "logger_key name = (if name = ''root'' then [] else name)"

definition get_logger :: "settings \<Rightarrow> string \<Rightarrow> loggers \<Rightarrow> (py_error + string) \<times> loggers" where
  "get_logger cfg name ls =
     (let key = logger_key name;
          ls1 = (if dget ls key = None then dset key (logger_named key ls) ls else ls) in
      if has_handlers key ls1 then (Inr key, ls1)
      else
        case level_number (LOG_LEVEL cfg) of
          None \<Rightarrow> (Inl (AttributeError (LOG_LEVEL cfg)), ls1)
        | Some n \<Rightarrow> (Inr key, dset key \<lparr>lg_level = n, lg_handlers = [log_format]\<rparr> ls1))"

text \<open>The root starts with the level \<open>WARNING\<close>; how often the handlers write a message.\<close>

definition effective_level :: "string \<Rightarrow> loggers \<Rightarrow> nat" where
  "effective_level name ls =
     (case filter (\<lambda>n. n \<noteq> 0) (map (\<lambda>n. lg_level (logger_named n ls)) (name_path name)) of
        [] \<Rightarrow> 30
      | n # _ \<Rightarrow> n)"

definition times_written :: "nat \<Rightarrow> string \<Rightarrow> loggers \<Rightarrow> nat" where
  "times_written level name ls =
     (if level < effective_level name ls then 0
      else sum_list (map (\<lambda>n. length (lg_handlers (logger_named n ls))) (name_path name)))"

section \<open>Handlers are added once\<close>

lemma name_in_path: "name \<in> set (name_path name)"
  by (simp add: name_path_def)

lemma get_logger_handlers:
  assumes "get_logger cfg name ls = (Inr key, ls')"
  shows "key = logger_key name" and "has_handlers key ls'" and "dget ls' key \<noteq> None"
  using assms name_in_path [of "logger_key name"]
  by (auto simp: get_logger_def Let_def has_handlers_def list_ex_iff logger_named_def dget_update
      split: if_splits option.splits)

text \<open>A second call finds the handlers of the first and leaves everything as it is.\<close>

lemma get_logger_twice:
  assumes "get_logger cfg name ls = (Inr key, ls')"
  shows "get_logger cfg name ls' = (Inr key, ls')"
  using get_logger_handlers [OF assms] by (auto simp: get_logger_def Let_def)

text \<open>
  But the order matters: a parent that gets its logger after its child has a handler of its own, and every
  message of the child is written twice; the other way round, once.
\<close>

lemma child_before_parent_writes_twice:
  "times_written 20 ''a.b''
     (snd (get_logger default_settings ''a'' (snd (get_logger default_settings ''a.b'' [])))) = 2"
  "times_written 20 ''a.b''
     (snd (get_logger default_settings ''a.b'' (snd (get_logger default_settings ''a'' [])))) = 1"
  by (simp_all add: get_logger_def default_settings_def level_number_def has_handlers_def name_path_def
      logger_named_def logger_key_def times_written_def effective_level_def Let_def)

end
