(* ===== verification/Task_Model.thy ===== *)
theory Task_Model
  imports Prelude
begin

text \<open>
  The task entity and the task registry: \<^verbatim>\<open>runtime/models/task.py\<close> and
  \<^verbatim>\<open>runtime/managers/task_manager.py\<close>.

  Task objects are mutable and shared (the registry, the queue, the delayed heap and a worker may
  hold the same object), so the components hold references \<open>tref\<close> and the objects live in a
  store \<open>tref \<Rightarrow> task\<close>.
\<close>

datatype taskstatus = Task_PENDING | Task_RUNNING | Task_COMPLETED | Task_FAILED

datatype task_type = Type_PYTHON | Type_BROWSER | Type_SHELL

fun taskstatus_value :: "taskstatus \<Rightarrow> string" where
  "taskstatus_value Task_PENDING = ''Pending''"
| "taskstatus_value Task_RUNNING = ''Running''"
| "taskstatus_value Task_COMPLETED = ''Completed''"
| "taskstatus_value Task_FAILED = ''Failed''"

fun task_type_value :: "task_type \<Rightarrow> string" where
  "task_type_value Type_PYTHON = ''python''"
| "task_type_value Type_BROWSER = ''browser''"
| "task_type_value Type_SHELL = ''shell''"

fun task_type_name :: "task_type \<Rightarrow> string" where
  "task_type_name Type_PYTHON = ''PYTHON''"
| "task_type_name Type_BROWSER = ''BROWSER''"
| "task_type_name Type_SHELL = ''SHELL''"

record task =
  t_id :: string
  t_title :: string
  t_type :: task_type
  t_metadata :: "pydict option"
  t_status :: taskstatus
  t_created_at :: rat

type_synonym tref = nat
type_synonym tstore = "tref \<Rightarrow> task"

text \<open>\<open>meta_of t\<close> is what \<open>task.metadata or {}\<close> reads.\<close>

definition meta_of :: "task \<Rightarrow> pydict" where
  "meta_of t = (case t_metadata t of None \<Rightarrow> [] | Some d \<Rightarrow> d)"

section \<open>Construction and status changes\<close>

definition is_space :: "char \<Rightarrow> bool" where
  "is_space c \<longleftrightarrow> (let n = (of_char c :: nat) in (9 \<le> n \<and> n \<le> 13) \<or> (28 \<le> n \<and> n \<le> 32))"

definition strip :: "string \<Rightarrow> string" where
  "strip s = rev (dropWhile is_space (rev (dropWhile is_space s)))"

definition task_init ::
    "string \<Rightarrow> rat \<Rightarrow> string \<Rightarrow> task_type \<Rightarrow> pydict option \<Rightarrow> py_error + task" where
  "task_init uid now title ty md =
     (if strip title = [] then Inl InvalidTaskTitleError
      else Inr \<lparr>t_id = uid, t_title = title, t_type = ty,
                t_metadata = Some (case md of None \<Rightarrow> [] | Some d \<Rightarrow> d),
                t_status = Task_PENDING, t_created_at = now\<rparr>)"

definition task_start :: "task \<Rightarrow> task" where
  "task_start t = t\<lparr>t_status := Task_RUNNING\<rparr>"

definition task_complete :: "task \<Rightarrow> task" where
  "task_complete t = t\<lparr>t_status := Task_COMPLETED\<rparr>"

definition task_fail :: "task \<Rightarrow> task" where
  "task_fail t = t\<lparr>t_status := Task_FAILED\<rparr>"

lemma dropWhile_Nil_iff: "dropWhile P xs = [] \<longleftrightarrow> (\<forall>x \<in> set xs. P x)"
  by (induction xs) auto

lemma strip_Nil_iff: "strip s = [] \<longleftrightarrow> (\<forall>c \<in> set s. is_space c)"
proof -
  have "strip s = [] \<longleftrightarrow> (\<forall>c \<in> set (dropWhile is_space s). is_space c)"
    by (simp add: strip_def dropWhile_Nil_iff)
  also have "\<dots> \<longleftrightarrow> dropWhile is_space s = []"
    by (metis dropWhile_Nil_iff hd_dropWhile list.set_sel(1) set_dropWhileD)
  finally show ?thesis by (simp add: dropWhile_Nil_iff)
qed

section \<open>The task registry\<close>

record task_manager =
  tm_tasks :: "(string \<times> tref) list"

definition tm_init :: task_manager where
  "tm_init = \<lparr>tm_tasks = []\<rparr>"

definition add_task :: "tstore \<Rightarrow> tref \<Rightarrow> task_manager \<Rightarrow> py_error + task_manager" where
  "add_task h r m =
     (let i = t_id (h r) in
      if dget (tm_tasks m) i \<noteq> None then Inl (DuplicateTaskError i)
      else Inr (m\<lparr>tm_tasks := dset i r (tm_tasks m)\<rparr>))"

text \<open>
  The lookup reads \<open>task.id\<close> of the missing task when it builds its error, so the error it raises
  is an attribute error and not \<^const>\<open>TaskNotFoundError\<close>.
\<close>

definition get_task :: "string \<Rightarrow> task_manager \<Rightarrow> py_error + tref" where
  "get_task i m =
     (case dget (tm_tasks m) i of
        None \<Rightarrow> Inl (AttributeError ''id'')
      | Some r \<Rightarrow> Inr r)"

definition remove_task :: "string \<Rightarrow> task_manager \<Rightarrow> py_error + task_manager" where
  "remove_task i m =
     (if dget (tm_tasks m) i = None then Inl (TaskNotFoundError i)
      else Inr (m\<lparr>tm_tasks := dpop i (tm_tasks m)\<rparr>))"

definition list_tasks :: "task_manager \<Rightarrow> tref list" where
  "list_tasks m = dvalues (tm_tasks m)"

text \<open>Every entry of the registry is filed under the id of its task.\<close>

definition tm_inv :: "tstore \<Rightarrow> task_manager \<Rightarrow> bool" where
  "tm_inv h m \<longleftrightarrow> wf_dict (tm_tasks m) \<and> (\<forall>(i, r) \<in> set (tm_tasks m). t_id (h r) = i)"

lemma tm_inv_init: "tm_inv h tm_init"
  by (simp add: tm_inv_def tm_init_def)

lemma tm_inv_add_task: "tm_inv h m \<Longrightarrow> add_task h r m = Inr m' \<Longrightarrow> tm_inv h m'"
  by (auto simp: tm_inv_def add_task_def Let_def update_fresh_append dget_None_iff wf_dict_def
      split: if_splits)

lemma tm_inv_remove_task: "tm_inv h m \<Longrightarrow> remove_task i m = Inr m' \<Longrightarrow> tm_inv h m'"
  using set_delete_subset [of i "tm_tasks m"]
  by (auto simp: tm_inv_def remove_task_def split: if_splits)

end
