(* ===== verification/Heapq.thy ===== *)
theory Heapq
  imports Prelude
begin

text \<open>
  Python's \<open>heapq\<close>, which the priority and deadline policies and the delayed-task tracker use:
  a list \<open>h\<close> with \<open>h[(i-1)//2] <= h[i]\<close> for every position \<open>i > 0\<close>. \<open>heappush\<close> and \<open>heappop\<close>
  follow the library's own algorithm (append and sift down; move the last element to the root,
  sink the hole to a leaf along the smaller children, sift down from there). The contract the
  clients rely on is the locale \<open>min_heap\<close>; it is interpreted on these two operations.
\<close>

section \<open>The contract\<close>

locale min_heap =
  fixes push :: "'a::linorder \<Rightarrow> 'h \<Rightarrow> 'h"
    and pop :: "'h \<Rightarrow> ('a \<times> 'h) option"
    and top :: "'h \<Rightarrow> 'a option"
    and content :: "'h \<Rightarrow> 'a multiset"
    and invar :: "'h \<Rightarrow> bool"
  assumes invar_push: "invar h \<Longrightarrow> invar (push x h)"
    and content_push: "content (push x h) = add_mset x (content h)"
    and pop_None_iff: "pop h = None \<longleftrightarrow> content h = {#}"
    and invar_pop: "invar h \<Longrightarrow> pop h = Some (x, h') \<Longrightarrow> invar h'"
    and content_pop: "pop h = Some (x, h') \<Longrightarrow> content h = add_mset x (content h')"
    and pop_least: "invar h \<Longrightarrow> pop h = Some (x, h') \<Longrightarrow> y \<in># content h' \<Longrightarrow> x \<le> y"
    and top_pop: "top h = map_option fst (pop h)"
begin

definition ordered :: "'h \<Rightarrow> 'a list" where
  "ordered h = sorted_list_of_multiset (content h)"

lemma ordered_push: "ordered (push x h) = insort x (ordered h)"
  by (simp add: ordered_def content_push)

lemma ordered_pop_None: "pop h = None \<Longrightarrow> ordered h = []"
  by (simp add: ordered_def pop_None_iff)

lemma ordered_pop_Some:
  assumes "invar h" and "pop h = Some (x, h')"
  shows "ordered h = x # ordered h'"
proof -
  have "insort x (sorted_list_of_multiset (content h')) = x # sorted_list_of_multiset (content h')"
    using pop_least [OF assms]
    by (cases "sorted_list_of_multiset (content h')")
      (auto simp flip: set_sorted_list_of_multiset)
  then show ?thesis
    using content_pop [OF assms(2)] by (simp add: ordered_def)
qed

lemma ordered_top: "invar h \<Longrightarrow> top h = (case ordered h of [] \<Rightarrow> None | x # _ \<Rightarrow> Some x)"
  by (cases "pop h") (auto simp: top_pop ordered_pop_None ordered_pop_Some)

lemma size_pop: "pop h = Some (x, h') \<Longrightarrow> size (content h') < size (content h)"
  by (simp add: content_pop)

end

section \<open>The library's algorithm\<close>

definition par :: "nat \<Rightarrow> nat" where
  "par i = (i - 1) div 2"

lemma par_less: "0 < i \<Longrightarrow> par i < i"
  by (cases i) (auto simp: par_def)

function siftdown :: "'a::linorder list \<Rightarrow> 'a \<Rightarrow> nat \<Rightarrow> 'a list" where
  "siftdown h newitem pos =
     (if 0 < pos then
        let parentpos = par pos; parent = h ! parentpos in
        if newitem < parent then siftdown (h[pos := parent]) newitem parentpos
        else h[pos := newitem]
      else h[pos := newitem])"
  by pat_completeness auto
termination
  by (relation "measure (\<lambda>(h, x, pos). pos)") (auto simp: par_less)

definition smaller_child :: "'a::linorder list \<Rightarrow> nat \<Rightarrow> nat" where
  "smaller_child h pos =
     (let childpos = 2 * pos + 1; rightpos = childpos + 1 in
      if rightpos < length h \<and> \<not> h ! childpos < h ! rightpos then rightpos else childpos)"

function sink :: "'a::linorder list \<Rightarrow> nat \<Rightarrow> 'a list \<times> nat" where
  "sink h pos =
     (if 2 * pos + 1 < length h
      then let c = smaller_child h pos in sink (h[pos := h ! c]) c
      else (h, pos))"
  by pat_completeness auto
termination
  by (relation "measure (\<lambda>(h, pos). length h - pos)")
    (auto simp: smaller_child_def Let_def)

declare siftdown.simps [simp del] sink.simps [simp del]

definition siftup :: "'a::linorder list \<Rightarrow> nat \<Rightarrow> 'a list" where
  "siftup h pos = (let newitem = h ! pos; (h', p) = sink h pos in siftdown h' newitem p)"

definition heappush :: "'a::linorder \<Rightarrow> 'a list \<Rightarrow> 'a list" where
  "heappush item h = siftdown (h @ [item]) item (length h)"

text \<open>\<open>None\<close> stands for the \<open>IndexError\<close> of popping an empty list.\<close>

definition heappop :: "'a::linorder list \<Rightarrow> ('a \<times> 'a list) option" where
  "heappop h =
     (if h = [] then None
      else let lastelt = last h; h' = butlast h in
           if h' = [] then Some (lastelt, [])
           else Some (h' ! 0, siftup (h'[0 := lastelt]) 0))"

definition heap_top :: "'a list \<Rightarrow> 'a option" where
  "heap_top h = (case h of [] \<Rightarrow> None | x # _ \<Rightarrow> Some x)"

definition is_heap :: "'a::linorder list \<Rightarrow> bool" where
  "is_heap h \<longleftrightarrow> (\<forall>i. 0 < i \<and> i < length h \<longrightarrow> h ! par i \<le> h ! i)"

section \<open>Multisets\<close>

lemma mset_move:
  assumes "i < length h" and "j < length h" and "i \<noteq> j"
  shows "mset (h[i := h ! j, j := x]) = mset (h[i := x])"
proof -
  have "h[i := h ! j, j := x] = (h[i := x])[i := (h[i := x]) ! j, j := (h[i := x]) ! i]"
    using assms by (simp add: list_update_swap)
  then show ?thesis using assms by (metis length_list_update mset_swap)
qed

lemma length_siftdown [simp]: "length (siftdown h x pos) = length h"
  by (induction h x pos rule: siftdown.induct) (subst siftdown.simps, auto simp: Let_def)

lemma mset_siftdown: "pos < length h \<Longrightarrow> mset (siftdown h x pos) = mset (h[pos := x])"
proof (induction h x pos rule: siftdown.induct)
  case (1 h x pos)
  show ?case
  proof (cases "0 < pos \<and> x < h ! par pos")
    case True
    with "1.prems" par_less [of pos] have p: "par pos < length h" by linarith
    from True have eq: "siftdown h x pos = siftdown (h[pos := h ! par pos]) x (par pos)"
      by (subst siftdown.simps) (simp add: Let_def)
    have "mset (siftdown h x pos) = mset (h[pos := h ! par pos, par pos := x])"
      unfolding eq using "1.IH" True p by simp
    also have "\<dots> = mset (h[pos := x])"
      using "1.prems" p True par_less [of pos] by (intro mset_move) auto
    finally show ?thesis .
  next
    case False
    then show ?thesis by (subst siftdown.simps) (auto simp: Let_def)
  qed
qed

lemma smaller_child_bounds:
  assumes "2 * pos + 1 < length h"
  shows "smaller_child h pos < length h" and "0 < smaller_child h pos"
    and "par (smaller_child h pos) = pos" and "pos < smaller_child h pos"
  using assms by (auto simp: smaller_child_def par_def Let_def)

lemma smaller_child_least:
  assumes "0 < i" and "i < length h" and "par i = pos"
  shows "h ! smaller_child h pos \<le> h ! i"
proof -
  from assms have "i = 2 * pos + 1 \<or> i = 2 * pos + 2" by (auto simp: par_def)
  with assms(2) show ?thesis by (auto simp: smaller_child_def Let_def)
qed

lemma sink_facts:
  "pos < length h \<Longrightarrow> sink h pos = (h', p) \<Longrightarrow>
     length h' = length h \<and> p < length h \<and> length h \<le> 2 * p + 1 \<and>
     mset (h'[p := x]) = mset (h[pos := x])"
proof (induction h pos arbitrary: h' p rule: sink.induct)
  case (1 h pos)
  show ?case
  proof (cases "2 * pos + 1 < length h")
    case True
    let ?c = "smaller_child h pos"
    note c = smaller_child_bounds [OF True]
    from True "1.prems"(2) have "sink (h[pos := h ! ?c]) ?c = (h', p)"
      by (simp add: sink.simps [of h pos] Let_def)
    with "1.IH" [OF True refl] c have
      "length h' = length h \<and> p < length h \<and> length h \<le> 2 * p + 1 \<and>
       mset (h'[p := x]) = mset (h[pos := h ! ?c, ?c := x])" by simp
    with mset_move [of pos h ?c x] c "1.prems"(1) show ?thesis by simp
  next
    case False
    with "1.prems" show ?thesis by (simp add: sink.simps [of h pos])
  qed
qed

section \<open>The heap order\<close>

text \<open>
  Sifting down: the order holds with \<open>newitem\<close> placed at \<open>pos\<close>, except between \<open>pos\<close> and its
  parent, and the children of \<open>pos\<close> are not below that parent.
\<close>

definition order_but :: "'a::linorder list \<Rightarrow> nat \<Rightarrow> bool" where
  "order_but h pos \<longleftrightarrow>
     (\<forall>i. 0 < i \<and> i < length h \<and> i \<noteq> pos \<longrightarrow> h ! par i \<le> h ! i) \<and>
     (\<forall>i. 0 < i \<and> i < length h \<and> par i = pos \<and> 0 < pos \<longrightarrow> h ! par pos \<le> h ! i)"

lemma order_but_step:
  assumes ob: "order_but (h[pos := x]) pos" and pos: "0 < pos" "pos < length h"
    and lt: "x < h ! par pos"
  shows "order_but (h[pos := h ! par pos, par pos := x]) (par pos)"
proof -
  note pl = par_less [OF pos(1)]
  let ?p = "par pos"
  have edge: "h[pos := x] ! par i \<le> h[pos := x] ! i" if "0 < i" "i < length h" "i \<noteq> pos" for i
    using ob that by (simp add: order_but_def)
  have grand: "h ! ?p \<le> h[pos := x] ! i" if "0 < i" "i < length h" "par i = pos" for i
  proof -
    from ob that pos have "h[pos := x] ! par pos \<le> h[pos := x] ! i"
      unfolding order_but_def length_list_update by blast
    then show ?thesis using pl by simp
  qed
  show ?thesis
    unfolding order_but_def length_list_update
  proof (intro conjI allI impI; elim conjE)
    fix i assume i: "0 < i" "i < length h" "i \<noteq> ?p"
    note ipl = par_less [OF i(1)]
    show "h[pos := h ! ?p, ?p := x] ! par i \<le> h[pos := h ! ?p, ?p := x] ! i"
    proof (cases "i = pos")
      case True
      then show ?thesis using lt pos pl by (auto simp: nth_list_update)
    next
      case ne: False
      show ?thesis
      proof (cases "par i = pos")
        case True
        then show ?thesis using grand [OF i(1,2) True] ne i pos pl ipl by (auto simp: nth_list_update)
      next
        case False
        then show ?thesis
          using edge [OF i(1,2) ne] ne i pos pl lt by (auto simp: nth_list_update)
      qed
    qed
  next
    fix i assume i: "0 < i" "i < length h" "par i = ?p" "0 < ?p"
    note ppl = par_less [OF i(4)] and ipl = par_less [OF i(1)]
    have "h ! par ?p \<le> h ! ?p"
      using edge [of ?p] i(4) pos pl ppl by (simp add: nth_list_update)
    moreover have "h ! ?p \<le> h ! i" if "i \<noteq> pos"
      using edge [OF i(1,2) that] i pos pl that by (simp add: nth_list_update)
    ultimately show "h[pos := h ! ?p, ?p := x] ! par ?p \<le> h[pos := h ! ?p, ?p := x] ! i"
      using i pos pl ppl ipl by (cases "i = pos") (auto simp: nth_list_update)
  qed
qed

lemma siftdown_is_heap:
  "pos < length h \<Longrightarrow> order_but (h[pos := x]) pos \<Longrightarrow> is_heap (siftdown h x pos)"
proof (induction h x pos rule: siftdown.induct)
  case (1 h x pos)
  show ?case
  proof (cases "0 < pos \<and> x < h ! par pos")
    case True
    then have eq: "siftdown h x pos = siftdown (h[pos := h ! par pos]) x (par pos)"
      by (subst siftdown.simps) (simp add: Let_def)
    from True "1.prems" have "order_but (h[pos := h ! par pos, par pos := x]) (par pos)"
      by (intro order_but_step) auto
    with "1.IH" True "1.prems"(1) par_less [of pos] show ?thesis unfolding eq by simp
  next
    case False
    then have eq: "siftdown h x pos = h[pos := x]"
      by (subst siftdown.simps) (auto simp: Let_def)
    have "h[pos := x] ! par i \<le> h[pos := x] ! i" if "0 < i" "i < length h" for i
    proof (cases "i = pos")
      case True
      with False that par_less [of pos] show ?thesis by auto
    next
      case ne: False
      with that "1.prems"(2) show ?thesis by (simp add: order_but_def)
    qed
    then show ?thesis unfolding eq by (simp add: is_heap_def)
  qed
qed

text \<open>Sinking the hole: the order holds away from \<open>pos\<close>, and across it.\<close>

definition order_hole :: "'a::linorder list \<Rightarrow> nat \<Rightarrow> bool" where
  "order_hole h pos \<longleftrightarrow>
     (\<forall>i. 0 < i \<and> i < length h \<and> i \<noteq> pos \<and> par i \<noteq> pos \<longrightarrow> h ! par i \<le> h ! i) \<and>
     (\<forall>i. 0 < i \<and> i < length h \<and> par i = pos \<and> 0 < pos \<longrightarrow> h ! par pos \<le> h ! i)"

lemma order_hole_step:
  assumes oh: "order_hole h pos" and pos: "2 * pos + 1 < length h"
  defines "c \<equiv> smaller_child h pos"
  shows "order_hole (h[pos := h ! c]) c"
proof -
  note c = smaller_child_bounds [OF pos, folded c_def]
  have edge: "h ! par i \<le> h ! i" if "0 < i" "i < length h" "i \<noteq> pos" "par i \<noteq> pos" for i
    using oh that by (simp add: order_hole_def)
  have grand: "h ! par pos \<le> h ! i" if "0 < i" "i < length h" "par i = pos" "0 < pos" for i
    using oh that by (simp add: order_hole_def)
  show ?thesis
    unfolding order_hole_def length_list_update
  proof (intro conjI allI impI; elim conjE)
    fix i assume i: "0 < i" "i < length h" "i \<noteq> c" "par i \<noteq> c"
    note ipl = par_less [OF i(1)]
    consider "i = pos" | "i \<noteq> pos" "par i = pos" | "i \<noteq> pos" "par i \<noteq> pos" by blast
    then show "h[pos := h ! c] ! par i \<le> h[pos := h ! c] ! i"
    proof cases
      case 1
      with i grand [OF c(2,1,3)] ipl show ?thesis by (simp add: nth_list_update)
    next
      case 2
      with i smaller_child_least [OF i(1,2)] c show ?thesis by (simp add: c_def nth_list_update)
    next
      case 3
      with i edge show ?thesis by (simp add: nth_list_update)
    qed
  next
    fix i assume i: "0 < i" "i < length h" "par i = c" "0 < c"
    then have "h ! c \<le> h ! i" using edge [of i] c par_less [OF i(1)] by simp
    with i c par_less [OF i(1)] show "h[pos := h ! c] ! par c \<le> h[pos := h ! c] ! i"
      by (simp add: nth_list_update)
  qed
qed

lemma sink_order: "sink h pos = (h', p) \<Longrightarrow> order_hole h pos \<Longrightarrow> order_hole h' p"
proof (induction h pos arbitrary: h' p rule: sink.induct)
  case (1 h pos)
  show ?case
  proof (cases "2 * pos + 1 < length h")
    case True
    with "1.prems"(1) have "sink (h[pos := h ! smaller_child h pos]) (smaller_child h pos) = (h', p)"
      by (simp add: sink.simps [of h pos] Let_def)
    with "1.IH" [OF True refl] order_hole_step [OF "1.prems"(2) True] show ?thesis by blast
  next
    case False
    with "1.prems" show ?thesis by (simp add: sink.simps [of h pos])
  qed
qed

lemma order_hole_leaf:
  assumes oh: "order_hole h p" and leaf: "length h \<le> 2 * p + 1"
  shows "order_but (h[p := x]) p"
proof -
  have no_child: "par i \<noteq> p" if "0 < i" "i < length h" for i
    using that leaf by (auto simp: par_def)
  have "h[p := x] ! par i \<le> h[p := x] ! i" if i: "0 < i" "i < length h" "i \<noteq> p" for i
    using oh i no_child [OF i(1,2)] by (simp add: order_hole_def)
  moreover have "h[p := x] ! par p \<le> h[p := x] ! i" if "0 < i" "i < length h" "par i = p" for i
    using no_child [OF that(1,2)] that(3) by simp
  ultimately show ?thesis by (simp add: order_but_def)
qed

lemma mset_siftup: "h \<noteq> [] \<Longrightarrow> mset (siftup h 0) = mset h"
  using sink_facts [of 0 h _ _ "h ! 0"]
  by (cases "sink h 0") (auto simp: siftup_def mset_siftdown)

lemma siftup_is_heap:
  assumes "h \<noteq> []" and "order_hole h 0"
  shows "is_heap (siftup h 0)"
proof -
  obtain h' p where s: "sink h 0 = (h', p)" by fastforce
  from assms(1) sink_facts [OF _ s] have f: "length h' = length h" "p < length h" "length h \<le> 2 * p + 1"
    by auto
  from sink_order [OF s assms(2)] f have "order_but (h'[p := h ! 0]) p"
    by (intro order_hole_leaf) auto
  with f s show ?thesis by (simp add: siftup_def siftdown_is_heap)
qed

lemma is_heap_heappush:
  assumes "is_heap h"
  shows "is_heap (heappush x h)"
proof -
  have "order_but (h @ [x]) (length h)"
    unfolding order_but_def
  proof (intro conjI allI impI; elim conjE)
    fix i assume i: "0 < i" "i < length (h @ [x])" "i \<noteq> length h"
    with par_less [OF i(1)] assms show "(h @ [x]) ! par i \<le> (h @ [x]) ! i"
      by (simp add: is_heap_def nth_append)
  next
    fix i assume "0 < i" "i < length (h @ [x])" "par i = length h"
    with par_less [of i] have False by simp
    then show "(h @ [x]) ! par (length h) \<le> (h @ [x]) ! i" ..
  qed
  then show ?thesis by (simp add: heappush_def siftdown_is_heap)
qed

lemma mset_heappush: "mset (heappush x h) = add_mset x (mset h)"
  by (simp add: heappush_def mset_siftdown)

lemma set_heappush [simp]: "set (heappush x h) = insert x (set h)"
  using mset_heappush [of x h] by (metis set_mset_add_mset_insert set_mset_mset)

lemma order_hole_butlast: "is_heap h \<Longrightarrow> order_hole ((butlast h)[0 := x]) 0"
  by (auto simp: is_heap_def order_hole_def nth_butlast nth_list_update dest: par_less)

lemma heap_root_least:
  assumes "is_heap h" and "i < length h"
  shows "h ! 0 \<le> h ! i"
  using assms(2)
proof (induction i rule: less_induct)
  case (less i)
  show ?case
  proof (cases "i = 0")
    case False
    with less par_less [of i] have "h ! 0 \<le> h ! par i" by simp
    also have "\<dots> \<le> h ! i" using False less.prems assms(1) by (simp add: is_heap_def)
    finally show ?thesis .
  qed simp
qed

lemma heappop_cases:
  assumes "heappop h = Some (x, h')"
  obtains "h = [x]" "h' = []"
  | b l where "h = x # b @ [l]" "h' = siftup (l # b) 0"
proof (cases h rule: rev_cases)
  case Nil
  with assms show ?thesis by (simp add: heappop_def)
next
  case (snoc ys l)
  with assms that show ?thesis
    by (cases ys) (auto simp: heappop_def Let_def)
qed

lemma mset_heappop: "heappop h = Some (x, h') \<Longrightarrow> mset h = add_mset x (mset h')"
  by (erule heappop_cases) (auto simp: mset_siftup)

lemma is_heap_heappop:
  assumes "is_heap h" and "heappop h = Some (x, h')"
  shows "is_heap h'"
  using assms(2)
proof (cases rule: heappop_cases)
  case 1
  then show ?thesis by (simp add: is_heap_def)
next
  case (2 b l)
  with order_hole_butlast [OF assms(1), of l] show ?thesis by (simp add: siftup_is_heap butlast_append)
qed

lemma heappop_least:
  assumes "is_heap h" and "heappop h = Some (x, h')" and "y \<in># mset h'"
  shows "x \<le> y"
proof -
  from assms(2) have x: "x = h ! 0" by (cases rule: heappop_cases) auto
  from assms(3) mset_heappop [OF assms(2)] have "y \<in># mset h" by simp
  then have "y \<in> set h" by simp
  then obtain i where "i < length h" "y = h ! i" by (auto simp: in_set_conv_nth)
  with x heap_root_least [OF assms(1)] show ?thesis by simp
qed

lemma heappop_None_iff: "heappop h = None \<longleftrightarrow> h = []"
  by (auto simp: heappop_def Let_def)

interpretation hq: min_heap heappush heappop heap_top mset is_heap
proof unfold_locales
  fix h :: "'a list"
  show "heap_top h = map_option fst (heappop h)"
  proof (cases "heappop h")
    case None
    then show ?thesis by (simp add: heappop_None_iff heap_top_def)
  next
    case (Some p)
    then obtain x h' where p: "heappop h = Some (x, h')" by (cases p) auto
    then have "heap_top h = Some x" by (cases rule: heappop_cases) (auto simp: heap_top_def)
    with p show ?thesis by simp
  qed
qed (auto simp: is_heap_heappush mset_heappush heappop_None_iff is_heap_heappop
    mset_heappop intro: heappop_least)

lemma heappop_length: "heappop h = Some (e, h') \<Longrightarrow> length h' < length h"
  using hq.size_pop by force

lemma is_heap_Nil [simp]: "is_heap []"
  by (simp add: is_heap_def)

end
