(* ===== verification/Sched_Policy.thy ===== *)
theory Sched_Policy
  imports Task_Model Heapq
begin

text \<open>
  The retrieval-order strategies of the task queue: \<^verbatim>\<open>runtime/scheduling/queue/policy.py\<close>.
  The abstract class is the locale \<open>scheduling_policy\<close>: \<open>pending\<close> is the list of task ids in the
  order they will be served, \<open>known\<close> the ids the policy still holds an entry for (a lazily removed
  id stays known until its entry surfaces). The locale is interpreted on each of the three
  policies and on their dispatch.
\<close>

section \<open>FIFO\<close>

record fifo_policy =
  fifo_order :: "string list"

definition fifo_init :: fifo_policy where
  "fifo_init = \<lparr>fifo_order = []\<rparr>"

definition fifo_add :: "task \<Rightarrow> fifo_policy \<Rightarrow> fifo_policy" where
  "fifo_add t p = p\<lparr>fifo_order := fifo_order p @ [t_id t]\<rparr>"

definition fifo_remove :: "string \<Rightarrow> fifo_policy \<Rightarrow> fifo_policy" where
  "fifo_remove i p = p\<lparr>fifo_order := remove1 i (fifo_order p)\<rparr>"

definition fifo_next :: "fifo_policy \<Rightarrow> string option \<times> fifo_policy" where
  "fifo_next p = (case fifo_order p of
       [] \<Rightarrow> (None, p)
     | i # js \<Rightarrow> (Some i, p\<lparr>fifo_order := js\<rparr>))"

definition fifo_peek :: "fifo_policy \<Rightarrow> string option" where
  "fifo_peek p = (case fifo_order p of [] \<Rightarrow> None | i # _ \<Rightarrow> Some i)"

definition fifo_clear :: "fifo_policy \<Rightarrow> fifo_policy" where
  "fifo_clear p = p\<lparr>fifo_order := []\<rparr>"

section \<open>Heaps with lazy deletion\<close>

text \<open>
  \<^verbatim>\<open>PriorityPolicy\<close> and \<^verbatim>\<open>DeadlinePolicy\<close> keep the same three fields and the same code but for the
  key: a heap of \<open>(key, entry_id, task_id)\<close>, a set of lazily removed ids and a counter.
\<close>

record 'k lazy_policy =
  lp_heap :: "('k \<times> nat \<times> string) list"
  lp_removed :: "string set"
  lp_counter :: nat

definition lazy_init :: "'k lazy_policy" where
  "lazy_init = \<lparr>lp_heap = [], lp_removed = {}, lp_counter = 0\<rparr>"

definition lazy_discard :: "string \<Rightarrow> 'k lazy_policy \<Rightarrow> 'k lazy_policy" where
  "lazy_discard i p = p\<lparr>lp_removed := lp_removed p - {i}\<rparr>"

definition lazy_push :: "'k::linorder \<Rightarrow> string \<Rightarrow> 'k lazy_policy \<Rightarrow> 'k lazy_policy" where
  "lazy_push k i p =
     p\<lparr>lp_heap := heappush (k, lp_counter p, i) (lp_heap p), lp_counter := Suc (lp_counter p)\<rparr>"

definition lazy_remove :: "string \<Rightarrow> 'k lazy_policy \<Rightarrow> 'k lazy_policy" where
  "lazy_remove i p = p\<lparr>lp_removed := insert i (lp_removed p)\<rparr>"

function lazy_next :: "'k::linorder lazy_policy \<Rightarrow> string option \<times> 'k lazy_policy" where
  "lazy_next p =
     (case heappop (lp_heap p) of
        None \<Rightarrow> (None, p)
      | Some ((_, _, i), h') \<Rightarrow>
          (if i \<in> lp_removed p
           then lazy_next (p\<lparr>lp_heap := h', lp_removed := lp_removed p - {i}\<rparr>)
           else (Some i, p\<lparr>lp_heap := h'\<rparr>)))"
  by pat_completeness auto
termination
  by (relation "measure (\<lambda>p. length (lp_heap p))") (auto simp: heappop_length)

function lazy_peek :: "'k::linorder lazy_policy \<Rightarrow> string option \<times> 'k lazy_policy" where
  "lazy_peek p =
     (case heap_top (lp_heap p) of
        None \<Rightarrow> (None, p)
      | Some (_, _, i) \<Rightarrow>
          (if i \<in> lp_removed p
           then (case heappop (lp_heap p) of
                   None \<Rightarrow> (None, p)
                 | Some (_, h') \<Rightarrow>
                     lazy_peek (p\<lparr>lp_heap := h', lp_removed := lp_removed p - {i}\<rparr>))
           else (Some i, p)))"
  by pat_completeness auto
termination
  by (relation "measure (\<lambda>p. length (lp_heap p))") (auto simp: heappop_length)

declare lazy_next.simps [simp del] lazy_peek.simps [simp del]

definition lazy_clear :: "'k lazy_policy \<Rightarrow> 'k lazy_policy" where
  "lazy_clear p = p\<lparr>lp_heap := [], lp_removed := {}, lp_counter := 0\<rparr>"

section \<open>Priority\<close>

text \<open>
  \<open>-priority\<close> raises a type error on a value that is not a number; the removed mark has been
  discarded by then.
\<close>

definition priority_of :: "task \<Rightarrow> rat option" where
  "priority_of t = (case dget (meta_of t) ''priority'' of None \<Rightarrow> Some 0 | Some v \<Rightarrow> num_of v)"

definition priority_add :: "task \<Rightarrow> rat lazy_policy \<Rightarrow> py_error option \<times> rat lazy_policy" where
  "priority_add t p =
     (let p' = lazy_discard (t_id t) p in
      case priority_of t of
        None \<Rightarrow> (Some (TypeError ''bad operand type for unary -''), p')
      | Some r \<Rightarrow> (None, lazy_push (- r) (t_id t) p'))"

definition priority_remove :: "string \<Rightarrow> rat lazy_policy \<Rightarrow> rat lazy_policy" where
  "priority_remove = lazy_remove"

definition priority_next :: "rat lazy_policy \<Rightarrow> string option \<times> rat lazy_policy" where
  "priority_next = lazy_next"

definition priority_peek :: "rat lazy_policy \<Rightarrow> string option \<times> rat lazy_policy" where
  "priority_peek = lazy_peek"

definition priority_clear :: "rat lazy_policy \<Rightarrow> rat lazy_policy" where
  "priority_clear = lazy_clear"

section \<open>Deadline\<close>

text \<open>A float that may be \<open>float('inf')\<close>.\<close>

datatype pfloat = Fin rat | Infty

instantiation pfloat :: linorder
begin

fun less_eq_pfloat :: "pfloat \<Rightarrow> pfloat \<Rightarrow> bool" where
  "less_eq_pfloat (Fin a) (Fin b) = (a \<le> b)"
| "less_eq_pfloat x Infty = True"
| "less_eq_pfloat Infty (Fin b) = False"

definition less_pfloat :: "pfloat \<Rightarrow> pfloat \<Rightarrow> bool" where
  "less_pfloat x y \<longleftrightarrow> x \<le> y \<and> \<not> y \<le> (x::pfloat)"

instance
proof
  fix x y z :: pfloat
  show "x < y \<longleftrightarrow> x \<le> y \<and> \<not> y \<le> x" by (rule less_pfloat_def)
  show "x \<le> x" by (cases x) auto
  show "x \<le> y \<Longrightarrow> y \<le> z \<Longrightarrow> x \<le> z" by (cases x; cases y; cases z) auto
  show "x \<le> y \<Longrightarrow> y \<le> x \<Longrightarrow> x = y" by (cases x; cases y) auto
  show "x \<le> y \<or> y \<le> x" by (cases x; cases y) auto
qed

end

text \<open>
  \<open>fromiso s\<close> is \<open>datetime.fromisoformat(s).timestamp()\<close>, \<open>None\<close> where it raises \<open>ValueError\<close>.
\<close>

definition deadline_of :: "(string \<Rightarrow> rat option) \<Rightarrow> task \<Rightarrow> pfloat" where
  "deadline_of fromiso t =
     (case dget (meta_of t) ''deadline'' of
        None \<Rightarrow> Infty
      | Some v \<Rightarrow>
          (case num_of v of
             Some r \<Rightarrow> Fin r
           | None \<Rightarrow>
               (case v of
                  PStr s \<Rightarrow> (case fromiso s of Some r \<Rightarrow> Fin r | None \<Rightarrow> Infty)
                | _ \<Rightarrow> Infty)))"

definition deadline_add ::
    "(string \<Rightarrow> rat option) \<Rightarrow> task \<Rightarrow> pfloat lazy_policy \<Rightarrow> pfloat lazy_policy" where
  "deadline_add fromiso t p =
     lazy_push (deadline_of fromiso t) (t_id t) (lazy_discard (t_id t) p)"

definition deadline_remove :: "string \<Rightarrow> pfloat lazy_policy \<Rightarrow> pfloat lazy_policy" where
  "deadline_remove = lazy_remove"

definition deadline_next :: "pfloat lazy_policy \<Rightarrow> string option \<times> pfloat lazy_policy" where
  "deadline_next = lazy_next"

definition deadline_peek :: "pfloat lazy_policy \<Rightarrow> string option \<times> pfloat lazy_policy" where
  "deadline_peek = lazy_peek"

definition deadline_clear :: "pfloat lazy_policy \<Rightarrow> pfloat lazy_policy" where
  "deadline_clear = lazy_clear"

section \<open>Dispatch\<close>

datatype policy =
    FIFO fifo_policy
  | PRIORITY "rat lazy_policy"
  | DEADLINE "pfloat lazy_policy"

fun policy_add ::
    "(string \<Rightarrow> rat option) \<Rightarrow> task \<Rightarrow> policy \<Rightarrow> py_error option \<times> policy" where
  "policy_add fromiso t (FIFO p) = (None, FIFO (fifo_add t p))"
| "policy_add fromiso t (PRIORITY p) = map_prod id PRIORITY (priority_add t p)"
| "policy_add fromiso t (DEADLINE p) = (None, DEADLINE (deadline_add fromiso t p))"

fun policy_remove :: "string \<Rightarrow> policy \<Rightarrow> policy" where
  "policy_remove i (FIFO p) = FIFO (fifo_remove i p)"
| "policy_remove i (PRIORITY p) = PRIORITY (priority_remove i p)"
| "policy_remove i (DEADLINE p) = DEADLINE (deadline_remove i p)"

fun policy_next :: "policy \<Rightarrow> string option \<times> policy" where
  "policy_next (FIFO p) = map_prod id FIFO (fifo_next p)"
| "policy_next (PRIORITY p) = map_prod id PRIORITY (priority_next p)"
| "policy_next (DEADLINE p) = map_prod id DEADLINE (deadline_next p)"

fun policy_peek :: "policy \<Rightarrow> string option \<times> policy" where
  "policy_peek (FIFO p) = (fifo_peek p, FIFO p)"
| "policy_peek (PRIORITY p) = map_prod id PRIORITY (priority_peek p)"
| "policy_peek (DEADLINE p) = map_prod id DEADLINE (deadline_peek p)"

fun policy_clear :: "policy \<Rightarrow> policy" where
  "policy_clear (FIFO p) = FIFO (fifo_clear p)"
| "policy_clear (PRIORITY p) = PRIORITY (priority_clear p)"
| "policy_clear (DEADLINE p) = DEADLINE (deadline_clear p)"

section \<open>The contract\<close>

definition opt_hd :: "'a list \<Rightarrow> 'a option" where
  "opt_hd xs = (case xs of [] \<Rightarrow> None | x # _ \<Rightarrow> Some x)"

lemma opt_hd_simps [simp]: "opt_hd [] = None" "opt_hd (x # xs) = Some x"
  by (simp_all add: opt_hd_def)

fun drain :: "('p \<Rightarrow> string option \<times> 'p) \<Rightarrow> nat \<Rightarrow> 'p \<Rightarrow> string list" where
  "drain nx 0 p = []"
| "drain nx (Suc n) p =
     (case nx p of (None, _) \<Rightarrow> [] | (Some i, p') \<Rightarrow> i # drain nx n p')"

locale scheduling_policy =
  fixes add :: "task \<Rightarrow> 'p \<Rightarrow> py_error option \<times> 'p"
    and remove :: "string \<Rightarrow> 'p \<Rightarrow> 'p"
    and nxt :: "'p \<Rightarrow> string option \<times> 'p"
    and peek :: "'p \<Rightarrow> string option \<times> 'p"
    and clear :: "'p \<Rightarrow> 'p"
    and pending :: "'p \<Rightarrow> string list"
    and known :: "'p \<Rightarrow> string set"
    and ok :: "'p \<Rightarrow> bool"
    and accepts :: "task \<Rightarrow> 'p \<Rightarrow> bool"
  assumes distinct_pending: "ok p \<Longrightarrow> distinct (pending p)"
    and pending_known: "set (pending p) \<subseteq> known p"
    and add_accepts: "fst (add t p) = None \<longleftrightarrow> accepts t p"
    and add_ok: "ok p \<Longrightarrow> t_id t \<notin> known p \<Longrightarrow> accepts t p \<Longrightarrow> ok (snd (add t p))"
    and add_known: "accepts t p \<Longrightarrow> known (snd (add t p)) = insert (t_id t) (known p)"
    and add_pending: "ok p \<Longrightarrow> t_id t \<notin> known p \<Longrightarrow> accepts t p \<Longrightarrow>
      \<exists>xs ys. pending p = xs @ ys \<and> pending (snd (add t p)) = xs @ t_id t # ys"
    and remove_ok: "ok p \<Longrightarrow> ok (remove i p)"
    and remove_known: "known (remove i p) \<subseteq> known p"
    and remove_pending: "ok p \<Longrightarrow> pending (remove i p) = filter (\<lambda>j. j \<noteq> i) (pending p)"
    and nxt_ok: "ok p \<Longrightarrow> ok (snd (nxt p))"
    and nxt_known: "known (snd (nxt p)) \<subseteq> known p"
    and nxt_fst: "ok p \<Longrightarrow> fst (nxt p) = opt_hd (pending p)"
    and nxt_pending: "ok p \<Longrightarrow> pending (snd (nxt p)) = tl (pending p)"
    and peek_ok: "ok p \<Longrightarrow> ok (snd (peek p))"
    and peek_fst: "ok p \<Longrightarrow> fst (peek p) = opt_hd (pending p)"
    and peek_pending: "ok p \<Longrightarrow> pending (snd (peek p)) = pending p"
    and clear_ok: "ok (clear p)"
    and clear_pending: "pending (clear p) = []"
begin

lemma add_set:
  "ok p \<Longrightarrow> t_id t \<notin> known p \<Longrightarrow> accepts t p \<Longrightarrow>
   set (pending (snd (add t p))) = insert (t_id t) (set (pending p))"
  by (drule (2) add_pending) auto

lemma add_length:
  "ok p \<Longrightarrow> t_id t \<notin> known p \<Longrightarrow> accepts t p \<Longrightarrow>
   length (pending (snd (add t p))) = Suc (length (pending p))"
  by (drule (2) add_pending) auto

lemma peek_then_next: "ok p \<Longrightarrow> fst (nxt (snd (peek p))) = fst (peek p)"
  by (simp add: nxt_fst peek_ok peek_pending peek_fst)

text \<open>Repeated retrieval hands out exactly the pending ids, in order.\<close>

lemma drain_pending: "ok p \<Longrightarrow> length (pending p) \<le> n \<Longrightarrow> drain nxt n p = pending p"
proof (induction n arbitrary: p)
  case (Suc n)
  obtain r p' where nx: "nxt p = (r, p')" by fastforce
  with Suc.prems nxt_fst nxt_pending nxt_ok have
    r: "r = opt_hd (pending p)" and p': "pending p' = tl (pending p)" "ok p'"
    by (metis fst_conv, metis snd_conv, metis snd_conv)
  show ?case
  proof (cases "pending p")
    case Nil
    with nx r show ?thesis by simp
  next
    case (Cons i js)
    with Suc.prems(2) p' have "drain nxt n p' = js" using Suc.IH [of p'] by simp
    with nx r Cons show ?thesis by simp
  qed
qed simp

end

section \<open>The FIFO policy keeps the contract\<close>

lemmas fifo_defs = fifo_init_def fifo_add_def fifo_remove_def fifo_next_def fifo_peek_def fifo_clear_def

definition fifo_ok :: "fifo_policy \<Rightarrow> bool" where
  "fifo_ok p \<longleftrightarrow> distinct (fifo_order p)"

interpretation fifo: scheduling_policy "\<lambda>t p. (None, fifo_add t p)" fifo_remove fifo_next
    "\<lambda>p. (fifo_peek p, p)" fifo_clear fifo_order "\<lambda>p. set (fifo_order p)" fifo_ok "\<lambda>t p. True"
proof unfold_locales
  fix p :: fifo_policy and t :: task
  show "\<exists>xs ys. fifo_order p = xs @ ys \<and>
      fifo_order (snd (None, fifo_add t p)) = xs @ t_id t # ys"
    by (rule exI [of _ "fifo_order p"]) (simp add: fifo_defs)
qed (auto simp: fifo_defs fifo_ok_def opt_hd_def remove1_filter_distinct
    split: list.splits dest: set_remove1_subset [THEN subsetD])

section \<open>The lazy heaps keep the contract\<close>

abbreviation entry_id :: "'k \<times> nat \<times> string \<Rightarrow> string" where
  "entry_id e \<equiv> snd (snd e)"

abbreviation entries :: "'k::linorder lazy_policy \<Rightarrow> ('k \<times> nat \<times> string) list" where
  "entries p \<equiv> hq.ordered (lp_heap p)"

definition lazy_pending :: "'k::linorder lazy_policy \<Rightarrow> string list" where
  "lazy_pending p = map entry_id (filter (\<lambda>e. entry_id e \<notin> lp_removed p) (entries p))"

definition lazy_known :: "'k lazy_policy \<Rightarrow> string set" where
  "lazy_known p = entry_id ` set (lp_heap p)"

text \<open>A policy state in which no id has two entries.\<close>

definition lazy_ok :: "'k::linorder lazy_policy \<Rightarrow> bool" where
  "lazy_ok p \<longleftrightarrow> is_heap (lp_heap p) \<and> distinct (map entry_id (lp_heap p))"

lemma set_entries: "set (entries p) = set (lp_heap p)"
  by (simp add: hq.ordered_def)

lemma distinct_entries: "lazy_ok p \<Longrightarrow> distinct (map entry_id (entries p))"
  using mset_eq_imp_distinct_iff [of "map entry_id (entries p)" "map entry_id (lp_heap p)"]
  by (simp add: lazy_ok_def hq.ordered_def)

lemma lazy_pending_known: "set (lazy_pending p) \<subseteq> lazy_known p"
  by (auto simp: lazy_pending_def lazy_known_def set_entries)

lemma distinct_lazy_pending: "lazy_ok p \<Longrightarrow> distinct (lazy_pending p)"
  unfolding lazy_pending_def by (metis distinct_entries distinct_map_filter)

lemma lazy_known_iff: "i \<in> lazy_known p \<longleftrightarrow> (\<exists>e \<in> set (entries p). entry_id e = i)"
  by (auto simp: lazy_known_def set_entries)

text \<open>Popping one entry, whatever happens to the removed marks.\<close>

lemma lazy_pop:
  assumes ok: "lazy_ok p" and pop: "heappop (lp_heap p) = Some (e, h')"
  shows "entries p = e # hq.ordered h'"
    and "lazy_ok (p\<lparr>lp_heap := h', lp_removed := R\<rparr>)"
    and "\<forall>d \<in> set (hq.ordered h'). entry_id d \<noteq> entry_id e"
proof -
  from ok have h: "is_heap (lp_heap p)" by (simp add: lazy_ok_def)
  show eq: "entries p = e # hq.ordered h'" by (rule hq.ordered_pop_Some [OF h pop])
  have "entry_id e \<notin> entry_id ` set (hq.ordered h')"
    using distinct_entries [OF ok] by (simp add: eq)
  then show "\<forall>d \<in> set (hq.ordered h'). entry_id d \<noteq> entry_id e"
    by (metis imageI)
  have "distinct (map entry_id h') = distinct (map entry_id (hq.ordered h'))"
    by (rule mset_eq_imp_distinct_iff) (simp add: hq.ordered_def)
  with distinct_entries [OF ok] hq.invar_pop [OF h pop]
  show "lazy_ok (p\<lparr>lp_heap := h', lp_removed := R\<rparr>)"
    by (simp add: lazy_ok_def eq)
qed

lemma lazy_pop_known:
  "heappop (lp_heap p) = Some (e, h') \<Longrightarrow>
   lazy_known (p\<lparr>lp_heap := h', lp_removed := R\<rparr>) \<subseteq> lazy_known p"
  by (drule mset_heappop, drule arg_cong [where f = set_mset]) (auto simp: lazy_known_def)

lemma lazy_pop_pending:
  assumes "lazy_ok p" and "heappop (lp_heap p) = Some (e, h')"
  shows "entry_id e \<in> lp_removed p \<Longrightarrow>
      lazy_pending (p\<lparr>lp_heap := h', lp_removed := lp_removed p - {entry_id e}\<rparr>) = lazy_pending p"
    and "entry_id e \<notin> lp_removed p \<Longrightarrow>
      lazy_pending p = entry_id e # lazy_pending (p\<lparr>lp_heap := h'\<rparr>)"
  using lazy_pop [OF assms]
  by (auto simp: lazy_pending_def intro!: arg_cong [where f = "map entry_id"] filter_cong)

lemma lazy_next_known: "lazy_known (snd (lazy_next p)) \<subseteq> lazy_known p"
proof (induction p rule: measure_induct_rule [where f = "\<lambda>p. length (lp_heap p)"])
  case (less p)
  show ?case
  proof (cases "heappop (lp_heap p)")
    case None
    then show ?thesis by (simp add: lazy_next.simps [of p])
  next
    case (Some q)
    obtain k n i h' where q: "q = ((k, n, i), h')" by (metis prod.exhaust)
    have sub: "lazy_known (p\<lparr>lp_heap := h'\<rparr>) \<subseteq> lazy_known p"
      using lazy_pop_known [OF Some [unfolded q], of "lp_removed p"] by simp
    show ?thesis
    proof (cases "i \<in> lp_removed p")
      case True
      let ?p = "p\<lparr>lp_heap := h', lp_removed := lp_removed p - {i}\<rparr>"
      have "lazy_known (snd (lazy_next ?p)) \<subseteq> lazy_known ?p"
        using less.IH [of ?p] heappop_length [OF Some [unfolded q]] by simp
      with True lazy_pop_known [OF Some [unfolded q], of "lp_removed p - {i}"] show ?thesis
        by (auto simp: lazy_next.simps [of p] Some q)
    next
      case False
      with sub show ?thesis by (simp add: lazy_next.simps [of p] Some q)
    qed
  qed
qed

lemma lazy_next_spec:
  "lazy_ok p \<Longrightarrow> lazy_ok (snd (lazy_next p)) \<and> fst (lazy_next p) = opt_hd (lazy_pending p) \<and>
     lazy_pending (snd (lazy_next p)) = tl (lazy_pending p)"
proof (induction p rule: measure_induct_rule [where f = "\<lambda>p. length (lp_heap p)"])
  case (less p)
  show ?case
  proof (cases "heappop (lp_heap p)")
    case None
    with less.prems hq.ordered_pop_None [OF None] show ?thesis
      by (simp add: lazy_next.simps [of p] lazy_pending_def)
  next
    case (Some q)
    obtain k n i h' where q: "q = ((k, n, i), h')" by (metis prod.exhaust)
    note pop = Some [unfolded q]
    show ?thesis
    proof (cases "i \<in> lp_removed p")
      case True
      let ?p = "p\<lparr>lp_heap := h', lp_removed := lp_removed p - {i}\<rparr>"
      have "lazy_ok ?p" and "lazy_pending ?p = lazy_pending p"
        using lazy_pop(2) [OF less.prems pop] lazy_pop_pending(1) [OF less.prems pop] True by simp_all
      with less.IH [of ?p] heappop_length [OF pop] True show ?thesis
        by (simp add: lazy_next.simps [of p] Some q)
    next
      case False
      with lazy_pop(2) [OF less.prems pop, of "lp_removed p"] lazy_pop_pending(2) [OF less.prems pop]
      show ?thesis by (simp add: lazy_next.simps [of p] Some q)
    qed
  qed
qed

lemma lazy_peek_spec:
  "lazy_ok p \<Longrightarrow> lazy_ok (snd (lazy_peek p)) \<and> fst (lazy_peek p) = opt_hd (lazy_pending p) \<and>
     lazy_pending (snd (lazy_peek p)) = lazy_pending p"
proof (induction p rule: measure_induct_rule [where f = "\<lambda>p. length (lp_heap p)"])
  case (less p)
  show ?case
  proof (cases "heappop (lp_heap p)")
    case None
    with less.prems hq.ordered_pop_None [OF None] hq.top_pop [of "lp_heap p"] show ?thesis
      by (simp add: lazy_peek.simps [of p] lazy_pending_def)
  next
    case (Some q)
    obtain k n i h' where q: "q = ((k, n, i), h')" by (metis prod.exhaust)
    note pop = Some [unfolded q]
    have top: "heap_top (lp_heap p) = Some (k, n, i)" by (simp add: hq.top_pop pop)
    show ?thesis
    proof (cases "i \<in> lp_removed p")
      case True
      let ?p = "p\<lparr>lp_heap := h', lp_removed := lp_removed p - {i}\<rparr>"
      have "lazy_ok ?p" and "lazy_pending ?p = lazy_pending p"
        using lazy_pop(2) [OF less.prems pop] lazy_pop_pending(1) [OF less.prems pop] True by simp_all
      with less.IH [of ?p] heappop_length [OF pop] True top show ?thesis
        by (simp add: lazy_peek.simps [of p] pop)
    next
      case False
      with less.prems top lazy_pop_pending(2) [OF less.prems pop] show ?thesis
        by (simp add: lazy_peek.simps [of p])
    qed
  qed
qed

lemma lazy_peek_known: "lazy_known (lazy_remove i p) = lazy_known p"
  by (simp add: lazy_known_def lazy_remove_def)

lemma lazy_remove_spec:
  "lazy_ok p \<Longrightarrow> lazy_ok (lazy_remove i p)"
  "lazy_pending (lazy_remove i p) = filter (\<lambda>j. j \<noteq> i) (lazy_pending p)"
  by (auto simp: lazy_ok_def lazy_pending_def lazy_remove_def filter_map comp_def
      intro!: arg_cong [where f = "map entry_id"] filter_cong)

lemma lazy_clear_spec: "lazy_ok (lazy_clear p)" "lazy_pending (lazy_clear p) = []"
  by (simp_all add: lazy_ok_def lazy_pending_def lazy_clear_def hq.ordered_def)

lemma insort_split: "\<exists>xs ys. zs = xs @ ys \<and> insort x zs = xs @ x # ys"
proof (induction zs)
  case (Cons z zs)
  then obtain xs ys where "zs = xs @ ys" "insort x zs = xs @ x # ys" by blast
  then have "z # zs = [] @ (z # zs)" "insort x (z # zs) = [] @ x # (z # zs) \<or>
    z # zs = (z # xs) @ ys \<and> insort x (z # zs) = (z # xs) @ x # ys" by auto
  then show ?case by metis
qed simp

definition lazy_add :: "'k::linorder \<Rightarrow> string \<Rightarrow> 'k lazy_policy \<Rightarrow> 'k lazy_policy" where
  "lazy_add k i p = lazy_push k i (lazy_discard i p)"

lemma entries_lazy_add: "entries (lazy_add k i p) = insort (k, lp_counter p, i) (entries p)"
  by (simp add: lazy_add_def lazy_push_def lazy_discard_def hq.ordered_push)

lemma lazy_add_known: "lazy_known (lazy_add k i p) = insert i (lazy_known p)"
  by (simp add: lazy_known_def lazy_add_def lazy_push_def lazy_discard_def)

lemma lazy_add_ok:
  assumes "lazy_ok p" and "i \<notin> lazy_known p"
  shows "lazy_ok (lazy_add k i p)"
proof -
  have "distinct (map entry_id (heappush (k, lp_counter p, i) (lp_heap p))) =
      distinct (map entry_id ((k, lp_counter p, i) # lp_heap p))"
    by (rule mset_eq_imp_distinct_iff) (simp add: mset_heappush)
  with assms show ?thesis
    by (auto simp: lazy_ok_def lazy_add_def lazy_push_def lazy_discard_def lazy_known_def
        is_heap_heappush)
qed

lemma lazy_add_pending:
  assumes "i \<notin> lazy_known p"
  shows "\<exists>xs ys. lazy_pending p = xs @ ys \<and> lazy_pending (lazy_add k i p) = xs @ i # ys"
proof -
  obtain xs ys where e: "entries p = xs @ ys"
    and e': "entries (lazy_add k i p) = xs @ (k, lp_counter p, i) # ys"
    using insort_split entries_lazy_add by metis
  let ?live = "\<lambda>es. map entry_id (filter (\<lambda>d. entry_id d \<notin> lp_removed p) es)"
  have r: "lp_removed (lazy_add k i p) = lp_removed p - {i}"
    by (simp add: lazy_add_def lazy_push_def lazy_discard_def)
  have "filter (\<lambda>d. entry_id d \<notin> lp_removed p - {i}) zs =
      filter (\<lambda>d. entry_id d \<notin> lp_removed p) zs" if "set zs \<subseteq> set (entries p)" for zs
    using that assms by (intro filter_cong) (auto simp: lazy_known_iff)
  with e have "lazy_pending p = ?live xs @ ?live ys"
    and "lazy_pending (lazy_add k i p) = ?live xs @ i # ?live ys"
    by (simp_all add: lazy_pending_def e' r)
  then show ?thesis by blast
qed

lemmas lazy_contract = distinct_lazy_pending lazy_pending_known lazy_add_ok lazy_add_known
  lazy_add_pending lazy_remove_spec lazy_peek_known lazy_next_spec lazy_next_known lazy_peek_spec
  lazy_clear_spec

lemma priority_add_eq:
  "priority_add t p =
     (case priority_of t of
        None \<Rightarrow> (Some (TypeError ''bad operand type for unary -''), lazy_discard (t_id t) p)
      | Some r \<Rightarrow> (None, lazy_add (- r) (t_id t) p))"
  by (simp add: priority_add_def lazy_add_def Let_def split: option.split)

lemma deadline_add_eq: "deadline_add fromiso t p = lazy_add (deadline_of fromiso t) (t_id t) p"
  by (simp add: deadline_add_def lazy_add_def)

lemmas priority_defs = priority_remove_def priority_next_def priority_peek_def priority_clear_def
lemmas deadline_defs = deadline_remove_def deadline_next_def deadline_peek_def deadline_clear_def

interpretation prio: scheduling_policy priority_add priority_remove priority_next priority_peek
    priority_clear lazy_pending lazy_known lazy_ok "\<lambda>t p. priority_of t \<noteq> None"
  by unfold_locales
    (auto simp: priority_defs priority_add_eq lazy_contract split: option.splits
      dest: lazy_pending_known [THEN subsetD] lazy_next_known [THEN subsetD])

interpretation dead: scheduling_policy "\<lambda>t p. (None, deadline_add fromiso t p)" deadline_remove
    deadline_next deadline_peek deadline_clear lazy_pending lazy_known lazy_ok "\<lambda>t p. True"
  for fromiso :: "string \<Rightarrow> rat option"
  by unfold_locales
    (auto simp: deadline_defs deadline_add_eq lazy_contract
      dest: lazy_pending_known [THEN subsetD] lazy_next_known [THEN subsetD])

section \<open>The dispatch keeps the contract\<close>

fun policy_pending :: "policy \<Rightarrow> string list" where
  "policy_pending (FIFO p) = fifo_order p"
| "policy_pending (PRIORITY p) = lazy_pending p"
| "policy_pending (DEADLINE p) = lazy_pending p"

fun policy_known :: "policy \<Rightarrow> string set" where
  "policy_known (FIFO p) = set (fifo_order p)"
| "policy_known (PRIORITY p) = lazy_known p"
| "policy_known (DEADLINE p) = lazy_known p"

fun policy_ok :: "policy \<Rightarrow> bool" where
  "policy_ok (FIFO p) = fifo_ok p"
| "policy_ok (PRIORITY p) = lazy_ok p"
| "policy_ok (DEADLINE p) = lazy_ok p"

fun policy_accepts :: "task \<Rightarrow> policy \<Rightarrow> bool" where
  "policy_accepts t (PRIORITY p) = (priority_of t \<noteq> None)"
| "policy_accepts t _ = True"

interpretation pol: scheduling_policy "policy_add fromiso" policy_remove policy_next policy_peek
    policy_clear policy_pending policy_known policy_ok policy_accepts
  for fromiso :: "string \<Rightarrow> rat option"
proof unfold_locales
  fix p :: policy and t :: task and i :: string
  show "policy_ok p \<Longrightarrow> distinct (policy_pending p)"
    by (cases p) (auto simp: fifo_ok_def distinct_lazy_pending)
  show "set (policy_pending p) \<subseteq> policy_known p"
    by (cases p) (use lazy_pending_known in auto)
  show "(fst (policy_add fromiso t p) = None) = policy_accepts t p"
    by (cases p) (auto simp: prio.add_accepts)
  show "policy_ok p \<Longrightarrow> t_id t \<notin> policy_known p \<Longrightarrow> policy_accepts t p \<Longrightarrow>
      policy_ok (snd (policy_add fromiso t p))"
    using fifo.add_ok prio.add_ok dead.add_ok [where fromiso = fromiso] by (cases p) auto
  show "policy_accepts t p \<Longrightarrow>
      policy_known (snd (policy_add fromiso t p)) = insert (t_id t) (policy_known p)"
    using fifo.add_known prio.add_known dead.add_known [where fromiso = fromiso] by (cases p) auto
  show "policy_ok p \<Longrightarrow> t_id t \<notin> policy_known p \<Longrightarrow> policy_accepts t p \<Longrightarrow>
      \<exists>xs ys. policy_pending p = xs @ ys \<and>
        policy_pending (snd (policy_add fromiso t p)) = xs @ t_id t # ys"
    using fifo.add_pending prio.add_pending dead.add_pending [where fromiso = fromiso] by (cases p) auto
  show "policy_ok p \<Longrightarrow> policy_ok (policy_remove i p)"
    using fifo.remove_ok prio.remove_ok dead.remove_ok by (cases p) auto
  show "policy_known (policy_remove i p) \<subseteq> policy_known p"
    using fifo.remove_known prio.remove_known dead.remove_known by (cases p) auto
  show "policy_ok p \<Longrightarrow>
      policy_pending (policy_remove i p) = filter (\<lambda>j. j \<noteq> i) (policy_pending p)"
    using fifo.remove_pending prio.remove_pending dead.remove_pending by (cases p) auto
  show "policy_ok p \<Longrightarrow> policy_ok (snd (policy_next p))"
    using fifo.nxt_ok prio.nxt_ok dead.nxt_ok by (cases p) auto
  show "policy_known (snd (policy_next p)) \<subseteq> policy_known p"
    using fifo.nxt_known prio.nxt_known dead.nxt_known by (cases p) auto
  show "policy_ok p \<Longrightarrow> fst (policy_next p) = opt_hd (policy_pending p)"
    using fifo.nxt_fst prio.nxt_fst dead.nxt_fst by (cases p) auto
  show "policy_ok p \<Longrightarrow> policy_pending (snd (policy_next p)) = tl (policy_pending p)"
    using fifo.nxt_pending prio.nxt_pending dead.nxt_pending by (cases p) auto
  show "policy_ok p \<Longrightarrow> policy_ok (snd (policy_peek p))"
    using fifo.peek_ok prio.peek_ok dead.peek_ok by (cases p) auto
  show "policy_ok p \<Longrightarrow> fst (policy_peek p) = opt_hd (policy_pending p)"
    using fifo.peek_fst prio.peek_fst dead.peek_fst by (cases p) auto
  show "policy_ok p \<Longrightarrow> policy_pending (snd (policy_peek p)) = policy_pending p"
    using fifo.peek_pending prio.peek_pending dead.peek_pending by (cases p) auto
  show "policy_ok (policy_clear p)"
    using fifo.clear_ok prio.clear_ok dead.clear_ok by (cases p) auto
  show "policy_pending (policy_clear p) = []"
    using fifo.clear_pending prio.clear_pending dead.clear_pending by (cases p) auto
qed

section \<open>Service order of a batch\<close>

text \<open>
  Entries pushed one after the other carry increasing counters, so the heap order is the stable
  sort by key of the order of arrival.
\<close>

lemma map_sort_key: "map f (sort_key (\<lambda>x. g (f x)) xs) = sort_key g (map f xs)"
proof -
  have ins: "map f (insort_key (\<lambda>x. g (f x)) x ys) = insort_key g (f x) (map f ys)" for x ys
    by (induction ys) auto
  show ?thesis by (induction xs) (auto simp: ins)
qed

lemma sorted_counters_stable:
  fixes es :: "('k::linorder \<times> nat \<times> string) list"
  assumes inc: "sorted_wrt (<) (map (fst \<circ> snd) es)"
  shows "sort es = sort_key fst es"
proof (rule properties_for_sort_key [symmetric])
  let ?s = "sort es"
  show "mset ?s = mset es" by simp
  have sorted_s: "sorted ?s" by simp
  show "sorted (map fst ?s)"
    unfolding sorted_map by (rule sorted_wrt_mono_rel [OF _ sorted_s]) (auto simp: less_eq_prod_def)
  fix k assume "k \<in> set ?s"
  let ?P = "\<lambda>e. fst k = fst e"
  have "sorted_wrt (\<lambda>d e. fst (snd d) < fst (snd e)) es" using inc by (simp add: sorted_wrt_map)
  then have "sorted_wrt (\<lambda>d e. fst (snd d) < fst (snd e)) (filter ?P es)"
    by (rule sorted_wrt_filter)
  then have "sorted (filter ?P es)"
    by (rule sorted_wrt_mono_rel [rotated]) auto
  moreover have "sorted (filter ?P ?s)" using sorted_s by (rule sorted_wrt_filter)
  moreover have "mset (filter ?P ?s) = mset (filter ?P es)" by (simp add: mset_filter)
  ultimately show "filter ?P ?s = filter ?P es"
    by (metis properties_for_sort)
qed

definition lazy_add_all :: "(task \<Rightarrow> 'k::linorder) \<Rightarrow> task list \<Rightarrow> 'k lazy_policy \<Rightarrow> 'k lazy_policy" where
  "lazy_add_all key = fold (\<lambda>t. lazy_add (key t) (t_id t))"

definition arrivals :: "(task \<Rightarrow> 'k) \<Rightarrow> nat \<Rightarrow> task list \<Rightarrow> ('k \<times> nat \<times> string) list" where
  "arrivals key n ts = map (\<lambda>(m, t). (key t, m, t_id t)) (enumerate n ts)"

lemma lazy_add_fields [simp]:
  "lp_counter (lazy_add k i p) = Suc (lp_counter p)"
  "lp_removed (lazy_add k i p) = lp_removed p - {i}"
  "mset (lp_heap (lazy_add k i p)) = add_mset (k, lp_counter p, i) (mset (lp_heap p))"
  by (simp_all add: lazy_add_def lazy_push_def lazy_discard_def mset_heappush)

lemma lazy_add_all_heap:
  "mset (lp_heap (lazy_add_all key ts p)) = mset (lp_heap p) + mset (arrivals key (lp_counter p) ts)"
  by (induction ts arbitrary: p) (auto simp: lazy_add_all_def arrivals_def)

lemma lazy_add_all_removed: "lp_removed (lazy_add_all key ts p) = lp_removed p - t_id ` set ts"
  by (induction ts arbitrary: p) (auto simp: lazy_add_all_def)

lemma lazy_add_all_ok:
  "lazy_ok p \<Longrightarrow> distinct (map t_id ts) \<Longrightarrow> t_id ` set ts \<inter> lazy_known p = {} \<Longrightarrow>
   lazy_ok (lazy_add_all key ts p)"
  by (induction ts arbitrary: p) (auto simp: lazy_add_all_def lazy_add_ok lazy_add_known)

lemma lazy_ok_init: "lazy_ok lazy_init"
  by (simp add: lazy_ok_def lazy_init_def)

lemma arrivals_sorted:
  "map entry_id (sort_key fst (arrivals key n ts)) = map t_id (sort_key key ts)"
proof -
  let ?f = "\<lambda>(m, t). (key t, m, t_id t)"
  have "sort_key fst (arrivals key n ts) = map ?f (sort_key (\<lambda>x. key (snd x)) (enumerate n ts))"
    unfolding arrivals_def by (subst map_sort_key [symmetric]) (simp add: case_prod_beta)
  then have "map entry_id (sort_key fst (arrivals key n ts)) =
      map t_id (map snd (sort_key (\<lambda>x. key (snd x)) (enumerate n ts)))"
    by (simp add: case_prod_beta)
  also have "\<dots> = map t_id (sort_key key ts)"
    by (simp only: map_sort_key) simp
  finally show ?thesis .
qed

lemma lazy_add_all_pending: "lazy_pending (lazy_add_all key ts lazy_init) = map t_id (sort_key key ts)"
proof -
  have "sorted_wrt (<) (map (fst \<circ> snd) (arrivals key 0 ts))"
    by (simp add: arrivals_def comp_def case_prod_beta flip: map_map [unfolded comp_def])
  then have "entries (lazy_add_all key ts lazy_init) = sort_key fst (arrivals key 0 ts)"
    by (simp add: hq.ordered_def lazy_add_all_heap lazy_init_def sorted_counters_stable)
  moreover have "lp_removed (lazy_add_all key ts lazy_init) = {}"
    by (simp add: lazy_add_all_removed lazy_init_def)
  ultimately show ?thesis by (simp add: lazy_pending_def arrivals_sorted)
qed

end
