(* ===== verification/Runtime_Events.thy ===== *)
theory Runtime_Events
  imports Prelude
begin

text \<open>
  The persistent domain events: \<^verbatim>\<open>runtime/persistence/domain/events.py\<close>. An event is the fields
  of the base class and a kind, one constructor per registered subclass with the fields the
  subclass adds; \<open>BaseEvent\<close> is the unregistered base class itself.
\<close>

datatype event_kind =
    BaseEvent
  | TaskSubmitted string string string
  | TaskQueued string
  | TaskDequeued string
  | TaskStarted string
  | TaskCompleted string
  | TaskFailed string string
  | TaskCancelled string
  | TaskTimedOut string
  | TaskRetried string int
  | WorkerStarted string
  | WorkerStopped string
  | WorkerHeartbeat string string
  | WorkerFailed string string
  | WorkerRecovered string
  | SchedulerStarted
  | SchedulerStopped
  | RetryScheduled string rat
  | TimeoutTriggered string rat
  | DelayedTaskReleased string
  | RuntimeStarted
  | RuntimeStopped
  | RuntimeRecovered
  | SnapshotCreated string
  | SnapshotLoaded string

record runtime_event =
  ev_id :: string
  ev_runtime_id :: string
  ev_correlation_id :: "string option"
  ev_causation_id :: "string option"
  ev_timestamp :: string
  ev_type :: string
  ev_version :: int
  ev_metadata :: pydict
  ev_kind :: event_kind

fun event_class :: "event_kind \<Rightarrow> string" where
  "event_class BaseEvent = ''RuntimeEvent''"
| "event_class (TaskSubmitted i t y) = ''TaskSubmitted''"
| "event_class (TaskQueued i) = ''TaskQueued''"
| "event_class (TaskDequeued i) = ''TaskDequeued''"
| "event_class (TaskStarted i) = ''TaskStarted''"
| "event_class (TaskCompleted i) = ''TaskCompleted''"
| "event_class (TaskFailed i m) = ''TaskFailed''"
| "event_class (TaskCancelled i) = ''TaskCancelled''"
| "event_class (TaskTimedOut i) = ''TaskTimedOut''"
| "event_class (TaskRetried i n) = ''TaskRetried''"
| "event_class (WorkerStarted w) = ''WorkerStarted''"
| "event_class (WorkerStopped w) = ''WorkerStopped''"
| "event_class (WorkerHeartbeat w h) = ''WorkerHeartbeat''"
| "event_class (WorkerFailed w m) = ''WorkerFailed''"
| "event_class (WorkerRecovered w) = ''WorkerRecovered''"
| "event_class SchedulerStarted = ''SchedulerStarted''"
| "event_class SchedulerStopped = ''SchedulerStopped''"
| "event_class (RetryScheduled i d) = ''RetryScheduled''"
| "event_class (TimeoutTriggered i d) = ''TimeoutTriggered''"
| "event_class (DelayedTaskReleased i) = ''DelayedTaskReleased''"
| "event_class RuntimeStarted = ''RuntimeStarted''"
| "event_class RuntimeStopped = ''RuntimeStopped''"
| "event_class RuntimeRecovered = ''RuntimeRecovered''"
| "event_class (SnapshotCreated s) = ''SnapshotCreated''"
| "event_class (SnapshotLoaded s) = ''SnapshotLoaded''"

fun kind_fields :: "event_kind \<Rightarrow> pydict" where
  "kind_fields BaseEvent = []"
| "kind_fields (TaskSubmitted i t y) =
     [(''task_id'', PStr i), (''title'', PStr t), (''task_type'', PStr y)]"
| "kind_fields (TaskQueued i) = [(''task_id'', PStr i)]"
| "kind_fields (TaskDequeued i) = [(''task_id'', PStr i)]"
| "kind_fields (TaskStarted i) = [(''task_id'', PStr i)]"
| "kind_fields (TaskCompleted i) = [(''task_id'', PStr i)]"
| "kind_fields (TaskFailed i m) = [(''task_id'', PStr i), (''error_message'', PStr m)]"
| "kind_fields (TaskCancelled i) = [(''task_id'', PStr i)]"
| "kind_fields (TaskTimedOut i) = [(''task_id'', PStr i)]"
| "kind_fields (TaskRetried i n) = [(''task_id'', PStr i), (''retry_count'', PInt n)]"
| "kind_fields (WorkerStarted w) = [(''worker_id'', PStr w)]"
| "kind_fields (WorkerStopped w) = [(''worker_id'', PStr w)]"
| "kind_fields (WorkerHeartbeat w h) = [(''worker_id'', PStr w), (''heartbeat_time'', PStr h)]"
| "kind_fields (WorkerFailed w m) = [(''worker_id'', PStr w), (''error_message'', PStr m)]"
| "kind_fields (WorkerRecovered w) = [(''worker_id'', PStr w)]"
| "kind_fields SchedulerStarted = []"
| "kind_fields SchedulerStopped = []"
| "kind_fields (RetryScheduled i d) = [(''task_id'', PStr i), (''delay_seconds'', PFloat d)]"
| "kind_fields (TimeoutTriggered i d) = [(''task_id'', PStr i), (''timeout_seconds'', PFloat d)]"
| "kind_fields (DelayedTaskReleased i) = [(''task_id'', PStr i)]"
| "kind_fields RuntimeStarted = []"
| "kind_fields RuntimeStopped = []"
| "kind_fields RuntimeRecovered = []"
| "kind_fields (SnapshotCreated s) = [(''snapshot_id'', PStr s)]"
| "kind_fields (SnapshotLoaded s) = [(''snapshot_id'', PStr s)]"

text \<open>
  \<open>mk_event uid now k\<close> is \<open>K(...)\<close>: a new event with every base field at its default, where
  \<open>uid\<close> and \<open>now\<close> are what \<open>uuid.uuid4()\<close> and \<open>datetime.now().isoformat()\<close> return.
\<close>

definition mk_event :: "string \<Rightarrow> string \<Rightarrow> event_kind \<Rightarrow> runtime_event" where
  "mk_event uid now k =
     \<lparr>ev_id = uid, ev_runtime_id = ''default-runtime'', ev_correlation_id = None,
      ev_causation_id = None, ev_timestamp = now, ev_type = event_class k, ev_version = 1,
      ev_metadata = [], ev_kind = k\<rparr>"

section \<open>Dictionaries of primitives\<close>

text \<open>
  \<open>dataclasses.asdict\<close> recurses into lists and dictionaries and turns the dataclass instances it
  meets there (retry and timeout policies) into dictionaries; other values are copied.
\<close>

fun asdict_val :: "pyval \<Rightarrow> pyval" where
  "asdict_val (PList xs) = PList (map asdict_val xs)"
| "asdict_val (PDict d) = PDict (map (\<lambda>kv. (fst kv, asdict_val (snd kv))) d)"
| "asdict_val (PRetryPolicy p) =
     PDict [(''max_retries'', PInt (max_retries p)),
            (''initial_delay_seconds'', PFloat (initial_delay_seconds p)),
            (''backoff_factor'', PFloat (backoff_factor p)),
            (''retryable_exceptions'', popt PSet (retryable_exceptions p))]"
| "asdict_val (PTimeoutPolicy p) = PDict [(''timeout_seconds'', PFloat (timeout_seconds p))]"
| "asdict_val v = v"

lemma asdict_val_json: "json_ok v \<Longrightarrow> asdict_val v = v"
proof (induction v)
  case (PDict d)
  have "map (\<lambda>kv. (fst kv, asdict_val (snd kv))) d = d"
    using PDict by (intro map_idI) (fastforce simp: prod_eq_iff snds.simps)
  then show ?case by simp
qed (auto intro: map_idI)

definition event_to_dict :: "runtime_event \<Rightarrow> pydict" where
  "event_to_dict e =
     dset ''event_type'' (PStr (event_class (ev_kind e)))
       ([(''event_id'', PStr (ev_id e)),
         (''runtime_id'', PStr (ev_runtime_id e)),
         (''correlation_id'', popt PStr (ev_correlation_id e)),
         (''causation_id'', popt PStr (ev_causation_id e)),
         (''timestamp'', PStr (ev_timestamp e)),
         (''event_type'', PStr (ev_type e)),
         (''version'', PInt (ev_version e)),
         (''metadata'', asdict_val (PDict (ev_metadata e)))] @ kind_fields (ev_kind e))"

abbreviation arg_str :: "pydict \<Rightarrow> string \<Rightarrow> py_error + string" where
  "arg_str \<equiv> argument as_str"

text \<open>The registry of the \<open>register_event\<close> decorator: class name and constructor call.\<close>

definition EVENT_REGISTRY :: "(string \<times> (pydict \<Rightarrow> py_error + event_kind)) list" where
  "EVENT_REGISTRY =
    [(''TaskSubmitted'', \<lambda>d. bindE (arg_str d ''task_id'') (\<lambda>i. bindE (arg_str d ''title'')
        (\<lambda>t. bindE (arg_str d ''task_type'') (\<lambda>y. Inr (TaskSubmitted i t y))))),
     (''TaskQueued'', \<lambda>d. bindE (arg_str d ''task_id'') (\<lambda>i. Inr (TaskQueued i))),
     (''TaskDequeued'', \<lambda>d. bindE (arg_str d ''task_id'') (\<lambda>i. Inr (TaskDequeued i))),
     (''TaskStarted'', \<lambda>d. bindE (arg_str d ''task_id'') (\<lambda>i. Inr (TaskStarted i))),
     (''TaskCompleted'', \<lambda>d. bindE (arg_str d ''task_id'') (\<lambda>i. Inr (TaskCompleted i))),
     (''TaskFailed'', \<lambda>d. bindE (arg_str d ''task_id'') (\<lambda>i. bindE (arg_str d ''error_message'')
        (\<lambda>m. Inr (TaskFailed i m)))),
     (''TaskCancelled'', \<lambda>d. bindE (arg_str d ''task_id'') (\<lambda>i. Inr (TaskCancelled i))),
     (''TaskTimedOut'', \<lambda>d. bindE (arg_str d ''task_id'') (\<lambda>i. Inr (TaskTimedOut i))),
     (''TaskRetried'', \<lambda>d. bindE (arg_str d ''task_id'') (\<lambda>i.
        bindE (argument as_int d ''retry_count'') (\<lambda>n. Inr (TaskRetried i n)))),
     (''WorkerStarted'', \<lambda>d. bindE (arg_str d ''worker_id'') (\<lambda>w. Inr (WorkerStarted w))),
     (''WorkerStopped'', \<lambda>d. bindE (arg_str d ''worker_id'') (\<lambda>w. Inr (WorkerStopped w))),
     (''WorkerHeartbeat'', \<lambda>d. bindE (arg_str d ''worker_id'') (\<lambda>w.
        bindE (arg_str d ''heartbeat_time'') (\<lambda>h. Inr (WorkerHeartbeat w h)))),
     (''WorkerFailed'', \<lambda>d. bindE (arg_str d ''worker_id'') (\<lambda>w.
        bindE (arg_str d ''error_message'') (\<lambda>m. Inr (WorkerFailed w m)))),
     (''WorkerRecovered'', \<lambda>d. bindE (arg_str d ''worker_id'') (\<lambda>w. Inr (WorkerRecovered w))),
     (''SchedulerStarted'', \<lambda>d. Inr SchedulerStarted),
     (''SchedulerStopped'', \<lambda>d. Inr SchedulerStopped),
     (''RetryScheduled'', \<lambda>d. bindE (arg_str d ''task_id'') (\<lambda>i.
        bindE (argument as_float d ''delay_seconds'') (\<lambda>r. Inr (RetryScheduled i r)))),
     (''TimeoutTriggered'', \<lambda>d. bindE (arg_str d ''task_id'') (\<lambda>i.
        bindE (argument as_float d ''timeout_seconds'') (\<lambda>r. Inr (TimeoutTriggered i r)))),
     (''DelayedTaskReleased'', \<lambda>d. bindE (arg_str d ''task_id'') (\<lambda>i. Inr (DelayedTaskReleased i))),
     (''RuntimeStarted'', \<lambda>d. Inr RuntimeStarted),
     (''RuntimeStopped'', \<lambda>d. Inr RuntimeStopped),
     (''RuntimeRecovered'', \<lambda>d. Inr RuntimeRecovered),
     (''SnapshotCreated'', \<lambda>d. bindE (arg_str d ''snapshot_id'') (\<lambda>s. Inr (SnapshotCreated s))),
     (''SnapshotLoaded'', \<lambda>d. bindE (arg_str d ''snapshot_id'') (\<lambda>s. Inr (SnapshotLoaded s)))]"

definition event_from_dict :: "string \<Rightarrow> string \<Rightarrow> pydict \<Rightarrow> py_error + runtime_event" where
  "event_from_dict uid now d =
     bindE (ditem_or as_str ''RuntimeEvent'' d ''event_type'') (\<lambda>event_type.
     bindE (case dget EVENT_REGISTRY event_type of None \<Rightarrow> Inr BaseEvent | Some f \<Rightarrow> f d) (\<lambda>k.
     bindE (ditem_or as_str uid d ''event_id'') (\<lambda>eid.
     bindE (ditem_or as_str ''default-runtime'' d ''runtime_id'') (\<lambda>rid.
     bindE (ditem_or as_opt_str None d ''correlation_id'') (\<lambda>cor.
     bindE (ditem_or as_opt_str None d ''causation_id'') (\<lambda>cau.
     bindE (ditem_or as_str now d ''timestamp'') (\<lambda>ts.
     bindE (ditem_or as_str (event_class k) d ''event_type'') (\<lambda>ty.
     bindE (ditem_or as_int 1 d ''version'') (\<lambda>ver.
     bindE (ditem_or as_dict [] d ''metadata'') (\<lambda>md.
       Inr \<lparr>ev_id = eid, ev_runtime_id = rid, ev_correlation_id = cor, ev_causation_id = cau,
            ev_timestamp = ts, ev_type = ty, ev_version = ver, ev_metadata = md, ev_kind = k\<rparr>))))))))))"

text \<open>Events as the constructors build them, with metadata the JSON encoder accepts.\<close>

definition wf_event :: "runtime_event \<Rightarrow> bool" where
  "wf_event e \<longleftrightarrow> ev_type e = event_class (ev_kind e) \<and> json_ok (PDict (ev_metadata e))"

lemma wf_mk_event [simp]: "wf_event (mk_event uid now k)"
  by (simp add: wf_event_def mk_event_def)

lemma kind_lookup:
  "(case dget EVENT_REGISTRY (event_class k) of None \<Rightarrow> Inr BaseEvent | Some f \<Rightarrow> f (d @ kind_fields k))
     = Inr k"
  if "set (dkeys d) \<subseteq> {''event_id'', ''runtime_id'', ''correlation_id'', ''causation_id'',
        ''timestamp'', ''event_type'', ''version'', ''metadata''}"
proof -
  have "dget d f = None" if "f \<in> {''task_id'', ''title'', ''task_type'', ''error_message'',
      ''retry_count'', ''worker_id'', ''heartbeat_time'', ''delay_seconds'', ''timeout_seconds'',
      ''snapshot_id''}" for f
    using that \<open>set (dkeys d) \<subseteq> _\<close> by (auto simp: dget_None_iff)
  then show ?thesis
    by (cases k) (simp_all add: EVENT_REGISTRY_def argument_def map_add_def)
qed

definition event_base :: "runtime_event \<Rightarrow> pydict" where
  "event_base e =
     [(''event_id'', PStr (ev_id e)),
      (''runtime_id'', PStr (ev_runtime_id e)),
      (''correlation_id'', popt PStr (ev_correlation_id e)),
      (''causation_id'', popt PStr (ev_causation_id e)),
      (''timestamp'', PStr (ev_timestamp e)),
      (''event_type'', PStr (event_class (ev_kind e))),
      (''version'', PInt (ev_version e)),
      (''metadata'', asdict_val (PDict (ev_metadata e)))]"

lemma event_to_dict_split: "event_to_dict e = event_base e @ kind_fields (ev_kind e)"
  by (simp add: event_to_dict_def event_base_def)

lemma dget_event_base:
  "dget (event_base e @ xs) ''event_id'' = Some (PStr (ev_id e))"
  "dget (event_base e @ xs) ''runtime_id'' = Some (PStr (ev_runtime_id e))"
  "dget (event_base e @ xs) ''correlation_id'' = Some (popt PStr (ev_correlation_id e))"
  "dget (event_base e @ xs) ''causation_id'' = Some (popt PStr (ev_causation_id e))"
  "dget (event_base e @ xs) ''timestamp'' = Some (PStr (ev_timestamp e))"
  "dget (event_base e @ xs) ''event_type'' = Some (PStr (event_class (ev_kind e)))"
  "dget (event_base e @ xs) ''version'' = Some (PInt (ev_version e))"
  "dget (event_base e @ xs) ''metadata'' = Some (asdict_val (PDict (ev_metadata e)))"
  by (simp_all add: event_base_def)

lemma json_ok_kind_fields: "\<forall>kv \<in> set (kind_fields k). json_ok (snd kv)"
  by (cases k) auto

lemma json_ok_event_to_dict:
  assumes "wf_event e"
  shows "json_ok (PDict (event_to_dict e))"
proof -
  have "json_ok (asdict_val (PDict (ev_metadata e)))"
    using assms asdict_val_json by (simp add: wf_event_def del: asdict_val.simps json_ok.simps)
  then have "\<forall>kv \<in> set (event_base e). json_ok (snd kv)"
    by (simp add: event_base_def del: asdict_val.simps)
  then show ?thesis
    using json_ok_kind_fields by (simp add: event_to_dict_split ball_Un)
qed

lemma event_dict_roundtrip:
  assumes "wf_event e"
  shows "event_from_dict uid now (event_to_dict e) = Inr e"
proof -
  have md: "asdict_val (PDict (ev_metadata e)) = PDict (ev_metadata e)"
    using assms by (intro asdict_val_json) (simp add: wf_event_def)
  have "(case dget EVENT_REGISTRY (event_class (ev_kind e)) of None \<Rightarrow> Inr BaseEvent
         | Some f \<Rightarrow> f (event_base e @ kind_fields (ev_kind e))) = Inr (ev_kind e)"
    by (rule kind_lookup) (simp add: event_base_def)
  with assms show ?thesis
    by (simp add: event_from_dict_def event_to_dict_split ditem_or_def dget_event_base md wf_event_def
        del: asdict_val.simps map_of_append)
qed

end
