(* ===== verification/Task_Queue.thy ===== *)
theory Task_Queue
  imports Sched_Policy Runtime_Events
begin

text \<open>
  The in-memory task queue: \<^verbatim>\<open>runtime/scheduling/queue/in_memory_queue.py\<close>, with its domain events
  (\<^verbatim>\<open>queue/events.py\<close>) and metrics (\<^verbatim>\<open>queue/metrics.py\<close>). Every method runs under the queue's lock,
  so each is one atomic step.

  The record \<open>world\<close> is what the components share: the task objects, the persistent event log
  (\<open>None\<close> when no store is configured), the clock with its ISO rendering, and the stream of
  \<open>uuid4()\<close> results with the number drawn so far. The clock stands still within one step.
\<close>

section \<open>The shared world\<close>

record world =
  w_task :: tstore
  w_log :: "runtime_event list option"
  w_now :: rat
  w_iso :: "rat \<Rightarrow> string"
  w_uuid :: "nat \<Rightarrow> string"
  w_drawn :: nat

abbreviation now_iso :: "world \<Rightarrow> string" where
  "now_iso w \<equiv> w_iso w (w_now w)"

definition upd_task :: "tref \<Rightarrow> (task \<Rightarrow> task) \<Rightarrow> world \<Rightarrow> world" where
  "upd_task r f w = w\<lparr>w_task := (w_task w)(r := f (w_task w r))\<rparr>"

text \<open>\<open>self._store.event_store.append(K(...))\<close> behind its \<open>if self._store ...\<close> guard.\<close>

definition emit :: "event_kind \<Rightarrow> world \<Rightarrow> world" where
  "emit k w =
     (case w_log w of
        None \<Rightarrow> w
      | Some l \<Rightarrow> w\<lparr>w_log := Some (l @ [mk_event (w_uuid w (w_drawn w)) (now_iso w) k]),
                     w_drawn := Suc (w_drawn w)\<rparr>)"

lemma emit_frame [simp]:
  "w_task (emit k w) = w_task w" "w_now (emit k w) = w_now w" "w_iso (emit k w) = w_iso w"
  "w_uuid (emit k w) = w_uuid w" "(w_log (emit k w) = None) = (w_log w = None)"
  by (auto simp: emit_def split: option.splits)

lemma upd_task_frame [simp]:
  "w_log (upd_task r f w) = w_log w" "w_now (upd_task r f w) = w_now w"
  "w_iso (upd_task r f w) = w_iso w" "w_uuid (upd_task r f w) = w_uuid w"
  "w_drawn (upd_task r f w) = w_drawn w"
  "w_task (upd_task r f w) = (w_task w)(r := f (w_task w r))"
  by (simp_all add: upd_task_def)

lemma log_emit: "w_log w = Some l \<Longrightarrow>
    w_log (emit k w) = Some (l @ [mk_event (w_uuid w (w_drawn w)) (now_iso w) k])"
  by (simp add: emit_def)

section \<open>The queue\<close>

datatype queue_event =
    QTaskQueued string rat
  | QTaskDequeued string rat
  | QTaskCancelled string rat
  | QTaskRejected string rat string

record task_queue =
  q_max_size :: "int option"
  q_policy :: policy
  q_storage :: "(string \<times> tref) list"
  q_enqueue_count :: nat
  q_dequeue_count :: nat
  q_cancel_count :: nat
  q_published :: "queue_event list"

definition queue_init :: "int option \<Rightarrow> policy option \<Rightarrow> task_queue" where
  "queue_init max_size pol =
     \<lparr>q_max_size = (case max_size of None \<Rightarrow> None | Some m \<Rightarrow> if m > 0 then Some m else None),
      q_policy = (case pol of None \<Rightarrow> FIFO fifo_init | Some p \<Rightarrow> p),
      q_storage = [], q_enqueue_count = 0, q_dequeue_count = 0, q_cancel_count = 0,
      q_published = []\<rparr>"

definition publish :: "queue_event \<Rightarrow> task_queue \<Rightarrow> task_queue" where
  "publish e q = q\<lparr>q_published := q_published q @ [e]\<rparr>"

definition queue_full :: "task_queue \<Rightarrow> bool" where
  "queue_full q = (case q_max_size q of None \<Rightarrow> False | Some m \<Rightarrow> m \<le> int (length (q_storage q)))"

text \<open>
  The id is filed in the storage before the policy is asked to order it: when the policy raises,
  the task stays filed without an entry.
\<close>

definition enqueue ::
    "(string \<Rightarrow> rat option) \<Rightarrow> tref \<Rightarrow> task_queue \<Rightarrow> world \<Rightarrow> (py_error + unit) \<times> task_queue \<times> world"
  where
  "enqueue fromiso r q w =
     (let t = w_task w r; i = t_id t in
      if queue_full q
      then (Inl QueueFullError,
            publish (QTaskRejected i (w_now w) ''Queue capacity limit reached'') q, w)
      else
        let q1 = q\<lparr>q_storage := dset i r (q_storage q)\<rparr> in
        case policy_add fromiso t (q_policy q) of
          (Some e, p) \<Rightarrow> (Inl e, q1\<lparr>q_policy := p\<rparr>, w)
        | (None, p) \<Rightarrow>
            (Inr (),
             publish (QTaskQueued i (w_now w))
               (q1\<lparr>q_policy := p, q_enqueue_count := Suc (q_enqueue_count q)\<rparr>),
             emit (TaskQueued i)
               (upd_task r
                 (\<lambda>t. t\<lparr>t_metadata := Some (dset ''queued_at'' (PStr (now_iso w)) (meta_of t))\<rparr>) w)))"

definition dequeue :: "task_queue \<Rightarrow> world \<Rightarrow> (py_error + tref) \<times> task_queue \<times> world" where
  "dequeue q w =
     (case policy_next (q_policy q) of
        (None, p) \<Rightarrow> (Inl QueueEmptyError, q\<lparr>q_policy := p\<rparr>, w)
      | (Some i, p) \<Rightarrow>
          (case dget (q_storage q) i of
             None \<Rightarrow> (Inl QueueEmptyError, q\<lparr>q_policy := p\<rparr>, w)
           | Some r \<Rightarrow>
               (Inr r,
                publish (QTaskDequeued (t_id (w_task w r)) (w_now w))
                  (q\<lparr>q_policy := p, q_storage := dpop i (q_storage q),
                     q_dequeue_count := Suc (q_dequeue_count q)\<rparr>),
                emit (TaskDequeued (t_id (w_task w r))) w)))"

definition peek :: "task_queue \<Rightarrow> tref option \<times> task_queue" where
  "peek q =
     (case policy_peek (q_policy q) of
        (None, p) \<Rightarrow> (None, q\<lparr>q_policy := p\<rparr>)
      | (Some i, p) \<Rightarrow> (dget (q_storage q) i, q\<lparr>q_policy := p\<rparr>))"

definition cancel :: "string \<Rightarrow> task_queue \<Rightarrow> world \<Rightarrow> (py_error + tref) \<times> task_queue \<times> world" where
  "cancel i q w =
     (case dget (q_storage q) i of
        None \<Rightarrow> (Inl (TaskNotFoundError i), q, w)
      | Some r \<Rightarrow>
          (Inr r,
           publish (QTaskCancelled i (w_now w))
             (q\<lparr>q_storage := dpop i (q_storage q), q_policy := policy_remove i (q_policy q),
                q_cancel_count := Suc (q_cancel_count q)\<rparr>),
           emit (TaskCancelled i) w))"

definition lookup :: "string \<Rightarrow> task_queue \<Rightarrow> py_error + tref" where
  "lookup i q = (case dget (q_storage q) i of None \<Rightarrow> Inl (TaskNotFoundError i) | Some r \<Rightarrow> Inr r)"

definition contains :: "string \<Rightarrow> task_queue \<Rightarrow> bool" where
  "contains i q \<longleftrightarrow> dget (q_storage q) i \<noteq> None"

definition queue_size :: "task_queue \<Rightarrow> nat" where
  "queue_size q = length (q_storage q)"

definition is_empty :: "task_queue \<Rightarrow> bool" where
  "is_empty q \<longleftrightarrow> length (q_storage q) = 0"

record queue_metrics =
  qm_size :: nat
  qm_capacity :: "int option"
  qm_utilization :: rat
  qm_enqueue_count :: nat
  qm_dequeue_count :: nat
  qm_cancel_count :: nat
  qm_average_wait_time_ms :: rat

definition queue_get_metrics :: "task_queue \<Rightarrow> queue_metrics" where
  "queue_get_metrics q =
     \<lparr>qm_size = length (q_storage q), qm_capacity = q_max_size q,
      qm_utilization =
        (case q_max_size q of
           None \<Rightarrow> 0
         | Some m \<Rightarrow> if m = 0 then 0 else rat_of_nat (length (q_storage q)) / rat_of_int m),
      qm_enqueue_count = q_enqueue_count q, qm_dequeue_count = q_dequeue_count q,
      qm_cancel_count = q_cancel_count q, qm_average_wait_time_ms = 0\<rparr>"

section \<open>The invariant\<close>

text \<open>
  The storage and the policy agree on the waiting ids, the counters account for every task, and
  the capacity is respected.
\<close>

definition queue_inv :: "task_queue \<Rightarrow> bool" where
  "queue_inv q \<longleftrightarrow>
     wf_dict (q_storage q) \<and> policy_ok (q_policy q) \<and>
     set (policy_pending (q_policy q)) = set (dkeys (q_storage q)) \<and>
     q_enqueue_count q = q_dequeue_count q + q_cancel_count q + length (q_storage q) \<and>
     (\<forall>m. q_max_size q = Some m \<longrightarrow> 0 < m \<and> int (length (q_storage q)) \<le> m)"

lemma queue_invD:
  assumes "queue_inv q"
  shows "wf_dict (q_storage q)" and "policy_ok (q_policy q)"
    and "set (policy_pending (q_policy q)) = set (dkeys (q_storage q))"
  using assms by (simp_all add: queue_inv_def)

lemma queue_inv_init: "policy_ok p \<Longrightarrow> policy_pending p = [] \<Longrightarrow> queue_inv (queue_init m (Some p))"
  by (auto simp: queue_inv_def queue_init_def split: option.splits if_splits)

lemma queue_inv_init_default: "queue_inv (queue_init m None)"
  by (auto simp: queue_inv_def queue_init_def fifo_init_def fifo_ok_def split: option.splits if_splits)

text \<open>The waiting ids are served exactly once each: their number is the size of the storage.\<close>

lemma pending_length:
  assumes "queue_inv q"
  shows "length (policy_pending (q_policy q)) = length (q_storage q)"
proof -
  note d = queue_invD [OF assms]
  have "distinct (policy_pending (q_policy q))" using d(2) by (rule pol.distinct_pending)
  then have "length (policy_pending (q_policy q)) = card (set (dkeys (q_storage q)))"
    using d(3) by (metis distinct_card)
  also have "\<dots> = length (q_storage q)" using d(1) distinct_card [of "dkeys (q_storage q)"] by (simp add: wf_dict_def)
  finally show ?thesis .
qed

text \<open>A task may be enqueued when its id has no entry left in the policy and can be ordered.\<close>

definition enqueueable :: "tref \<Rightarrow> task_queue \<Rightarrow> world \<Rightarrow> bool" where
  "enqueueable r q w \<longleftrightarrow>
     t_id (w_task w r) \<notin> policy_known (q_policy q) \<and> policy_accepts (w_task w r) (q_policy q)"

lemma publish_frame [simp]:
  "q_storage (publish e q) = q_storage q" "q_policy (publish e q) = q_policy q"
  "q_max_size (publish e q) = q_max_size q" "q_enqueue_count (publish e q) = q_enqueue_count q"
  "q_dequeue_count (publish e q) = q_dequeue_count q" "q_cancel_count (publish e q) = q_cancel_count q"
  by (simp_all add: publish_def)

lemma queue_inv_publish [simp]: "queue_inv (publish e q) = queue_inv q"
  by (simp add: queue_inv_def)

lemma enqueue_full: "queue_full q \<Longrightarrow> enqueue fromiso r q w =
    (Inl QueueFullError,
     publish (QTaskRejected (t_id (w_task w r)) (w_now w) ''Queue capacity limit reached'') q, w)"
  by (simp add: enqueue_def)

lemma enqueue_accepted:
  assumes "\<not> queue_full q" and "policy_accepts (w_task w r) (q_policy q)"
  shows "enqueue fromiso r q w =
    (Inr (),
     publish (QTaskQueued (t_id (w_task w r)) (w_now w))
       (q\<lparr>q_storage := dset (t_id (w_task w r)) r (q_storage q),
          q_policy := snd (policy_add fromiso (w_task w r) (q_policy q)),
          q_enqueue_count := Suc (q_enqueue_count q)\<rparr>),
     emit (TaskQueued (t_id (w_task w r)))
       (upd_task r (\<lambda>t. t\<lparr>t_metadata := Some (dset ''queued_at'' (PStr (now_iso w)) (meta_of t))\<rparr>) w))"
  using assms pol.add_accepts [of fromiso "w_task w r" "q_policy q"]
  by (cases "policy_add fromiso (w_task w r) (q_policy q)") (auto simp: enqueue_def Let_def)

lemma enqueue_inv:
  assumes inv: "queue_inv q" and e: "enqueueable r q w" and res: "enqueue fromiso r q w = (res, q', w')"
  shows "queue_inv q'"
proof (cases "queue_full q")
  case True
  with inv res show ?thesis by (auto simp: enqueue_full)
next
  case False
  let ?t = "w_task w r" and ?p = "q_policy q"
  from e have fresh: "t_id ?t \<notin> policy_known ?p" and acc: "policy_accepts ?t ?p"
    by (simp_all add: enqueueable_def)
  note d = queue_invD [OF inv]
  from fresh pol.pending_known [of ?p] d(3) have nk: "t_id ?t \<notin> set (dkeys (q_storage q))" by blast
  have "queue_inv (q\<lparr>q_storage := dset (t_id ?t) r (q_storage q),
      q_policy := snd (policy_add fromiso ?t ?p), q_enqueue_count := Suc (q_enqueue_count q)\<rparr>)"
    using inv False nk pol.add_ok [OF d(2) fresh acc, of fromiso]
      pol.add_set [OF d(2) fresh acc, of fromiso]
    by (auto simp: queue_inv_def queue_full_def update_fresh_append wf_dict_def split: option.splits)
  with res show ?thesis by (auto simp: enqueue_accepted [OF False acc])
qed

lemma dequeue_nonempty:
  assumes inv: "queue_inv q" and pend: "policy_pending (q_policy q) = i # is"
  shows "\<exists>r. dget (q_storage q) i = Some r \<and> dequeue q w =
    (Inr r, publish (QTaskDequeued (t_id (w_task w r)) (w_now w))
       (q\<lparr>q_policy := snd (policy_next (q_policy q)), q_storage := dpop i (q_storage q),
          q_dequeue_count := Suc (q_dequeue_count q)\<rparr>),
     emit (TaskDequeued (t_id (w_task w r))) w)"
proof -
  note d = queue_invD [OF inv]
  from pol.nxt_fst [OF d(2)] pend obtain p where p: "policy_next (q_policy q) = (Some i, p)"
    by (cases "policy_next (q_policy q)") auto
  from pend d(3) have "i \<in> set (dkeys (q_storage q))" by auto
  then obtain r where "dget (q_storage q) i = Some r" using key_dget_Some by metis
  with p show ?thesis by (simp add: dequeue_def)
qed

lemma dequeue_empty:
  assumes "queue_inv q" and "policy_pending (q_policy q) = []"
  shows "dequeue q w = (Inl QueueEmptyError, q\<lparr>q_policy := snd (policy_next (q_policy q))\<rparr>, w)"
  using pol.nxt_fst [OF queue_invD(2) [OF assms(1)]] assms(2)
  by (cases "policy_next (q_policy q)") (auto simp: dequeue_def)

lemma dequeue_inv:
  assumes inv: "queue_inv q" and res: "dequeue q w = (res, q', w')"
  shows "queue_inv q'"
proof (cases "policy_pending (q_policy q)")
  case Nil
  note d = queue_invD [OF inv]
  from dequeue_empty [OF inv Nil] res have "q' = q\<lparr>q_policy := snd (policy_next (q_policy q))\<rparr>" by simp
  with inv pol.nxt_ok [OF d(2)] pol.nxt_pending [OF d(2)] Nil show ?thesis
    by (auto simp: queue_inv_def)
next
  case (Cons i js)
  note d = queue_invD [OF inv]
  have i: "i \<in> set (dkeys (q_storage q))" using Cons d(3) by auto
  have "i \<notin> set js" using pol.distinct_pending [OF d(2)] Cons by simp
  with Cons d(3) have js: "set js = set (dkeys (q_storage q)) - {i}" by auto
  have "queue_inv (q\<lparr>q_policy := snd (policy_next (q_policy q)), q_storage := dpop i (q_storage q),
      q_dequeue_count := Suc (q_dequeue_count q)\<rparr>)"
    using inv pol.nxt_ok [OF d(2)] pol.nxt_pending [OF d(2)] Cons js
      length_delete_present [OF d(1) i] length_pos_if_in_set [OF i]
    by (auto simp: queue_inv_def set_dkeys_delete)
  with dequeue_nonempty [OF inv Cons, of w] res show ?thesis by auto
qed

lemma cancel_inv:
  assumes inv: "queue_inv q" and res: "cancel i q w = (res, q', w')"
  shows "queue_inv q'"
proof (cases "dget (q_storage q) i")
  case None
  with inv res show ?thesis by (simp add: cancel_def)
next
  case (Some r)
  note d = queue_invD [OF inv]
  have i: "i \<in> set (dkeys (q_storage q))" using Some by (rule dget_Some_key)
  have "queue_inv (q\<lparr>q_storage := dpop i (q_storage q), q_policy := policy_remove i (q_policy q),
      q_cancel_count := Suc (q_cancel_count q)\<rparr>)"
    using inv pol.remove_ok [OF d(2)] pol.remove_pending [OF d(2)] d(3)
      length_delete_present [OF d(1) i] length_pos_if_in_set [OF i]
    by (auto simp: queue_inv_def set_dkeys_delete)
  with Some res show ?thesis by (auto simp: cancel_def)
qed

lemma peek_inv: "queue_inv q \<Longrightarrow> queue_inv (snd (peek q))"
  using pol.peek_ok [of "q_policy q"] pol.peek_pending [of "q_policy q"]
  by (cases "policy_peek (q_policy q)") (simp add: peek_def queue_inv_def split: option.splits)

section \<open>Runs\<close>

text \<open>
  One step is one call; clients do not enqueue an id the policy still knows. Calls that raise are
  steps too.
\<close>

inductive queue_step ::
    "(string \<Rightarrow> rat option) \<Rightarrow> task_queue \<times> world \<Rightarrow> task_queue \<times> world \<Rightarrow> bool"
  for fromiso :: "string \<Rightarrow> rat option"
where
  step_enqueue: "enqueueable r q w \<Longrightarrow> enqueue fromiso r q w = (res, q', w') \<Longrightarrow>
    queue_step fromiso (q, w) (q', w')"
| step_dequeue: "dequeue q w = (res, q', w') \<Longrightarrow> queue_step fromiso (q, w) (q', w')"
| step_cancel: "cancel i q w = (res, q', w') \<Longrightarrow> queue_step fromiso (q, w) (q', w')"
| step_peek: "queue_step fromiso (q, w) (snd (peek q), w)"

inductive_cases queue_stepE: "queue_step fromiso (q, w) (q', w')"

inductive queue_run ::
    "(string \<Rightarrow> rat option) \<Rightarrow> task_queue \<times> world \<Rightarrow> task_queue \<times> world \<Rightarrow> bool"
  for fromiso :: "string \<Rightarrow> rat option"
where
  run_start: "queue_run fromiso s s"
| run_step: "queue_run fromiso s s' \<Longrightarrow> queue_step fromiso s' s'' \<Longrightarrow> queue_run fromiso s s''"

lemma queue_step_inv: "queue_step fromiso s s' \<Longrightarrow> queue_inv (fst s) \<Longrightarrow> queue_inv (fst s')"
  by (induction rule: queue_step.induct) (auto intro: enqueue_inv dequeue_inv cancel_inv peek_inv)

lemma queue_run_inv: "queue_run fromiso s s' \<Longrightarrow> queue_inv (fst s) \<Longrightarrow> queue_inv (fst s')"
  by (induction rule: queue_run.induct) (auto intro: queue_step_inv)

section \<open>Refinement of the FIFO queue to a list of ids\<close>

datatype queue_op = OpEnqueue tref | OpDequeue | OpCancel string

definition queue_op ::
    "(string \<Rightarrow> rat option) \<Rightarrow> queue_op \<Rightarrow> task_queue \<Rightarrow> world \<Rightarrow>
     (py_error + tref option) \<times> task_queue \<times> world" where
  "queue_op fromiso c q w =
     (case c of
        OpEnqueue r \<Rightarrow> map_prod (map_sum id (\<lambda>_. None)) id (enqueue fromiso r q w)
      | OpDequeue \<Rightarrow> map_prod (map_sum id Some) id (dequeue q w)
      | OpCancel i \<Rightarrow> map_prod (map_sum id Some) id (cancel i q w))"

text \<open>The specification: a bounded list of the waiting ids.\<close>

fun spec_op :: "int option \<Rightarrow> (tref \<Rightarrow> string) \<Rightarrow> queue_op \<Rightarrow> string list \<Rightarrow>
    (py_error + string option) \<times> string list" where
  "spec_op cap ident (OpEnqueue r) xs =
     (if (case cap of None \<Rightarrow> False | Some m \<Rightarrow> m \<le> int (length xs)) then (Inl QueueFullError, xs)
      else (Inr None, xs @ [ident r]))"
| "spec_op cap ident OpDequeue xs =
     (case xs of [] \<Rightarrow> (Inl QueueEmptyError, []) | x # ys \<Rightarrow> (Inr (Some x), ys))"
| "spec_op cap ident (OpCancel i) xs =
     (if i \<in> set xs then (Inr (Some i), remove1 i xs) else (Inl (TaskNotFoundError i), xs))"

fun queue_ops ::
    "(string \<Rightarrow> rat option) \<Rightarrow> queue_op list \<Rightarrow> task_queue \<Rightarrow> world \<Rightarrow>
     (py_error + tref option) list \<times> task_queue \<times> world" where
  "queue_ops fromiso [] q w = ([], q, w)"
| "queue_ops fromiso (c # cs) q w =
     (case queue_op fromiso c q w of (res, q1, w1) \<Rightarrow>
      case queue_ops fromiso cs q1 w1 of (rs, q2, w2) \<Rightarrow> (res # rs, q2, w2))"

fun spec_ops :: "int option \<Rightarrow> (tref \<Rightarrow> string) \<Rightarrow> queue_op list \<Rightarrow> string list \<Rightarrow>
    (py_error + string option) list \<times> string list" where
  "spec_ops cap ident [] xs = ([], xs)"
| "spec_ops cap ident (c # cs) xs =
     (case spec_op cap ident c xs of (res, ys) \<Rightarrow>
      case spec_ops cap ident cs ys of (rs, zs) \<Rightarrow> (res # rs, zs))"

text \<open>No id is enqueued while it is waiting.\<close>

fun no_dup_ops :: "int option \<Rightarrow> (tref \<Rightarrow> string) \<Rightarrow> queue_op list \<Rightarrow> string list \<Rightarrow> bool" where
  "no_dup_ops cap ident [] xs = True"
| "no_dup_ops cap ident (c # cs) xs =
     ((case c of OpEnqueue r \<Rightarrow> ident r \<notin> set xs | _ \<Rightarrow> True) \<and>
      no_dup_ops cap ident cs (snd (spec_op cap ident c xs)))"

text \<open>A FIFO queue that represents the list \<open>xs\<close>, its keys being the ids of its tasks.\<close>

definition fifo_rep :: "task_queue \<Rightarrow> world \<Rightarrow> string list \<Rightarrow> bool" where
  "fifo_rep q w xs \<longleftrightarrow> queue_inv q \<and> q_policy q = FIFO \<lparr>fifo_order = xs\<rparr> \<and>
     (\<forall>(i, r) \<in> set (q_storage q). t_id (w_task w r) = i)"

lemma fifo_rep_ident: "fifo_rep q w xs \<Longrightarrow> dget (q_storage q) i = Some r \<Longrightarrow> t_id (w_task w r) = i"
  by (auto simp: fifo_rep_def dest: map_of_SomeD)

lemma fifo_rep_length: "fifo_rep q w xs \<Longrightarrow> length (q_storage q) = length xs"
  using pending_length by (force simp: fifo_rep_def)

lemma fifo_rep_keys: "fifo_rep q w xs \<Longrightarrow> set xs = set (dkeys (q_storage q)) \<and> distinct xs"
  using queue_invD(2,3) [of q] by (auto simp: fifo_rep_def fifo_ok_def)

definition res_ids :: "world \<Rightarrow> py_error + tref option \<Rightarrow> py_error + string option" where
  "res_ids w = map_sum id (map_option (\<lambda>r. t_id (w_task w r)))"

abbreviation ident_of :: "world \<Rightarrow> tref \<Rightarrow> string" where
  "ident_of w r \<equiv> t_id (w_task w r)"

lemma fifo_rep_full: "fifo_rep q w xs \<Longrightarrow>
    queue_full q = (case q_max_size q of None \<Rightarrow> False | Some m \<Rightarrow> m \<le> int (length xs))"
  by (simp add: queue_full_def fifo_rep_length split: option.split)

lemma fifo_enqueue_refines:
  assumes rep: "fifo_rep q w xs" and new: "ident_of w r \<notin> set xs"
    and res: "queue_op fromiso (OpEnqueue r) q w = (res, q', w')"
    and spec: "spec_op (q_max_size q) (ident_of w) (OpEnqueue r) xs = (out, ys)"
  shows "fifo_rep q' w' ys" and "res_ids w res = out" and "ident_of w' = ident_of w"
    and "q_max_size q' = q_max_size q"
proof -
  from rep have inv: "queue_inv q" and pol: "q_policy q = FIFO \<lparr>fifo_order = xs\<rparr>"
    and ids: "\<forall>(i, s) \<in> set (q_storage q). ident_of w s = i" by (simp_all add: fifo_rep_def)
  note full = fifo_rep_full [OF rep]
  have e: "enqueueable r q w" using new by (simp add: enqueueable_def pol)
  from res obtain res0 where r0: "enqueue fromiso r q w = (res0, q', w')"
    and r1: "res = map_sum id (\<lambda>_. None) res0"
    by (cases "enqueue fromiso r q w") (auto simp: queue_op_def)
  show "res_ids w res = out"
    using spec r0 r1 full by (cases "queue_full q") (auto simp: enqueue_full enqueue_accepted pol res_ids_def)
  show "fifo_rep q' w' ys"
    using spec r0 ids enqueue_inv [OF inv e r0] full fifo_rep_keys [OF rep] new
    by (cases "queue_full q")
      (auto simp: fifo_rep_def enqueue_full enqueue_accepted pol fifo_add_def update_fresh_append)
  show "ident_of w' = ident_of w" and "q_max_size q' = q_max_size q"
    using r0 by (cases "queue_full q"; auto simp: enqueue_full enqueue_accepted pol)+
qed

lemma fifo_dequeue_refines:
  assumes rep: "fifo_rep q w xs" and res: "queue_op fromiso OpDequeue q w = (res, q', w')"
    and spec: "spec_op (q_max_size q) (ident_of w) OpDequeue xs = (out, ys)"
  shows "fifo_rep q' w' ys" and "res_ids w res = out" and "ident_of w' = ident_of w"
    and "q_max_size q' = q_max_size q"
proof -
  from rep have inv: "queue_inv q" and pol: "q_policy q = FIFO \<lparr>fifo_order = xs\<rparr>"
    and ids: "\<forall>(i, s) \<in> set (q_storage q). ident_of w s = i" by (simp_all add: fifo_rep_def)
  from res obtain res0 where r0: "dequeue q w = (res0, q', w')" and r1: "res = map_sum id Some res0"
    by (cases "dequeue q w") (auto simp: queue_op_def)
  note inv' = dequeue_inv [OF inv r0]
  have "fifo_rep q' w' ys \<and> res_ids w res = out \<and> ident_of w' = ident_of w \<and>
      q_max_size q' = q_max_size q"
  proof (cases xs)
    case Nil
    with pol dequeue_empty [OF inv, of w] spec r0 r1 inv' ids show ?thesis
      by (auto simp: fifo_rep_def res_ids_def fifo_next_def)
  next
    case (Cons x zs)
    with pol have pend: "policy_pending (q_policy q) = x # zs" by simp
    from dequeue_nonempty [OF inv pend, of w] obtain r where
      r: "dget (q_storage q) x = Some r" and
      eq: "q' = publish (QTaskDequeued (ident_of w r) (w_now w))
         (q\<lparr>q_policy := snd (policy_next (q_policy q)), q_storage := dpop x (q_storage q),
            q_dequeue_count := Suc (q_dequeue_count q)\<rparr>)"
        "res0 = Inr r" "w' = emit (TaskDequeued (ident_of w r)) w" using r0 by auto
    with Cons pol spec r1 inv' ids fifo_rep_ident [OF rep r] set_delete_subset [of x "q_storage q"]
    show ?thesis by (auto simp: fifo_rep_def res_ids_def fifo_next_def)
  qed
  then show "fifo_rep q' w' ys" and "res_ids w res = out" and "ident_of w' = ident_of w"
    and "q_max_size q' = q_max_size q" by blast+
qed

lemma fifo_cancel_refines:
  assumes rep: "fifo_rep q w xs" and res: "queue_op fromiso (OpCancel i) q w = (res, q', w')"
    and spec: "spec_op (q_max_size q) (ident_of w) (OpCancel i) xs = (out, ys)"
  shows "fifo_rep q' w' ys" and "res_ids w res = out" and "ident_of w' = ident_of w"
    and "q_max_size q' = q_max_size q"
proof -
  from rep have inv: "queue_inv q" and pol: "q_policy q = FIFO \<lparr>fifo_order = xs\<rparr>"
    and ids: "\<forall>(i, s) \<in> set (q_storage q). ident_of w s = i" by (simp_all add: fifo_rep_def)
  from res obtain res0 where r0: "cancel i q w = (res0, q', w')" and r1: "res = map_sum id Some res0"
    by (cases "cancel i q w") (auto simp: queue_op_def)
  note inv' = cancel_inv [OF inv r0]
  have mem: "i \<in> set xs \<longleftrightarrow> dget (q_storage q) i \<noteq> None"
    using fifo_rep_keys [OF rep] by (simp add: dget_None_iff)
  have "fifo_rep q' w' ys \<and> res_ids w res = out \<and> ident_of w' = ident_of w \<and>
      q_max_size q' = q_max_size q"
  proof (cases "dget (q_storage q) i")
    case None
    with mem spec r0 r1 rep show ?thesis by (auto simp: cancel_def res_ids_def)
  next
    case (Some r)
    have "\<forall>(j, s) \<in> set (dpop i (q_storage q)). ident_of w s = j"
      using ids set_delete_subset by fast
    with Some mem spec r0 r1 inv' pol fifo_rep_ident [OF rep Some]
    show ?thesis by (auto simp: cancel_def res_ids_def fifo_rep_def fifo_remove_def)
  qed
  then show "fifo_rep q' w' ys" and "res_ids w res = out" and "ident_of w' = ident_of w"
    and "q_max_size q' = q_max_size q" by blast+
qed

lemma queue_op_refines:
  assumes rep: "fifo_rep q w xs" and new: "no_dup_ops (q_max_size q) (ident_of w) [c] xs"
    and res: "queue_op fromiso c q w = (res, q', w')"
    and spec: "spec_op (q_max_size q) (ident_of w) c xs = (out, ys)"
  shows "fifo_rep q' w' ys \<and> res_ids w res = out \<and> ident_of w' = ident_of w \<and>
      q_max_size q' = q_max_size q"
proof (cases c)
  case (OpEnqueue r)
  with new have "ident_of w r \<notin> set xs" by simp
  from fifo_enqueue_refines [OF rep this res [unfolded OpEnqueue] spec [unfolded OpEnqueue]]
  show ?thesis by blast
next
  case OpDequeue
  from fifo_dequeue_refines [OF rep res [unfolded OpDequeue] spec [unfolded OpDequeue]]
  show ?thesis by blast
next
  case (OpCancel i)
  from fifo_cancel_refines [OF rep res [unfolded OpCancel] spec [unfolded OpCancel]]
  show ?thesis by blast
qed

lemma queue_ops_refines:
  "fifo_rep q w xs \<Longrightarrow> no_dup_ops (q_max_size q) (ident_of w) cs xs \<Longrightarrow>
   queue_ops fromiso cs q w = (rs, q', w') \<Longrightarrow> spec_ops (q_max_size q) (ident_of w) cs xs = (outs, ys) \<Longrightarrow>
   fifo_rep q' w' ys \<and> map (res_ids w) rs = outs"
proof (induction cs arbitrary: q w xs rs outs)
  case (Cons c cs)
  obtain res q1 w1 where op: "queue_op fromiso c q w = (res, q1, w1)" by (metis prod.exhaust)
  obtain out xs1 where sp: "spec_op (q_max_size q) (ident_of w) c xs = (out, xs1)" by fastforce
  obtain rs1 where ops: "queue_ops fromiso cs q1 w1 = (rs1, q', w')" and rs: "rs = res # rs1"
    using Cons.prems(3) op by (auto split: prod.splits)
  obtain outs1 where sps: "spec_ops (q_max_size q) (ident_of w) cs xs1 = (outs1, ys)"
    and outs: "outs = out # outs1"
    using Cons.prems(4) sp by (auto split: prod.splits)
  have step: "fifo_rep q1 w1 xs1" "res_ids w res = out" "ident_of w1 = ident_of w"
    "q_max_size q1 = q_max_size q"
    using queue_op_refines [OF Cons.prems(1) _ op sp] Cons.prems(2) by simp_all
  have "res_ids w1 = res_ids w" using step(3) by (simp add: res_ids_def fun_eq_iff)
  with Cons.IH [OF step(1) _ ops] sps step Cons.prems(2) sp rs outs show ?case by simp
qed simp

end
