(* ===== verification/Queue_Properties.thy ===== *)
theory Queue_Properties
  imports Task_Queue
begin

text \<open>
  What the task queue and its policies promise: the state invariant over every run, the service
  order of each policy, the refinement of the FIFO queue to a bounded list, and the two ways
  in which storage and order can come apart.
\<close>

section \<open>Sample tasks\<close>

definition sample_task :: "string \<Rightarrow> int \<Rightarrow> task" where
  "sample_task i prio =
     \<lparr>t_id = i, t_title = ''job'', t_type = Type_PYTHON,
      t_metadata = Some [(''priority'', PInt prio)], t_status = Task_PENDING, t_created_at = 0\<rparr>"

definition sample_world :: world where
  "sample_world =
     \<lparr>w_task = (\<lambda>r. if r = 0 then sample_task ''A'' 5 else if r = 1 then sample_task ''B'' 1
                     else sample_task ''A'' 3),
      w_log = Some [], w_now = 100, w_iso = (\<lambda>t. ''2026-01-01T00:00:00''), w_uuid = (\<lambda>n. ''uid''),
      w_drawn = 0\<rparr>"

lemmas sample_simps = sample_world_def sample_task_def meta_of_def

lemma policy_ok_empty [simp]: "policy_ok (FIFO fifo_init)" "policy_pending (FIFO fifo_init) = []"
  "policy_ok (PRIORITY lazy_init)" "policy_pending (PRIORITY lazy_init) = []"
  by (simp_all add: fifo_init_def fifo_ok_def lazy_ok_def lazy_pending_def lazy_init_def hq.ordered_def)

section \<open>Properties\<close>





text \<open>
  C29. Tasks with distinct ids and numeric priorities come out of \<^verbatim>\<open>PriorityPolicy\<close> by descending
  priority, in order of arrival among equal priorities.
\<close>

theorem priority_policy_order:
  assumes "distinct (map t_id ts)" and "\<forall>t \<in> set ts. priority_of t \<noteq> None"
  shows "drain priority_next (length ts) (fold (\<lambda>t p. snd (priority_add t p)) ts lazy_init) =
    map t_id (sort_key (\<lambda>t. - the (priority_of t)) ts)"
proof -
  let ?key = "\<lambda>t. - the (priority_of t)"
  have "fold (\<lambda>t p. snd (priority_add t p)) ts p = lazy_add_all ?key ts p" for p
    using assms(2) by (induction ts arbitrary: p) (auto simp: priority_add_eq lazy_add_all_def)
  moreover have "lazy_ok (lazy_add_all ?key ts lazy_init)"
    using assms(1) by (intro lazy_add_all_ok lazy_ok_init) (simp_all add: lazy_known_def lazy_init_def)
  ultimately show ?thesis
    by (simp add: prio.drain_pending lazy_add_all_pending)
qed

theorem priority_policy_order_witness:
  "drain priority_next 3
     (fold (\<lambda>t p. snd (priority_add t p))
       [sample_task ''A'' 1, sample_task ''B'' 5, sample_task ''C'' 1] lazy_init) =
   [''B'', ''A'', ''C'']"
  using priority_policy_order [of "[sample_task ''A'' 1, sample_task ''B'' 5, sample_task ''C'' 1]"]
  by (simp add: sample_simps priority_of_def eval_nat_numeral del: drain.simps)

text \<open>
  Tasks with distinct ids come out of \<^verbatim>\<open>DeadlinePolicy\<close> by earliest deadline, those without a
  readable deadline last, in order of arrival among equal deadlines.
\<close>

theorem deadline_policy_order:
  assumes "distinct (map t_id ts)"
  shows "drain deadline_next (length ts) (fold (deadline_add fromiso) ts lazy_init) =
    map t_id (sort_key (deadline_of fromiso) ts)"
proof -
  have "fold (deadline_add fromiso) ts p = lazy_add_all (deadline_of fromiso) ts p" for p
    by (induction ts arbitrary: p) (auto simp: deadline_add_eq lazy_add_all_def)
  moreover have "lazy_ok (lazy_add_all (deadline_of fromiso) ts lazy_init)"
    using assms by (intro lazy_add_all_ok lazy_ok_init) (simp_all add: lazy_known_def lazy_init_def)
  ultimately show ?thesis
    by (simp add: dead.drain_pending lazy_add_all_pending)
qed

theorem deadline_policy_order_witness:
  "drain deadline_next 2
     (fold (deadline_add (\<lambda>_. None))
       [sample_task ''A'' 1, (sample_task ''B'' 5)\<lparr>t_metadata := Some [(''deadline'', PInt 7)]\<rparr>]
       lazy_init) = [''B'', ''A'']"
  using deadline_policy_order
    [of "[sample_task ''A'' 1, (sample_task ''B'' 5)\<lparr>t_metadata := Some [(''deadline'', PInt 7)]\<rparr>]"
      "\<lambda>_. None"]
  by (simp add: sample_simps deadline_of_def eval_nat_numeral del: drain.simps)



section \<open>Two live entries\<close>

text \<open>A heap in which the lazily removed ids have one entry each serves its live entries in order.\<close>

definition lazy_sound :: "'k::linorder lazy_policy \<Rightarrow> bool" where
  "lazy_sound p \<longleftrightarrow> is_heap (lp_heap p) \<and>
     (\<forall>i \<in> lp_removed p. length (filter (\<lambda>e. entry_id e = i) (entries p)) \<le> 1)"

lemma lazy_next_sound:
  "lazy_sound p \<Longrightarrow> lazy_sound (snd (lazy_next p)) \<and> fst (lazy_next p) = opt_hd (lazy_pending p) \<and>
     lazy_pending (snd (lazy_next p)) = tl (lazy_pending p)"
proof (induction p rule: measure_induct_rule [where f = "\<lambda>p. length (lp_heap p)"])
  case (less p)
  from less.prems have heap: "is_heap (lp_heap p)" by (simp add: lazy_sound_def)
  show ?case
  proof (cases "heappop (lp_heap p)")
    case None
    with less.prems hq.ordered_pop_None [OF None] show ?thesis
      by (simp add: lazy_next.simps [of p] lazy_pending_def)
  next
    case (Some q)
    obtain k n i h' where q: "q = ((k, n, i), h')" by (metis prod.exhaust)
    note pop = Some [unfolded q]
    have eq: "entries p = (k, n, i) # hq.ordered h'" by (rule hq.ordered_pop_Some [OF heap pop])
    have heap': "is_heap h'" by (rule hq.invar_pop [OF heap pop])
    have sound: "lazy_sound (p\<lparr>lp_heap := h', lp_removed := R\<rparr>)" if R: "R \<subseteq> lp_removed p" for R
    proof -
      have "length (filter (\<lambda>e. entry_id e = j) (hq.ordered h')) \<le> 1" if "j \<in> R" for j
      proof -
        have "length (filter (\<lambda>e. entry_id e = j) (entries p)) \<le> 1"
          using less.prems R that by (auto simp: lazy_sound_def)
        then show ?thesis by (simp add: eq split: if_splits)
      qed
      with heap' show ?thesis by (simp add: lazy_sound_def)
    qed
    show ?thesis
    proof (cases "i \<in> lp_removed p")
      case True
      let ?p = "p\<lparr>lp_heap := h', lp_removed := lp_removed p - {i}\<rparr>"
      from less.prems True have "filter (\<lambda>e. entry_id e = i) (hq.ordered h') = []"
        by (auto simp: lazy_sound_def eq)
      then have only: "\<forall>e \<in> set (hq.ordered h'). entry_id e \<noteq> i" by (simp add: filter_empty_conv)
      have "lazy_sound ?p" by (rule sound) auto
      moreover have "lazy_pending ?p = lazy_pending p"
        using True only by (auto simp: lazy_pending_def eq intro!: arg_cong [where f = "map entry_id"] filter_cong)
      ultimately show ?thesis
        using less.IH [of ?p] heappop_length [OF pop] True by (simp add: lazy_next.simps [of p] Some q)
    next
      case False
      moreover have "lazy_sound (p\<lparr>lp_heap := h'\<rparr>)" using sound [of "lp_removed p"] by simp
      ultimately show ?thesis
        by (simp add: lazy_next.simps [of p] Some q lazy_pending_def eq)
    qed
  qed
qed

lemma one_occurrence: "distinct (map f xs) \<Longrightarrow> length (filter (\<lambda>e. f e = x) xs) \<le> 1"
proof (induction xs)
  case (Cons a xs)
  moreover have "filter (\<lambda>e. f e = x) xs = []" if "f a = x"
  proof -
    have "f e \<noteq> x" if "e \<in> set xs" for e
      using Cons.prems \<open>f a = x\<close> imageI [OF that, of f] by auto
    then show ?thesis by (simp add: filter_empty_conv)
  qed
  ultimately show ?case by simp
qed simp

text \<open>Removing the first waiting id and adding it again before the next one.\<close>

lemma lazy_readd:
  assumes ok: "lazy_ok p" and pend: "lazy_pending p = i # j # js" and old: "(k, c, j) \<in> set (lp_heap p)" and new: "k' < k"
  shows "lazy_sound (lazy_add k' i (lazy_remove i p))"
    and "lazy_pending (lazy_add k' i (lazy_remove i p)) = i # i # j # js"
proof -
  let ?e = "(k', lp_counter p, i)" and ?p = "lazy_add k' i (lazy_remove i p)"
  let ?live = "\<lambda>e. entry_id e \<notin> lp_removed p"
  have "i \<in> set (lazy_pending p)" by (simp add: pend)
  then have live: "i \<notin> lp_removed p" by (auto simp: lazy_pending_def)
  have ents: "entries ?p = insort ?e (entries p)" by (simp add: entries_lazy_add lazy_remove_def)
  have rem: "lp_removed ?p = lp_removed p"
    using live by (auto simp: lazy_add_def lazy_push_def lazy_discard_def lazy_remove_def)
  have dist: "distinct (map entry_id (entries p))" by (rule distinct_entries [OF ok])
  have srt: "sorted (entries p)" by (simp add: hq.ordered_def)
  obtain d e es where es: "filter ?live (entries p) = d # e # es" "entry_id d = i" "entry_id e = j" "map entry_id es = js"
    using pend by (auto simp: lazy_pending_def map_eq_Cons_conv)
  then have "e \<in> set (filter ?live (entries p))" by simp
  then have "e \<in> set (entries p)" by simp
  moreover have "(k, c, j) \<in> set (entries p)" using old by (simp add: set_entries)
  ultimately have "e = (k, c, j)" using dist es(3) by (auto simp: distinct_map inj_on_def)
  with new have less: "?e \<le> e" by (auto simp: less_eq_prod_def)
  have "filter ?live (insort ?e (entries p)) = insort ?e (filter ?live (entries p))"
    using filter_insort [of "\<lambda>x. x" "entries p" ?live ?e] srt live by simp
  with es less have "filter ?live (entries ?p) = ?e # d # e # es \<or> filter ?live (entries ?p) = d # ?e # e # es"
    by (simp add: ents)
  with es show "lazy_pending ?p = i # i # j # js" unfolding lazy_pending_def rem by auto
  have "length (filter (\<lambda>e. entry_id e = x) (entries ?p)) \<le> 1" if "x \<in> lp_removed p" for x
  proof -
    from that live have "x \<noteq> i" by blast
    then have "mset (filter (\<lambda>e. entry_id e = x) (entries ?p)) = mset (filter (\<lambda>e. entry_id e = x) (entries p))"
      by (simp add: ents)
    then have "length (filter (\<lambda>e. entry_id e = x) (entries ?p)) = length (filter (\<lambda>e. entry_id e = x) (entries p))"
      by (rule mset_eq_length)
    also have "\<dots> \<le> 1" by (rule one_occurrence [OF dist])
    finally show ?thesis .
  qed
  moreover have "is_heap (lp_heap ?p)"
    using ok by (simp add: lazy_ok_def lazy_add_def lazy_push_def lazy_discard_def lazy_remove_def is_heap_heappush)
  ultimately show "lazy_sound ?p" unfolding lazy_sound_def rem by simp
qed

text \<open>
  C40. Cancelling a task under \<^verbatim>\<open>PriorityPolicy\<close> leaves its heap entry behind, and enqueueing the same
  id again clears the removed mark, so both entries are live. In every consistent queue: if the task
  that is served first is cancelled and its id is enqueued again with a priority above that of the next
  waiting task, then the id is served once and the following \<open>dequeue\<close> raises \<open>QueueEmptyError\<close> although
  the next task is waiting and first in the policy's order.
\<close>

theorem priority_reenqueue_breaks_dequeue:
  assumes "queue_inv q" and "q_policy q = PRIORITY p" and "policy_pending (q_policy q) = i # j # js"
    and "(k, c, j) \<in> set (lp_heap p)" and "t_id (w_task w r) = i"
    and "priority_of (w_task w r) = Some prio" and "- prio < k"
    and "cancel i q w = (res1, q1, w1)" and "enqueue fromiso r q1 w1 = (res2, q2, w2)"
    and "dequeue q2 w2 = (res3, q3, w3)" and "dequeue q3 w3 = (res4, q4, w4)"
  shows "res2 = Inr () \<and> res3 = Inr r \<and> res4 = Inl QueueEmptyError \<and>
    contains j q4 \<and> policy_pending (q_policy q4) = j # js"
proof -
  note d = queue_invD [OF assms(1)]
  have ok: "lazy_ok p" and pend: "lazy_pending p = i # j # js" using d(2) assms(2,3) by simp_all
  have wait: "i \<in> set (dkeys (q_storage q))" "j \<in> set (dkeys (q_storage q))" using d(3) assms(3) by auto
  have "j \<noteq> i" using pol.distinct_pending [OF d(2)] assms(3) by auto
  from wait obtain r0 rj where r0: "dget (q_storage q) i = Some r0" "dget (q_storage q) j = Some rj"
    using key_dget_Some by metis
  let ?p = "lazy_add (- prio) i (lazy_remove i p)"
  have q1: "q_policy q1 = PRIORITY (lazy_remove i p)" "q_storage q1 = dpop i (q_storage q)"
    "q_max_size q1 = q_max_size q" "w_task w1 = w_task w"
    using assms(2,8) r0(1) by (auto simp: cancel_def priority_remove_def)
  have "\<not> queue_full q1"
    using assms(1) q1 length_delete_present [OF d(1) wait(1)] length_pos_if_in_set [OF wait(1)]
    by (auto simp: queue_full_def queue_inv_def split: option.splits)
  moreover have "policy_accepts (w_task w1 r) (q_policy q1)" using q1 assms(6) by simp
  ultimately have q2: "res2 = Inr ()" "q_policy q2 = PRIORITY ?p" "q_storage q2 = dset i r (dpop i (q_storage q))"
    using assms(5,6,9) q1 by (auto simp: enqueue_accepted priority_add_eq)
  note two = lazy_readd [OF ok pend assms(4,7)]
  obtain p3 where p3: "lazy_next ?p = (Some i, p3)" "lazy_sound p3" "lazy_pending p3 = i # j # js"
    using lazy_next_sound [OF two(1)] two(2) by (cases "lazy_next ?p") auto
  obtain p4 where p4: "lazy_next p3 = (Some i, p4)" "lazy_pending p4 = j # js"
    using lazy_next_sound [OF p3(2)] p3(3) by (cases "lazy_next p3") auto
  have q3: "res3 = Inr r" "q_policy q3 = PRIORITY p3" "q_storage q3 = dpop i (dset i r (dpop i (q_storage q)))"
    using assms(10) q2 p3 by (auto simp: dequeue_def priority_next_def dget_update)
  have "res4 = Inl QueueEmptyError" "q_policy q4 = PRIORITY p4" "q_storage q4 = q_storage q3"
    using assms(11) q3 p4 by (auto simp: dequeue_def priority_next_def dget_delete)
  with q2 q3 p4 r0 \<open>j \<noteq> i\<close> show ?thesis by (simp add: contains_def dget_delete dget_update)
qed

theorem priority_reenqueue_breaks_dequeue_witness:
  "let q0 = queue_init None (Some (PRIORITY lazy_init));
       (_, q1, w1) = enqueue (\<lambda>_. None) 0 q0 sample_world;
       (_, q2, w2) = enqueue (\<lambda>_. None) 1 q1 w1;
       (_, q3, w3) = cancel ''A'' q2 w2;
       (_, q4, w4) = enqueue (\<lambda>_. None) 2 q3 w3;
       (first, q5, w5) = dequeue q4 w4;
       (second, q6, w6) = dequeue q5 w5
   in first = Inr 2 \<and> second = Inl QueueEmptyError \<and> contains ''B'' q6"
proof -
  let ?q0 = "queue_init None (Some (PRIORITY lazy_init))"
  obtain x1 q1 w1 where e1: "enqueue (\<lambda>_. None) 0 ?q0 sample_world = (x1, q1, w1)" by (metis prod.exhaust)
  obtain x2 q2 w2 where e2: "enqueue (\<lambda>_. None) (Suc 0) q1 w1 = (x2, q2, w2)" by (metis prod.exhaust)
  obtain x3 q3 w3 where e3: "cancel ''A'' q2 w2 = (x3, q3, w3)" by (metis prod.exhaust)
  obtain x4 q4 w4 where e4: "enqueue (\<lambda>_. None) 2 q3 w3 = (x4, q4, w4)" by (metis prod.exhaust)
  obtain x5 q5 w5 where e5: "dequeue q4 w4 = (x5, q5, w5)" by (metis prod.exhaust)
  obtain x6 q6 w6 where e6: "dequeue q5 w5 = (x6, q6, w6)" by (metis prod.exhaust)
  let ?h = "[(-5, 0, ''A''), (-1, 1, ''B'')]"
  let ?p = "\<lparr>lp_heap = ?h, lp_removed = {}, lp_counter = 2\<rparr> :: rat lazy_policy"
  note push = lazy_push_def lazy_discard_def lazy_init_def heappush_def siftdown.simps par_def less_prod_def
  have p1: "q_policy q1 = PRIORITY (\<lparr>lp_heap = [(-5, 0, ''A'')], lp_removed = {}, lp_counter = 1\<rparr>)"
    "queue_full q1 = False" "w_task w1 (Suc 0) = sample_task ''B'' 1" "w_task w1 2 = sample_task ''A'' 3"
    using e1 by (auto simp: enqueue_def queue_init_def queue_full_def emit_def upd_task_def sample_simps Let_def
        priority_add_def priority_of_def push)
  have p2: "q_policy q2 = PRIORITY ?p" "w_task w2 2 = sample_task ''A'' 3"
    using e2 p1 by (auto simp: enqueue_def upd_task_def sample_task_def meta_of_def Let_def priority_add_def
        priority_of_def push)
  have inv: "queue_inv ?q0" by (rule queue_inv_init [OF policy_ok_empty(3,4)])
  have "enqueueable 0 ?q0 sample_world"
    by (simp add: enqueueable_def queue_init_def lazy_known_def lazy_init_def sample_simps priority_of_def)
  from enqueue_inv [OF inv this e1] have inv1: "queue_inv q1" .
  have "enqueueable (Suc 0) q1 w1"
    by (simp add: enqueueable_def p1 lazy_known_def sample_task_def priority_of_def meta_of_def)
  from enqueue_inv [OF inv1 this e2] have inv2: "queue_inv q2" .
  have "policy_pending (q_policy q2) = ''A'' # ''B'' # []"
    by (simp add: p2 lazy_pending_def hq.ordered_def less_eq_prod_def)
  from priority_reenqueue_breaks_dequeue [OF inv2 p2(1) this _ _ _ _ e3 e4 e5 e6, of "-1" 1 3]
  show ?thesis by (simp add: e1 e2 e3 e4 e5 e6 p2 sample_task_def priority_of_def meta_of_def)
qed

end
