(* ===== verification/Locking.thy ===== *)
theory Locking
  imports Prelude
begin

text \<open>
  Locks and the methods they guard: \<^verbatim>\<open>runtime/scheduling/queue/sync.py\<close>, and what \<open>with self._lock:\<close>
  around the body of a method gives to the threads that call it.

  Threads are numbers. A body is run statement by statement on a local state (where it is and what it
  holds in local variables) and on the object; between two statements of one thread any other thread
  may act. The relation \<open>locked_step\<close> holds for any lock and any bodies. The locale \<open>mutex\<close> states what
  \<^verbatim>\<open>LockInterface\<close> promises, \<open>locked_object\<close> that a body run alone computes a function; then every
  interleaving computes what some sequence of whole calls computes, in the order in which the calls
  entered the lock, no thread is stuck for ever, and there are only finitely many steps.
\<close>

section \<open>The lock\<close>

text \<open>
  \<^verbatim>\<open>LockInterface\<close>: entering blocks (\<open>None\<close>) or changes the lock, leaving may raise. The operations get
  the thread that calls them.
\<close>

record 'k lock_interface =
  lock_enter :: "nat \<Rightarrow> 'k \<Rightarrow> 'k option"
  lock_exit :: "nat \<Rightarrow> 'k \<Rightarrow> py_error + 'k"

text \<open>
  \<^verbatim>\<open>LocalThreadingLock\<close> passes both on to a \<^verbatim>\<open>threading.Lock\<close>: acquiring it blocks while anyone holds it,
  its holder included, and releasing it raises when nobody does.
\<close>

record local_threading_lock =
  ltl_lock :: "nat option"

definition local_lock_init :: local_threading_lock where
  "local_lock_init = \<lparr>ltl_lock = None\<rparr>"

definition local_lock_enter :: "nat \<Rightarrow> local_threading_lock \<Rightarrow> local_threading_lock option" where
  "local_lock_enter t k =
     (case ltl_lock k of None \<Rightarrow> Some (k\<lparr>ltl_lock := Some t\<rparr>) | Some _ \<Rightarrow> None)"

definition local_lock_exit :: "nat \<Rightarrow> local_threading_lock \<Rightarrow> py_error + local_threading_lock" where
  "local_lock_exit t k =
     (case ltl_lock k of
        None \<Rightarrow> Inl (RuntimeError ''release unlocked lock'')
      | Some _ \<Rightarrow> Inr (k\<lparr>ltl_lock := None\<rparr>))"

definition local_lock :: "local_threading_lock lock_interface" where
  "local_lock = \<lparr>lock_enter = local_lock_enter, lock_exit = local_lock_exit\<rparr>"

section \<open>Threads that call the methods of an object\<close>

text \<open>The bodies of the methods: where a call starts, one statement, and the result it ended with.\<close>

record ('c, 'l, 's, 'r) method_bodies =
  mb_start :: "'c \<Rightarrow> 'l"
  mb_step :: "'l \<Rightarrow> 's \<Rightarrow> 'l \<times> 's"
  mb_result :: "'l \<Rightarrow> 'r option"

datatype ('c, 'l) point = Outside | At_Lock 'c | Within 'l

record ('k, 's, 'c, 'l) lock_system =
  ls_lock :: 'k
  ls_object :: 's
  ls_calls :: "nat \<Rightarrow> 'c list"
  ls_point :: "nat \<Rightarrow> ('c, 'l) point"

definition lock_system_init ::
    "'k \<Rightarrow> 's \<Rightarrow> (nat \<Rightarrow> 'c list) \<Rightarrow> ('k, 's, 'c, 'l) lock_system" where
  "lock_system_init k ob progs =
     \<lparr>ls_lock = k, ls_object = ob, ls_calls = progs, ls_point = (\<lambda>_. Outside)\<rparr>"

abbreviation move :: "nat \<Rightarrow> ('c, 'l) point \<Rightarrow> ('k, 's, 'c, 'l) lock_system \<Rightarrow> ('k, 's, 'c, 'l) lock_system"
  where "move t p s \<equiv> s\<lparr>ls_point := (ls_point s)(t := p)\<rparr>"

datatype ('c, 'r) lock_event = Arrives nat 'c | Enters nat 'c | Acts nat | Returns nat 'r

text \<open>
  A thread calls a method and arrives at the lock, enters it when the lock lets it, runs its statements
  and leaves with a result, a raised exception included: \<open>__exit__\<close> runs in either case.
\<close>

inductive locked_step ::
    "'k lock_interface \<Rightarrow> ('c, 'l, 's, 'r) method_bodies \<Rightarrow> ('k, 's, 'c, 'l) lock_system \<Rightarrow>
     ('c, 'r) lock_event \<Rightarrow> ('k, 's, 'c, 'l) lock_system \<Rightarrow> bool"
  for L :: "'k lock_interface" and B :: "('c, 'l, 's, 'r) method_bodies" where
  arrive: "ls_point s t = Outside \<Longrightarrow> ls_calls s t = c # cs \<Longrightarrow>
    locked_step L B s (Arrives t c) (move t (At_Lock c) (s\<lparr>ls_calls := (ls_calls s)(t := cs)\<rparr>))"
| enter: "ls_point s t = At_Lock c \<Longrightarrow> lock_enter L t (ls_lock s) = Some k \<Longrightarrow>
    locked_step L B s (Enters t c) (move t (Within (mb_start B c)) (s\<lparr>ls_lock := k\<rparr>))"
| act: "ls_point s t = Within l \<Longrightarrow> mb_result B l = None \<Longrightarrow> mb_step B l (ls_object s) = (l', ob) \<Longrightarrow>
    locked_step L B s (Acts t) (move t (Within l') (s\<lparr>ls_object := ob\<rparr>))"
| return: "ls_point s t = Within l \<Longrightarrow> mb_result B l = Some r \<Longrightarrow> lock_exit L t (ls_lock s) = Inr k \<Longrightarrow>
    locked_step L B s (Returns t r) (move t Outside (s\<lparr>ls_lock := k\<rparr>))"

inductive locked_run ::
    "'k lock_interface \<Rightarrow> ('c, 'l, 's, 'r) method_bodies \<Rightarrow> ('k, 's, 'c, 'l) lock_system \<Rightarrow>
     ('c, 'r) lock_event list \<Rightarrow> ('k, 's, 'c, 'l) lock_system \<Rightarrow> bool"
  for L :: "'k lock_interface" and B :: "('c, 'l, 's, 'r) method_bodies"
    and s0 :: "('k, 's, 'c, 'l) lock_system" where
  nothing: "locked_run L B s0 [] s0"
| more: "locked_run L B s0 tr s \<Longrightarrow> locked_step L B s e s' \<Longrightarrow> locked_run L B s0 (tr @ [e]) s'"

lemma locked_run_append:
  "locked_run L B s1 tr2 s2 \<Longrightarrow> locked_run L B s0 tr1 s1 \<Longrightarrow> locked_run L B s0 (tr1 @ tr2) s2"
  by (induction rule: locked_run.induct) (auto intro: locked_run.more simp flip: append_assoc)

text \<open>The one step thread \<open>t\<close> can make, if it is not blocked, and the run of a given schedule.\<close>

definition thread_move ::
    "'k lock_interface \<Rightarrow> ('c, 'l, 's, 'r) method_bodies \<Rightarrow> nat \<Rightarrow> ('k, 's, 'c, 'l) lock_system \<Rightarrow>
     (('c, 'r) lock_event \<times> ('k, 's, 'c, 'l) lock_system) option" where
  "thread_move L B t s =
     (case ls_point s t of
        Outside \<Rightarrow>
          (case ls_calls s t of
             [] \<Rightarrow> None
           | c # cs \<Rightarrow> Some (Arrives t c, move t (At_Lock c) (s\<lparr>ls_calls := (ls_calls s)(t := cs)\<rparr>)))
      | At_Lock c \<Rightarrow>
          (case lock_enter L t (ls_lock s) of
             None \<Rightarrow> None
           | Some k \<Rightarrow> Some (Enters t c, move t (Within (mb_start B c)) (s\<lparr>ls_lock := k\<rparr>)))
      | Within l \<Rightarrow>
          (case mb_result B l of
             None \<Rightarrow>
               (case mb_step B l (ls_object s) of
                  (l', ob) \<Rightarrow> Some (Acts t, move t (Within l') (s\<lparr>ls_object := ob\<rparr>)))
           | Some r \<Rightarrow>
               (case lock_exit L t (ls_lock s) of
                  Inl _ \<Rightarrow> None
                | Inr k \<Rightarrow> Some (Returns t r, move t Outside (s\<lparr>ls_lock := k\<rparr>)))))"

lemma thread_move_step:
  assumes "thread_move L B t s = Some (e, s')"
  shows "locked_step L B s e s'"
proof (cases "ls_point s t")
  case Outside
  with assms locked_step.arrive [OF Outside, of _ _ L B] show ?thesis
    by (auto simp: thread_move_def split: list.splits)
next
  case (At_Lock c)
  with assms locked_step.enter [OF At_Lock, of L _ B] show ?thesis
    by (auto simp: thread_move_def split: option.splits)
next
  case (Within l)
  with assms locked_step.act [OF Within, of B _ _ L] locked_step.return [OF Within, of B _ L] show ?thesis
    by (auto simp: thread_move_def split: option.splits prod.splits sum.splits)
qed

lemma step_thread_move:
  assumes "locked_step L B s e s'"
  shows "\<exists>t. thread_move L B t s = Some (e, s')"
  using assms
proof cases
  case (arrive t c cs)
  then show ?thesis by (intro exI [of _ t]) (simp add: thread_move_def)
next
  case (enter t c k)
  then show ?thesis by (intro exI [of _ t]) (simp add: thread_move_def)
next
  case (act t l l' ob)
  then show ?thesis by (intro exI [of _ t]) (simp add: thread_move_def)
next
  case (return t l r k)
  then show ?thesis by (intro exI [of _ t]) (simp add: thread_move_def)
qed

fun follow ::
    "'k lock_interface \<Rightarrow> ('c, 'l, 's, 'r) method_bodies \<Rightarrow> nat list \<Rightarrow> ('k, 's, 'c, 'l) lock_system \<Rightarrow>
     (('c, 'r) lock_event list \<times> ('k, 's, 'c, 'l) lock_system) option" where
  "follow L B [] s = Some ([], s)"
| "follow L B (t # ts) s =
     (case thread_move L B t s of
        None \<Rightarrow> None
      | Some (e, s1) \<Rightarrow> map_option (apfst ((#) e)) (follow L B ts s1))"

lemma follow_run: "follow L B ts s = Some (tr, s') \<Longrightarrow> locked_run L B s tr s'"
proof (induction ts arbitrary: s tr)
  case (Cons t ts)
  then obtain e s1 tr1 where m: "thread_move L B t s = Some (e, s1)" and f: "follow L B ts s1 = Some (tr1, s')"
    and tr: "tr = e # tr1" by (auto split: option.splits prod.splits)
  have "locked_run L B s [] s" by (rule locked_run.nothing)
  from locked_run.more [OF this thread_move_step [OF m]] have "locked_run L B s [e] s1" by simp
  from locked_run_append [OF Cons.IH [OF f] this] tr show ?case by simp
qed (auto intro: locked_run.nothing)

text \<open>The calls of a run in the order they entered the lock, and the results in the order of return.\<close>

fun entered :: "('c, 'r) lock_event list \<Rightarrow> (nat \<times> 'c) list" where
  "entered [] = []"
| "entered (Enters t c # tr) = (t, c) # entered tr"
| "entered (_ # tr) = entered tr"

fun returned :: "('c, 'r) lock_event list \<Rightarrow> (nat \<times> 'r) list" where
  "returned [] = []"
| "returned (Returns t r # tr) = (t, r) # returned tr"
| "returned (_ # tr) = returned tr"

fun arrived :: "('c, 'r) lock_event list \<Rightarrow> (nat \<times> 'c) list" where
  "arrived [] = []"
| "arrived (Arrives t c # tr) = (t, c) # arrived tr"
| "arrived (_ # tr) = arrived tr"

fun acted :: "('c, 'r) lock_event list \<Rightarrow> nat" where
  "acted [] = 0"
| "acted (Acts t # tr) = Suc (acted tr)"
| "acted (_ # tr) = acted tr"

lemma acted_append [simp]: "acted (tr @ tr') = acted tr + acted tr'"
  by (induction tr rule: acted.induct) simp_all

lemma entered_append [simp]: "entered (tr @ tr') = entered tr @ entered tr'"
  by (induction tr rule: entered.induct) simp_all

lemma returned_append [simp]: "returned (tr @ tr') = returned tr @ returned tr'"
  by (induction tr rule: returned.induct) simp_all

lemma arrived_append [simp]: "arrived (tr @ tr') = arrived tr @ arrived tr'"
  by (induction tr rule: arrived.induct) simp_all

lemma length_events:
  "length tr = length (arrived tr) + length (entered tr) + acted tr + length (returned tr)"
proof (induction tr)
  case (Cons e tr)
  then show ?case by (cases e) simp_all
qed simp

text \<open>What one thread did.\<close>

definition of_thread :: "nat \<Rightarrow> (nat \<times> 'a) list \<Rightarrow> 'a list" where
  "of_thread t xs = map snd (filter (\<lambda>x. fst x = t) xs)"

lemma of_thread_simps [simp]:
  "of_thread t [] = []" "of_thread t (x # xs) = (if fst x = t then [snd x] else []) @ of_thread t xs"
  "of_thread t (xs @ ys) = of_thread t xs @ of_thread t ys"
  by (simp_all add: of_thread_def)

lemma count_of_thread: "count (mset xs) (t, x) = count (mset (of_thread t xs)) x"
  by (induction xs) auto

lemma length_of_thread: "length (of_thread t xs) = length (filter (\<lambda>u. u = t) (map fst xs))"
  by (induction xs) auto

lemma sum_of_threads:
  fixes f :: "'a \<Rightarrow> nat"
  shows "finite T \<Longrightarrow> \<forall>t. t \<notin> T \<longrightarrow> of_thread t xs = [] \<Longrightarrow>
    (\<Sum>x\<leftarrow>xs. f (snd x)) = (\<Sum>t\<in>T. \<Sum>c\<leftarrow>of_thread t xs. f c)"
proof (induction xs)
  case (Cons x xs)
  from Cons.prems(2) have out: "t \<notin> T \<Longrightarrow> fst x \<noteq> t \<and> of_thread t xs = []" for t
    by (auto split: if_splits)
  then have x: "fst x \<in> T" by blast
  have "(\<Sum>t\<in>T. \<Sum>c\<leftarrow>of_thread t (x # xs). f c) =
      (\<Sum>t\<in>T. (if fst x = t then f (snd x) else 0) + (\<Sum>c\<leftarrow>of_thread t xs. f c))"
    by (intro sum.cong) auto
  also have "\<dots> = f (snd x) + (\<Sum>x\<leftarrow>xs. f (snd x))"
    using Cons.IH Cons.prems(1) out x by (simp add: sum.distrib)
  finally show ?case by simp
qed simp

lemma sum_list_submset:
  fixes f :: "'a \<Rightarrow> nat"
  assumes "mset xs \<subseteq># mset ys"
  shows "(\<Sum>x\<leftarrow>xs. f x) \<le> (\<Sum>x\<leftarrow>ys. f x)"
proof -
  obtain zs where "mset ys = mset xs + mset zs"
    using assms by (metis ex_mset mset_subset_eq_exists_conv)
  then have "mset ys = mset (xs @ zs)" by simp
  then have "(\<Sum>x\<leftarrow>ys. f x) = (\<Sum>x\<leftarrow>xs @ zs. f x)"
    by (metis mset_map sum_mset_sum_list)
  then show ?thesis by simp
qed

text \<open>The calls a thread has still to make, with the one it has arrived with and not yet entered.\<close>

fun at_lock :: "('c, 'l) point \<Rightarrow> 'c list" where
  "at_lock (At_Lock c) = [c]"
| "at_lock _ = []"

lemma calls_in_program_order:
  assumes "locked_run L B s0 tr s" and "\<forall>t. ls_point s0 t = Outside"
  shows "of_thread t (entered tr) @ at_lock (ls_point s t) = of_thread t (arrived tr) \<and>
    of_thread t (arrived tr) @ ls_calls s t = ls_calls s0 t"
  using assms
proof (induction arbitrary: t rule: locked_run.induct)
  case (more tr s e s')
  note IH = more.IH [OF more.prems, of t]
  from more.hyps(2) IH show ?case by cases auto
qed simp

lemma entered_sub_arrived:
  assumes "locked_run L B s0 tr s" and "\<forall>t. ls_point s0 t = Outside"
  shows "mset (entered tr) \<subseteq># mset (arrived tr)"
proof -
  have "count (mset (entered tr)) (t, c) \<le> count (mset (arrived tr)) (t, c)" for t c
    using calls_in_program_order [OF assms, of t] unfolding count_of_thread
    by (metis (no_types) count_union le_add1 mset_append)
  then show ?thesis by (auto simp: subseteq_mset_def)
qed

text \<open>A body run alone, as long as it has no result and for at most \<open>n\<close> statements.\<close>

fun body_run :: "('c, 'l, 's, 'r) method_bodies \<Rightarrow> nat \<Rightarrow> 'l \<times> 's \<Rightarrow> 'l \<times> 's" where
  "body_run B 0 x = x"
| "body_run B (Suc n) x =
     (if mb_result B (fst x) = None then body_run B n (mb_step B (fst x) (snd x)) else x)"

lemma body_run_final: "mb_result B (fst x) \<noteq> None \<Longrightarrow> body_run B n x = x"
  by (cases n) auto

lemma body_run_add: "body_run B (m + n) x = body_run B n (body_run B m x)"
  by (induction m arbitrary: x) (auto simp: body_run_final)

lemma body_run_snoc:
  "mb_result B (fst (body_run B n x)) = None \<Longrightarrow>
   body_run B (Suc n) x = mb_step B (fst (body_run B n x)) (snd (body_run B n x))"
  using body_run_add [of B n 1 x] by simp

text \<open>Whole calls in sequence.\<close>

fun call_seq :: "('c \<Rightarrow> 's \<Rightarrow> 'r \<times> 's) \<Rightarrow> 'c list \<Rightarrow> 's \<Rightarrow> 'r list \<times> 's" where
  "call_seq f [] ob = ([], ob)"
| "call_seq f (c # cs) ob =
     (case f c ob of (r, ob1) \<Rightarrow> case call_seq f cs ob1 of (rs, ob2) \<Rightarrow> (r # rs, ob2))"

lemma call_seq_snoc:
  "call_seq f cs ob = (rs, ob1) \<Longrightarrow> f c ob1 = (r, ob2) \<Longrightarrow> call_seq f (cs @ [c]) ob = (rs @ [r], ob2)"
  by (induction cs arbitrary: ob rs) (auto split: prod.splits)

section \<open>The contract of a lock\<close>

locale mutex =
  fixes L :: "'k lock_interface" and holder :: "'k \<Rightarrow> nat option"
  assumes enter_free: "lock_enter L t k = Some k' \<Longrightarrow> holder k = None \<and> holder k' = Some t"
    and free_enters: "holder k = None \<Longrightarrow> lock_enter L t k \<noteq> None"
    and exit_free: "holder k = Some t \<Longrightarrow> \<exists>k'. lock_exit L t k = Inr k' \<and> holder k' = None"
begin

text \<open>A thread is between entering and leaving exactly while it holds the lock.\<close>

definition guarded :: "('k, 's, 'c, 'l) lock_system \<Rightarrow> bool" where
  "guarded s \<longleftrightarrow> (\<forall>t. (\<exists>l. ls_point s t = Within l) \<longleftrightarrow> holder (ls_lock s) = Some t)"

lemma guardedD:
  assumes "guarded s"
  shows "ls_point s t = Within l \<Longrightarrow> holder (ls_lock s) = Some t"
    and "ls_point s t = Outside \<Longrightarrow> holder (ls_lock s) \<noteq> Some t"
    and "ls_point s t = At_Lock c \<Longrightarrow> holder (ls_lock s) \<noteq> Some t"
  using assms unfolding guarded_def by (metis point.distinct)+

lemma guarded_step: "locked_step L B s e s' \<Longrightarrow> guarded s \<Longrightarrow> guarded s'"
proof (induction rule: locked_step.induct)
  case (return s t l r k)
  from return.prems return.hyps(1) have h: "holder (ls_lock s) = Some t" by (auto simp: guarded_def)
  with exit_free [of "ls_lock s" t] return.hyps(3) have "holder k = None" by auto
  moreover have "ls_point s u \<noteq> Within m" if "u \<noteq> t" for u m
    using return.prems h that by (auto simp: guarded_def)
  ultimately show ?case by (auto simp: guarded_def)
next
  case (enter s t c k)
  from enter_free [OF enter.hyps(2)] have h: "holder (ls_lock s) = None" "holder k = Some t" by auto
  with enter.prems show ?case by (auto simp: guarded_def)
next
  case (arrive s t c cs)
  from guardedD(2) [OF arrive.prems arrive.hyps(1)] arrive.prems show ?case by (auto simp: guarded_def)
next
  case (act s t l l' ob)
  from guardedD(1) [OF act.prems act.hyps(1)] act.prems show ?case by (auto simp: guarded_def)
qed

lemma guarded_run: "locked_run L B s0 tr s \<Longrightarrow> guarded s0 \<Longrightarrow> guarded s"
  by (induction rule: locked_run.induct) (auto intro: guarded_step)

lemma guarded_init: "holder k = None \<Longrightarrow> guarded (lock_system_init k ob progs)"
  by (simp add: guarded_def lock_system_init_def)

lemma mutual_exclusion:
  "guarded s \<Longrightarrow> ls_point s t = Within l \<Longrightarrow> ls_point s u = Within m \<Longrightarrow> t = u"
  using guardedD(1) [of s t l] guardedD(1) [of s u m] by simp

text \<open>Whatever thread holds the lock can go on, and when none does whoever has arrived can enter.\<close>

lemma some_thread_moves:
  assumes "guarded s" and "ls_calls s t \<noteq> [] \<or> ls_point s t \<noteq> Outside"
  shows "\<exists>e s'. locked_step L B s e s'"
proof (cases "holder (ls_lock s)")
  case (Some u)
  with assms(1) obtain l where l: "ls_point s u = Within l" by (auto simp: guarded_def)
  obtain l' ob where m: "mb_step B l (ls_object s) = (l', ob)" by fastforce
  obtain k where k: "lock_exit L u (ls_lock s) = Inr k" using exit_free [OF Some] by auto
  show ?thesis
    using locked_step.act [OF l _ m, where L = L] locked_step.return [OF l _ k, where B = B]
    by (cases "mb_result B l") blast+
next
  case None
  with assms(1) have out: "ls_point s t \<noteq> Within l" for l by (auto simp: guarded_def)
  from free_enters [OF None, of t] obtain k where k: "lock_enter L t (ls_lock s) = Some k" by auto
  show ?thesis
  proof (cases "ls_point s t")
    case Outside
    with assms(2) obtain c cs where "ls_calls s t = c # cs" by (cases "ls_calls s t") auto
    from locked_step.arrive [OF Outside this] show ?thesis by blast
  next
    case (At_Lock c)
    from locked_step.enter [OF this k] show ?thesis by blast
  qed (use out in blast)
qed

end

interpretation ll: mutex local_lock ltl_lock
  by unfold_locales
    (auto simp: local_lock_def local_lock_enter_def local_lock_exit_def split: option.splits)

section \<open>Objects whose methods hold the lock\<close>

text \<open>A body, run alone, ends after at most \<open>bound\<close> statements of its call with what \<open>whole\<close> computes.\<close>

locale locked_object = mutex L holder
  for L :: "'k lock_interface" and holder :: "'k \<Rightarrow> nat option" +
  fixes B :: "('c, 'l, 's, 'r) method_bodies" and whole :: "'c \<Rightarrow> 's \<Rightarrow> 'r \<times> 's"
    and bound :: "'c \<Rightarrow> nat"
  assumes body_whole:
    "mb_result B (fst (body_run B (bound c) (mb_start B c, ob))) = Some (fst (whole c ob)) \<and>
     snd (body_run B (bound c) (mb_start B c, ob)) = snd (whole c ob)"
begin

lemma body_ends:
  assumes "body_run B n (mb_start B c, ob) = (l, ob')" and "mb_result B l = Some r"
  shows "whole c ob = (r, ob')"
proof -
  have "body_run B (n + bound c) (mb_start B c, ob) = (l, ob')"
    using assms by (simp add: body_run_add body_run_final)
  moreover have "body_run B (n + bound c) (mb_start B c, ob) = body_run B (bound c) (mb_start B c, ob)"
    using body_whole [of c ob] body_run_add [of B "bound c" n "(mb_start B c, ob)"]
    by (simp add: add.commute body_run_final)
  ultimately show ?thesis using assms(2) body_whole [of c ob] by (metis fst_conv option.inject prod.collapse snd_conv)
qed

lemma body_bound:
  assumes "mb_result B (fst (body_run B n (mb_start B c, ob))) = None"
  shows "n < bound c"
proof (rule ccontr)
  assume "\<not> n < bound c"
  then obtain m where "n = bound c + m" by (metis le_Suc_ex not_less)
  with assms body_whole [of c ob] show False by (simp add: body_run_add body_run_final)
qed

text \<open>
  While the lock is free the calls that have entered are the ones that have returned, and the object is
  what these calls, made one after the other, make of it. While a thread holds the lock the others
  have returned in this way, and its own body has run for some statements from there.
\<close>

abbreviation cost :: "(nat \<times> 'c) list \<Rightarrow> nat" where
  "cost cs \<equiv> sum_list (map (\<lambda>x. bound (snd x)) cs)"

definition sequential :: "'s \<Rightarrow> ('c, 'r) lock_event list \<Rightarrow> ('k, 's, 'c, 'l) lock_system \<Rightarrow> bool" where
  "sequential ob0 tr s \<longleftrightarrow> (\<exists>cs ob1.
     call_seq whole (map snd cs) ob0 = (map snd (returned tr), ob1) \<and>
     map fst cs = map fst (returned tr) \<and>
     (case holder (ls_lock s) of
        None \<Rightarrow> entered tr = cs \<and> ls_object s = ob1 \<and> acted tr \<le> cost cs
      | Some t \<Rightarrow> \<exists>c l n. entered tr = cs @ [(t, c)] \<and> ls_point s t = Within l \<and>
          body_run B n (mb_start B c, ob1) = (l, ls_object s) \<and>
          n \<le> bound c \<and> acted tr \<le> cost cs + n))"

lemma sequential_step:
  assumes "locked_step L B s e s'" and "guarded s" and "sequential ob0 tr s"
  shows "sequential ob0 (tr @ [e]) s'"
proof -
  from assms(3) obtain cs ob1 where
    cs: "call_seq whole (map snd cs) ob0 = (map snd (returned tr), ob1)"
      "map fst cs = map fst (returned tr)" and
    now: "case holder (ls_lock s) of
        None \<Rightarrow> entered tr = cs \<and> ls_object s = ob1 \<and> acted tr \<le> cost cs
      | Some t \<Rightarrow> \<exists>c l n. entered tr = cs @ [(t, c)] \<and> ls_point s t = Within l \<and>
          body_run B n (mb_start B c, ob1) = (l, ls_object s) \<and>
          n \<le> bound c \<and> acted tr \<le> cost cs + n"
    by (auto simp: sequential_def)
  from assms(1) show ?thesis
  proof cases
    case (arrive t c cs')
    from guardedD(2) [OF assms(2) arrive(3)] cs now arrive show ?thesis
      unfolding sequential_def by (intro exI [of _ cs] exI [of _ ob1]) (auto split: option.splits)
  next
    case (enter t c k)
    from enter_free [OF enter(4)] have "holder (ls_lock s) = None" "holder k = Some t" by auto
    with cs now enter show ?thesis
      unfolding sequential_def
      by (intro exI [of _ cs] exI [of _ ob1]) (auto intro!: exI [of _ "0 :: nat"])
  next
    case (act t l l' ob)
    with assms(2) have h: "holder (ls_lock s) = Some t" by (auto simp: guarded_def)
    with now act obtain c n where n: "entered tr = cs @ [(t, c)]"
      "body_run B n (mb_start B c, ob1) = (l, ls_object s)" "acted tr \<le> cost cs + n" by auto
    have "n < bound c" using n(2) act(4) by (intro body_bound [of n c ob1]) simp
    moreover have "body_run B (Suc n) (mb_start B c, ob1) = (l', ob)"
      using n(2) act(4,5) by (subst body_run_snoc) simp_all
    ultimately show ?thesis
      unfolding sequential_def using cs h n act
      by (intro exI [of _ cs] exI [of _ ob1]) (auto intro!: exI [of _ "Suc n"] simp del: body_run.simps)
  next
    case (return t l r k)
    with assms(2) have h: "holder (ls_lock s) = Some t" by (auto simp: guarded_def)
    with now return obtain c n where n: "entered tr = cs @ [(t, c)]"
      "body_run B n (mb_start B c, ob1) = (l, ls_object s)"
      "acted tr \<le> cost cs + n" "n \<le> bound c" by auto
    from body_ends [OF n(2) return(4)] have "whole c ob1 = (r, ls_object s)" .
    from call_seq_snoc [OF cs(1) this] cs(2) n(1,3,4) exit_free [OF h] return show ?thesis
      unfolding sequential_def
      by (intro exI [of _ "cs @ [(t, c)]"] exI [of _ "ls_object s"]) auto
  qed
qed

lemma sequential_run:
  assumes "locked_run L B (lock_system_init k0 ob0 progs) tr s" and "holder k0 = None"
  shows "guarded s \<and> sequential ob0 tr s"
  using assms(1)
proof (induction rule: locked_run.induct)
  case nothing
  have "sequential ob0 [] (lock_system_init k0 ob0 progs)"
    using assms(2) by (simp add: sequential_def lock_system_init_def)
  with assms(2) show ?case by (simp add: guarded_init)
qed (blast intro: sequential_step guarded_step)

theorem linearizable:
  assumes "locked_run L B (lock_system_init k0 ob0 progs) tr s" and "holder k0 = None"
    and "holder (ls_lock s) = None"
  shows "call_seq whole (map snd (entered tr)) ob0 = (map snd (returned tr), ls_object s)"
    and "map fst (entered tr) = map fst (returned tr)"
  using sequential_run [OF assms(1,2)] assms(3) by (auto simp: sequential_def)

text \<open>Every run is finite, and one that cannot go on has returned from every call of every program.\<close>

lemma run_bounded:
  assumes run: "locked_run L B (lock_system_init k0 ob0 progs) tr s" and free: "holder k0 = None"
    and T: "finite T" "\<forall>t. t \<notin> T \<longrightarrow> progs t = []"
  shows "length tr \<le> (\<Sum>t\<in>T. \<Sum>c\<leftarrow>progs t. bound c + 3)"
proof -
  have prog: "of_thread t (arrived tr) @ ls_calls s t = progs t" for t
    using calls_in_program_order [OF run, of t] by (simp add: lock_system_init_def)
  then have "t \<notin> T \<Longrightarrow> of_thread t (arrived tr) = []" for t
    using T(2) by (metis Nil_is_append_conv)
  then have "(\<Sum>x\<leftarrow>arrived tr. bound (snd x) + 3) = (\<Sum>t\<in>T. \<Sum>c\<leftarrow>of_thread t (arrived tr). bound c + 3)"
    using sum_of_threads [OF T(1), of "arrived tr" "\<lambda>c. bound c + 3"] by blast
  also have "\<dots> \<le> (\<Sum>t\<in>T. \<Sum>c\<leftarrow>progs t. bound c + 3)"
    by (intro sum_mono) (simp flip: prog)
  finally have arr: "(\<Sum>x\<leftarrow>arrived tr. bound (snd x) + 3) \<le> (\<Sum>t\<in>T. \<Sum>c\<leftarrow>progs t. bound c + 3)" .
  have sub: "mset (entered tr) \<subseteq># mset (arrived tr)"
    using entered_sub_arrived [OF run] by (simp add: lock_system_init_def)
  have "length (returned tr) \<le> length (entered tr)"
    using sequential_run [OF run free] unfolding sequential_def
    by (auto split: option.splits dest!: arg_cong [of _ _ length])
  moreover have "acted tr \<le> cost (entered tr)"
    using sequential_run [OF run free] unfolding sequential_def by (auto split: option.splits)
  moreover have "cost (entered tr) \<le> cost (arrived tr)" by (rule sum_list_submset [OF sub])
  moreover have "length (entered tr) \<le> length (arrived tr)" using size_mset_mono [OF sub] by simp
  ultimately have "length tr \<le> (\<Sum>x\<leftarrow>arrived tr. bound (snd x) + 3)"
    using length_events [of tr] by (simp add: sum_list_addf sum_list_triv)
  from this arr show ?thesis by (rule order_trans)
qed

lemma stopped_run_is_complete:
  assumes run: "locked_run L B (lock_system_init k0 ob0 progs) tr s" and free: "holder k0 = None"
    and stop: "\<nexists>e s'. locked_step L B s e s'"
  shows "holder (ls_lock s) = None" and "of_thread t (entered tr) = progs t"
    and "length (of_thread t (returned tr)) = length (progs t)"
proof -
  have g: "guarded s" using sequential_run [OF run free] by blast
  with some_thread_moves stop have quiet: "ls_calls s u = [] \<and> ls_point s u = Outside" for u by blast
  then show h: "holder (ls_lock s) = None" using guardedD(2) [OF g] by (metis option.exhaust)
  show e: "of_thread t (entered tr) = progs t"
    using calls_in_program_order [OF run, of t] quiet by (simp add: lock_system_init_def)
  have "length (of_thread t (entered tr)) = length (of_thread t (returned tr))"
    using linearizable(2) [OF run free h]
    by (simp add: length_of_thread)
  with e show "length (of_thread t (returned tr)) = length (progs t)" by simp
qed

text \<open>So every run can be continued to one that has answered all calls.\<close>

lemma completes:
  assumes run: "locked_run L B (lock_system_init k0 ob0 progs) tr s" and free: "holder k0 = None"
    and T: "finite T" "\<forall>t. t \<notin> T \<longrightarrow> progs t = []"
  shows "\<exists>tr' s'. locked_run L B s tr' s' \<and> holder (ls_lock s') = None \<and>
    (\<forall>t. of_thread t (entered (tr @ tr')) = progs t \<and> length (of_thread t (returned (tr @ tr'))) = length (progs t))"
proof -
  let ?N = "\<Sum>t\<in>T. \<Sum>c\<leftarrow>progs t. bound c + 3"
  let ?P = "\<lambda>n. \<exists>tr' s'. locked_run L B s tr' s' \<and> length tr' = n"
  have zero: "?P 0" by (auto intro: locked_run.nothing)
  have le: "\<forall>n. ?P n \<longrightarrow> n \<le> ?N"
  proof (intro allI impI)
    fix n
    assume "?P n"
    then obtain tr' s' where "locked_run L B s tr' s'" "length tr' = n" by blast
    with run_bounded [OF locked_run_append [OF this(1) run] free T] show "n \<le> ?N" by simp
  qed
  from Nat.ex_has_greatest_nat [of ?P 0 ?N, OF zero le] obtain n where "?P n \<and> (\<forall>m. ?P m \<longrightarrow> m \<le> n)"
    by (rule exE)
  then have n: "?P n" "\<forall>m. ?P m \<longrightarrow> m \<le> n" by simp_all
  from n(1) obtain tr' s' where tr': "locked_run L B s tr' s'" "length tr' = n" by blast
  have "\<nexists>e s''. locked_step L B s' e s''"
  proof
    assume "\<exists>e s''. locked_step L B s' e s''"
    then obtain e s'' where "locked_run L B s (tr' @ [e]) s''" using tr'(1) locked_run.more by blast
    with n(2) tr'(2) show False by (metis Suc_n_not_le_n length_append_singleton)
  qed
  from stopped_run_is_complete [OF locked_run_append [OF tr'(1) run] free this] tr'(1) show ?thesis by blast
qed

end

end
