(* ===== verification/Queue_Locking.thy ===== *)
theory Queue_Locking
  imports Locking Queue_Properties
begin

text \<open>
  The task queue as threads use it: the methods of \<^verbatim>\<open>BaseTaskQueue\<close> (\<^verbatim>\<open>scheduling/queue/base_queue.py\<close>)
  and their bodies in \<^verbatim>\<open>InMemoryTaskQueue\<close>, statement by statement, under the lock of
  \<^verbatim>\<open>scheduling/queue/sync.py\<close>. The theory \<open>Task_Queue\<close> takes every method as one step; here this is
  proved of the statements: the bodies, run alone, compute the functions of \<open>Task_Queue\<close>, and under the
  lock no thread sees anything else. Only the threads' calls of the queue change the queue and
  the world.
\<close>

section \<open>The methods\<close>

datatype queue_call =
    Call_enqueue tref
  | Call_dequeue
  | Call_peek
  | Call_cancel string
  | Call_lookup string
  | Call_contains string
  | Call_get_metrics
  | Call_size
  | Call_is_empty

datatype queue_result =
    Raises py_error
  | Gives_None
  | Gives_Task tref
  | Gives_Bool bool
  | Gives_Int nat
  | Gives_Metrics queue_metrics

fun maybe_task :: "tref option \<Rightarrow> queue_result" where
  "maybe_task None = Gives_None"
| "maybe_task (Some r) = Gives_Task r"

fun task_or_raise :: "py_error + tref \<Rightarrow> queue_result" where
  "task_or_raise (Inl e) = Raises e"
| "task_or_raise (Inr r) = Gives_Task r"

text \<open>Each method as one step, by the functions of \<open>Task_Queue\<close>.\<close>

fun queue_method ::
    "(string \<Rightarrow> rat option) \<Rightarrow> queue_call \<Rightarrow> task_queue \<times> world \<Rightarrow> queue_result \<times> task_queue \<times> world"
  where
  "queue_method fromiso (Call_enqueue r) (q, w) =
     (case enqueue fromiso r q w of
        (Inl e, q', w') \<Rightarrow> (Raises e, q', w') | (Inr _, q', w') \<Rightarrow> (Gives_None, q', w'))"
| "queue_method fromiso Call_dequeue (q, w) = (case dequeue q w of (res, q', w') \<Rightarrow> (task_or_raise res, q', w'))"
| "queue_method fromiso Call_peek (q, w) = (case peek q of (res, q') \<Rightarrow> (maybe_task res, q', w))"
| "queue_method fromiso (Call_cancel i) (q, w) = (case cancel i q w of (res, q', w') \<Rightarrow> (task_or_raise res, q', w'))"
| "queue_method fromiso (Call_lookup i) (q, w) = (task_or_raise (lookup i q), q, w)"
| "queue_method fromiso (Call_contains i) (q, w) = (Gives_Bool (contains i q), q, w)"
| "queue_method fromiso Call_get_metrics (q, w) = (Gives_Metrics (queue_get_metrics q), q, w)"
| "queue_method fromiso Call_size (q, w) = (Gives_Int (queue_size q), q, w)"
| "queue_method fromiso Call_is_empty (q, w) = (Gives_Bool (is_empty q), q, w)"

section \<open>The bodies\<close>

text \<open>The statement a call has come to, with its local variables.\<close>

datatype enqueue_pc =
    Enq_check | Enq_reject | Enq_store | Enq_order | Enq_count | Enq_metadata | Enq_stamp | Enq_publish | Enq_log

datatype dequeue_pc =
    Deq_next | Deq_check "string option" | Deq_pop string | Deq_count tref | Deq_publish tref | Deq_log tref

datatype cancel_pc =
    Can_check | Can_pop | Can_remove tref | Can_count tref | Can_publish tref | Can_log tref

datatype read_pc =
    Peek_next | Peek_get "string option" | Look_up string | Contains_id string
  | Read_metrics | Read_size | Read_empty

datatype queue_pc =
    In_enqueue tref enqueue_pc
  | In_dequeue dequeue_pc
  | In_cancel string cancel_pc
  | In_read read_pc
  | Finished queue_result

fun queue_start :: "queue_call \<Rightarrow> queue_pc" where
  "queue_start (Call_enqueue r) = In_enqueue r Enq_check"
| "queue_start Call_dequeue = In_dequeue Deq_next"
| "queue_start Call_peek = In_read Peek_next"
| "queue_start (Call_cancel i) = In_cancel i Can_check"
| "queue_start (Call_lookup i) = In_read (Look_up i)"
| "queue_start (Call_contains i) = In_read (Contains_id i)"
| "queue_start Call_get_metrics = In_read Read_metrics"
| "queue_start Call_size = In_read Read_size"
| "queue_start Call_is_empty = In_read Read_empty"

text \<open>
  A statement goes on to another one (\<open>Inl\<close>) or ends the method with a result (\<open>Inr\<close>). In \<open>enqueue\<close> the
  policy may raise, after the task has been stored.
\<close>

fun enqueue_statement ::
    "(string \<Rightarrow> rat option) \<Rightarrow> tref \<Rightarrow> enqueue_pc \<Rightarrow> task_queue \<Rightarrow> world \<Rightarrow>
     (enqueue_pc + queue_result) \<times> task_queue \<times> world" where
  "enqueue_statement fromiso r Enq_check q w = (Inl (if queue_full q then Enq_reject else Enq_store), q, w)"
| "enqueue_statement fromiso r Enq_reject q w =
     (Inr (Raises QueueFullError),
      publish (QTaskRejected (t_id (w_task w r)) (w_now w) ''Queue capacity limit reached'') q, w)"
| "enqueue_statement fromiso r Enq_store q w =
     (Inl Enq_order, q\<lparr>q_storage := dset (t_id (w_task w r)) r (q_storage q)\<rparr>, w)"
| "enqueue_statement fromiso r Enq_order q w =
     (case policy_add fromiso (w_task w r) (q_policy q) of
        (Some e, p) \<Rightarrow> (Inr (Raises e), q\<lparr>q_policy := p\<rparr>, w)
      | (None, p) \<Rightarrow> (Inl Enq_count, q\<lparr>q_policy := p\<rparr>, w))"
| "enqueue_statement fromiso r Enq_count q w =
     (Inl Enq_metadata, q\<lparr>q_enqueue_count := Suc (q_enqueue_count q)\<rparr>, w)"
| "enqueue_statement fromiso r Enq_metadata q w =
     (Inl Enq_stamp, q,
      if meta_of (w_task w r) = [] then upd_task r (\<lambda>t. t\<lparr>t_metadata := Some []\<rparr>) w else w)"
| "enqueue_statement fromiso r Enq_stamp q w =
     (Inl Enq_publish, q,
      upd_task r (\<lambda>t. t\<lparr>t_metadata := Some (dset ''queued_at'' (PStr (now_iso w)) (meta_of t))\<rparr>) w)"
| "enqueue_statement fromiso r Enq_publish q w =
     (Inl Enq_log, publish (QTaskQueued (t_id (w_task w r)) (w_now w)) q, w)"
| "enqueue_statement fromiso r Enq_log q w = (Inr Gives_None, q, emit (TaskQueued (t_id (w_task w r))) w)"

fun dequeue_statement ::
    "dequeue_pc \<Rightarrow> task_queue \<Rightarrow> world \<Rightarrow> (dequeue_pc + queue_result) \<times> task_queue \<times> world" where
  "dequeue_statement Deq_next q w =
     (case policy_next (q_policy q) of (next_id, p) \<Rightarrow> (Inl (Deq_check next_id), q\<lparr>q_policy := p\<rparr>, w))"
| "dequeue_statement (Deq_check None) q w = (Inr (Raises QueueEmptyError), q, w)"
| "dequeue_statement (Deq_check (Some i)) q w =
     (if contains i q then Inl (Deq_pop i) else Inr (Raises QueueEmptyError), q, w)"
| "dequeue_statement (Deq_pop i) q w =
     (case dget (q_storage q) i of
        None \<Rightarrow> (Inr (Raises (KeyError i)), q, w)
      | Some r \<Rightarrow> (Inl (Deq_count r), q\<lparr>q_storage := dpop i (q_storage q)\<rparr>, w))"
| "dequeue_statement (Deq_count r) q w =
     (Inl (Deq_publish r), q\<lparr>q_dequeue_count := Suc (q_dequeue_count q)\<rparr>, w)"
| "dequeue_statement (Deq_publish r) q w =
     (Inl (Deq_log r), publish (QTaskDequeued (t_id (w_task w r)) (w_now w)) q, w)"
| "dequeue_statement (Deq_log r) q w = (Inr (Gives_Task r), q, emit (TaskDequeued (t_id (w_task w r))) w)"

fun cancel_statement ::
    "string \<Rightarrow> cancel_pc \<Rightarrow> task_queue \<Rightarrow> world \<Rightarrow> (cancel_pc + queue_result) \<times> task_queue \<times> world" where
  "cancel_statement i Can_check q w =
     (if contains i q then Inl Can_pop else Inr (Raises (TaskNotFoundError i)), q, w)"
| "cancel_statement i Can_pop q w =
     (case dget (q_storage q) i of
        None \<Rightarrow> (Inr (Raises (KeyError i)), q, w)
      | Some r \<Rightarrow> (Inl (Can_remove r), q\<lparr>q_storage := dpop i (q_storage q)\<rparr>, w))"
| "cancel_statement i (Can_remove r) q w =
     (Inl (Can_count r), q\<lparr>q_policy := policy_remove i (q_policy q)\<rparr>, w)"
| "cancel_statement i (Can_count r) q w =
     (Inl (Can_publish r), q\<lparr>q_cancel_count := Suc (q_cancel_count q)\<rparr>, w)"
| "cancel_statement i (Can_publish r) q w = (Inl (Can_log r), publish (QTaskCancelled i (w_now w)) q, w)"
| "cancel_statement i (Can_log r) q w = (Inr (Gives_Task r), q, emit (TaskCancelled i) w)"

text \<open>The methods that only read; \<open>peek\<close> may let a policy drop entries it no longer needs.\<close>

fun read_statement :: "read_pc \<Rightarrow> task_queue \<Rightarrow> (read_pc + queue_result) \<times> task_queue" where
  "read_statement Peek_next q =
     (case policy_peek (q_policy q) of (next_id, p) \<Rightarrow> (Inl (Peek_get next_id), q\<lparr>q_policy := p\<rparr>))"
| "read_statement (Peek_get None) q = (Inr Gives_None, q)"
| "read_statement (Peek_get (Some i)) q = (Inr (maybe_task (dget (q_storage q) i)), q)"
| "read_statement (Look_up i) q = (Inr (task_or_raise (lookup i q)), q)"
| "read_statement (Contains_id i) q = (Inr (Gives_Bool (contains i q)), q)"
| "read_statement Read_metrics q = (Inr (Gives_Metrics (queue_get_metrics q)), q)"
| "read_statement Read_size q = (Inr (Gives_Int (queue_size q)), q)"
| "read_statement Read_empty q = (Inr (Gives_Bool (is_empty q)), q)"

fun go_on :: "('p \<Rightarrow> queue_pc) \<Rightarrow> 'p + queue_result \<Rightarrow> queue_pc" where
  "go_on f (Inl p) = f p"
| "go_on f (Inr res) = Finished res"

fun queue_statement ::
    "(string \<Rightarrow> rat option) \<Rightarrow> queue_pc \<Rightarrow> task_queue \<times> world \<Rightarrow> queue_pc \<times> task_queue \<times> world" where
  "queue_statement fromiso (In_enqueue r p) (q, w) = apfst (go_on (In_enqueue r)) (enqueue_statement fromiso r p q w)"
| "queue_statement fromiso (In_dequeue p) (q, w) = apfst (go_on In_dequeue) (dequeue_statement p q w)"
| "queue_statement fromiso (In_cancel i p) (q, w) = apfst (go_on (In_cancel i)) (cancel_statement i p q w)"
| "queue_statement fromiso (In_read p) (q, w) =
     (case read_statement p q of (x, q') \<Rightarrow> (go_on In_read x, q', w))"
| "queue_statement fromiso (Finished res) s = (Finished res, s)"

fun queue_finished :: "queue_pc \<Rightarrow> queue_result option" where
  "queue_finished (Finished r) = Some r"
| "queue_finished _ = None"

definition queue_bodies ::
    "(string \<Rightarrow> rat option) \<Rightarrow> (queue_call, queue_pc, task_queue \<times> world, queue_result) method_bodies" where
  "queue_bodies fromiso =
     \<lparr>mb_start = queue_start, mb_step = queue_statement fromiso, mb_result = queue_finished\<rparr>"

section \<open>A body run alone is the method\<close>

lemma queue_bodies_simps [simp]:
  "mb_start (queue_bodies fromiso) = queue_start"
  "mb_step (queue_bodies fromiso) = queue_statement fromiso"
  "mb_result (queue_bodies fromiso) = queue_finished"
  by (simp_all add: queue_bodies_def)

lemma upd_task_stamp:
  "meta_of (w_task w r) = [] \<Longrightarrow>
   upd_task r (\<lambda>t. t\<lparr>t_metadata := Some (dset k v (meta_of t))\<rparr>) (upd_task r (\<lambda>t. t\<lparr>t_metadata := Some []\<rparr>) w) =
   upd_task r (\<lambda>t. t\<lparr>t_metadata := Some (dset k v (meta_of t))\<rparr>) w"
  by (simp add: upd_task_def meta_of_def)

lemma enqueue_body:
  "body_run (queue_bodies fromiso) 9 (queue_start (Call_enqueue r), q, w) =
   (case queue_method fromiso (Call_enqueue r) (q, w) of (res, s) \<Rightarrow> (Finished res, s))"
proof (cases "queue_full q")
  case True
  then show ?thesis by (simp add: enqueue_def Let_def eval_nat_numeral)
next
  case False
  obtain e p where p: "policy_add fromiso (w_task w r) (q_policy q) = (e, p)" by fastforce
  from False show ?thesis
    by (cases e; cases "meta_of (w_task w r) = []")
      (simp_all add: enqueue_def Let_def eval_nat_numeral upd_task_stamp p)
qed

lemma dequeue_body:
  "body_run (queue_bodies fromiso) 9 (queue_start Call_dequeue, q, w) =
   (case queue_method fromiso Call_dequeue (q, w) of (res, s) \<Rightarrow> (Finished res, s))"
proof -
  obtain x p where p: "policy_next (q_policy q) = (x, p)" by fastforce
  show ?thesis
  proof (cases x)
    case None
    with p show ?thesis by (simp add: dequeue_def eval_nat_numeral)
  next
    case (Some i)
    with p show ?thesis
      by (cases "dget (q_storage q) i") (simp_all add: dequeue_def contains_def eval_nat_numeral)
  qed
qed

lemma cancel_body:
  "body_run (queue_bodies fromiso) 9 (queue_start (Call_cancel i), q, w) =
   (case queue_method fromiso (Call_cancel i) (q, w) of (res, s) \<Rightarrow> (Finished res, s))"
  by (cases "dget (q_storage q) i") (simp_all add: cancel_def contains_def eval_nat_numeral)

lemma peek_body:
  "body_run (queue_bodies fromiso) 9 (queue_start Call_peek, q, w) =
   (case queue_method fromiso Call_peek (q, w) of (res, s) \<Rightarrow> (Finished res, s))"
  by (auto simp: peek_def eval_nat_numeral split: prod.splits option.splits)

lemma read_body:
  "body_run (queue_bodies fromiso) 9 (queue_start (Call_lookup i), q, w) = (Finished (task_or_raise (lookup i q)), q, w)"
  "body_run (queue_bodies fromiso) 9 (queue_start (Call_contains i), q, w) = (Finished (Gives_Bool (contains i q)), q, w)"
  "body_run (queue_bodies fromiso) 9 (queue_start Call_get_metrics, q, w) = (Finished (Gives_Metrics (queue_get_metrics q)), q, w)"
  "body_run (queue_bodies fromiso) 9 (queue_start Call_size, q, w) = (Finished (Gives_Int (queue_size q)), q, w)"
  "body_run (queue_bodies fromiso) 9 (queue_start Call_is_empty, q, w) = (Finished (Gives_Bool (is_empty q)), q, w)"
  by (simp_all add: eval_nat_numeral)

lemma queue_body:
  "body_run (queue_bodies fromiso) 9 (queue_start c, q, w) =
   (case queue_method fromiso c (q, w) of (res, s) \<Rightarrow> (Finished res, s))"
proof (cases c)
  case (Call_enqueue r) show ?thesis unfolding Call_enqueue by (rule enqueue_body)
next
  case Call_dequeue show ?thesis unfolding Call_dequeue by (rule dequeue_body)
next
  case Call_peek show ?thesis unfolding Call_peek by (rule peek_body)
next
  case (Call_cancel i) show ?thesis unfolding Call_cancel by (rule cancel_body)
qed (simp_all only: read_body queue_method.simps prod.case)

interpretation qo: locked_object local_lock ltl_lock "queue_bodies fromiso" "queue_method fromiso" "\<lambda>_. 9"
  for fromiso
proof unfold_locales
  fix c and s :: "task_queue \<times> world"
  show "mb_result (queue_bodies fromiso) (fst (body_run (queue_bodies fromiso) 9 (mb_start (queue_bodies fromiso) c, s))) =
      Some (fst (queue_method fromiso c s)) \<and>
    snd (body_run (queue_bodies fromiso) 9 (mb_start (queue_bodies fromiso) c, s)) = snd (queue_method fromiso c s)"
    unfolding queue_bodies_simps
    by (cases s; simp only: queue_body) (simp only: case_prod_beta fst_conv snd_conv queue_finished.simps simp_thms)
qed

section \<open>Each task is handed out once\<close>

















section \<open>Properties\<close>

text \<open>
  C3. Threads that call the methods of one queue, their statements interleaved in any way the lock
  admits, get the results and leave the queue, the tasks and the event log that the same calls give
  when they are made one after the other in the order in which they entered the lock; each thread's
  calls are made in its own order.
\<close>

theorem concurrent_queue_linearizable:
  assumes "locked_run local_lock (queue_bodies fromiso) (lock_system_init local_lock_init (q, w) progs) tr s"
    and "ltl_lock (ls_lock s) = None"
  shows "call_seq (queue_method fromiso) (map snd (entered tr)) (q, w) = (map snd (returned tr), ls_object s) \<and>
    map fst (entered tr) = map fst (returned tr) \<and>
    (\<forall>t. of_thread t (entered tr) @ at_lock (ls_point s t) @ ls_calls s t = progs t)"
proof -
  have free: "ltl_lock local_lock_init = None" by (simp add: local_lock_init_def)
  have "of_thread t (entered tr) @ at_lock (ls_point s t) @ ls_calls s t = progs t" for t
    using calls_in_program_order [OF assms(1), of t] unfolding append_assoc [symmetric]
    by (simp add: lock_system_init_def)
  with qo.linearizable [OF assms(1) free assms(2)] show ?thesis by blast
qed

definition sample_progs :: "nat \<Rightarrow> queue_call list" where
  "sample_progs t = (if t = 0 then [Call_enqueue 0] else if t = 1 then [Call_dequeue, Call_size] else [])"

abbreviation sample_system ::
    "(local_threading_lock, task_queue \<times> world, queue_call, queue_pc) lock_system" where
  "sample_system \<equiv> lock_system_init local_lock_init (queue_init None None, sample_world) sample_progs"

text \<open>Both threads arrive; thread 0 enters first and runs its statements, then thread 1.\<close>

lemma sample_interleaving:
  "\<exists>tr s. locked_run local_lock (queue_bodies (\<lambda>_. None)) sample_system tr s \<and> ltl_lock (ls_lock s) = None \<and>
     entered tr = [(0, Call_enqueue 0), (1, Call_dequeue)] \<and> ls_calls s 1 = [Call_size]"
proof -
  have "\<exists>tr s. follow local_lock (queue_bodies (\<lambda>_. None)) ([1, 0, 0] @ replicate 9 0 @ replicate 8 1)
      sample_system = Some (tr, s) \<and> ltl_lock (ls_lock s) = None \<and>
     entered tr = [(0, Call_enqueue 0), (1, Call_dequeue)] \<and> ls_calls s 1 = [Call_size]"
    by (simp add: thread_move_def eval_nat_numeral lock_system_init_def local_lock_init_def local_lock_def local_lock_enter_def
        local_lock_exit_def sample_progs_def queue_init_def queue_full_def fifo_init_def fifo_add_def fifo_next_def
        contains_def publish_def sample_simps emit_def upd_task_def)
  then show ?thesis by (blast intro: follow_run)
qed

theorem concurrent_queue_linearizable_witness:
  "\<exists>tr s. locked_run local_lock (queue_bodies (\<lambda>_. None)) sample_system tr s \<and>
     fst (call_seq (queue_method (\<lambda>_. None)) [Call_enqueue 0, Call_dequeue] (queue_init None None, sample_world)) =
     map snd (returned tr) \<and> map fst (returned tr) = [0, 1]"
proof -
  from sample_interleaving obtain tr s where
    run: "locked_run local_lock (queue_bodies (\<lambda>_. None)) sample_system tr s"
    and free: "ltl_lock (ls_lock s) = None"
    and order: "entered tr = [(0, Call_enqueue 0), (1, Call_dequeue)]" by blast
  from concurrent_queue_linearizable [OF run free] run show ?thesis
    unfolding order by (intro exI [of _ tr] exI [of _ s]) simp
qed

text \<open>
  C36. No call of the queue waits for ever: a run of finitely many calls has at most twelve steps for
  each call, and a run that no thread can continue has answered every call of every thread.
\<close>

theorem queue_calls_return:
  assumes "locked_run local_lock (queue_bodies fromiso) (lock_system_init local_lock_init (q, w) progs) tr s"
    and "finite T" and "\<forall>t. t \<notin> T \<longrightarrow> progs t = []"
  shows "length tr \<le> 12 * (\<Sum>t\<in>T. length (progs t)) \<and>
    ((\<exists>e s'. locked_step local_lock (queue_bodies fromiso) s e s') \<or>
     (\<forall>t. of_thread t (entered tr) = progs t \<and> length (of_thread t (returned tr)) = length (progs t)))"
proof -
  have free: "ltl_lock local_lock_init = None" by (simp add: local_lock_init_def)
  have "length tr \<le> (\<Sum>t\<in>T. \<Sum>c\<leftarrow>progs t. 9 + 3)"
    by (rule qo.run_bounded [OF assms(1) free assms(2,3)])
  then have "length tr \<le> 12 * (\<Sum>t\<in>T. length (progs t))"
    by (simp add: sum_list_triv sum_distrib_left mult.commute)
  then show ?thesis using qo.stopped_run_is_complete [OF assms(1) free] by (simp, blast)
qed

theorem queue_calls_return_witness:
  "\<exists>tr s. locked_run local_lock (queue_bodies (\<lambda>_. None)) sample_system tr s \<and> length tr \<le> 36 \<and>
     (\<exists>e s'. locked_step local_lock (queue_bodies (\<lambda>_. None)) s e s')"
proof -
  from sample_interleaving obtain tr s where
    run: "locked_run local_lock (queue_bodies (\<lambda>_. None)) sample_system tr s"
    and order: "entered tr = [(0, Call_enqueue 0), (1, Call_dequeue)]" by blast
  have "\<forall>t. t \<notin> {0, 1} \<longrightarrow> sample_progs t = []" by (simp add: sample_progs_def)
  note q = queue_calls_return [OF run _ this]
  from q have "length tr \<le> 36" by (simp add: sample_progs_def)
  moreover from q have "(\<exists>e s'. locked_step local_lock (queue_bodies (\<lambda>_. None)) s e s') \<or>
      of_thread 1 (entered tr) = sample_progs 1" by blast
  ultimately show ?thesis
    by (intro exI [of _ tr] exI [of _ s]) (use run order in \<open>auto simp: sample_progs_def\<close>)
qed



end
