(* ===== verification/Workflow_Models.thy ===== *)
theory Workflow_Models
  imports Prelude
begin

text \<open>
  The workflow data model: \<^verbatim>\<open>runtime/workflow/domain/models.py\<close>. Each frozen dataclass is a record;
  each \<open>to_dict\<close> is an encoder to dictionaries of primitives and each \<open>from_dict\<close> a reader that
  may raise.
\<close>

section \<open>Enums\<close>

datatype workflow_status =
  WF_PENDING | WF_RUNNING | WF_PAUSED | WF_SUCCEEDED | WF_FAILED | WF_CANCELLED

datatype node_state =
    NS_PENDING | NS_PREPARING | NS_RUNNING | NS_SUCCEEDED | NS_FAILED | NS_SKIPPED | NS_CANCELLED
  | NS_WAITING_APPROVAL

datatype failure_policy = FP_FAIL | FP_IGNORE | FP_COMPENSATE

definition workflow_statuses :: "(string \<times> workflow_status) list" where
  "workflow_statuses =
     [(''Pending'', WF_PENDING), (''Running'', WF_RUNNING), (''Paused'', WF_PAUSED),
      (''Succeeded'', WF_SUCCEEDED), (''Failed'', WF_FAILED), (''Cancelled'', WF_CANCELLED)]"

definition node_states :: "(string \<times> node_state) list" where
  "node_states =
     [(''Pending'', NS_PENDING), (''Preparing'', NS_PREPARING), (''Running'', NS_RUNNING),
      (''Succeeded'', NS_SUCCEEDED), (''Failed'', NS_FAILED), (''Skipped'', NS_SKIPPED),
      (''Cancelled'', NS_CANCELLED), (''WaitingApproval'', NS_WAITING_APPROVAL)]"

definition failure_policies :: "(string \<times> failure_policy) list" where
  "failure_policies = [(''Fail'', FP_FAIL), (''Ignore'', FP_IGNORE), (''Compensate'', FP_COMPENSATE)]"

text \<open>\<open>E.value\<close> and \<open>E(v)\<close> for an enum given by its table of values and members.\<close>

definition enum_value :: "(string \<times> 'e) list \<Rightarrow> 'e \<Rightarrow> string" where
  "enum_value tab e = (case List.find (\<lambda>kv. snd kv = e) tab of Some kv \<Rightarrow> fst kv | None \<Rightarrow> [])"

definition enum_of :: "(string \<times> 'e) list \<Rightarrow> pyval \<Rightarrow> py_error + 'e" where
  "enum_of tab v =
     bindE (as_str v) (\<lambda>s. case dget tab s of
       Some e \<Rightarrow> Inr e | None \<Rightarrow> Inl (ValueError ''not a valid enum value''))"

lemmas enum_tables = workflow_statuses_def node_states_def failure_policies_def

lemma workflow_status_of_value [simp]:
  "enum_of workflow_statuses (PStr (enum_value workflow_statuses a)) = Inr a"
  by (cases a) (simp_all add: enum_tables enum_of_def enum_value_def)

lemma node_state_of_value [simp]:
  "enum_of node_states (PStr (enum_value node_states a)) = Inr a"
  by (cases a) (simp_all add: enum_tables enum_of_def enum_value_def)

lemma failure_policy_of_value [simp]:
  "enum_of failure_policies (PStr (enum_value failure_policies a)) = Inr a"
  by (cases a) (simp_all add: enum_tables enum_of_def enum_value_def)

section \<open>Policies and data mappings\<close>

record wf_retry =
  max_attempts :: int
  wr_delay_seconds :: rat
  backoff_rate :: rat

record wf_timeout =
  wt_timeout_seconds :: "rat option"

record wf_compensation =
  compensation_node_id :: "string option"

record workflow_policy =
  wp_retry :: wf_retry
  wp_timeout :: wf_timeout
  wp_failure_handling :: failure_policy
  wp_compensation :: wf_compensation

record node_policy =
  np_retry :: "wf_retry option"
  np_timeout :: "wf_timeout option"
  np_failure_handling :: "failure_policy option"
  np_compensation :: "wf_compensation option"

record node_input =
  source_node_id :: "string option"
  output_key :: "string option"
  default_value :: pyval

record data_mapping =
  input_mappings :: "(string \<times> node_input) list"
  output_mappings :: "string list"

definition default_retry :: wf_retry where
  "default_retry = \<lparr>max_attempts = 0, wr_delay_seconds = 1, backoff_rate = 1\<rparr>"

definition default_workflow_policy :: workflow_policy where
  "default_workflow_policy =
     \<lparr>wp_retry = default_retry, wp_timeout = \<lparr>wt_timeout_seconds = None\<rparr>,
      wp_failure_handling = FP_FAIL, wp_compensation = \<lparr>compensation_node_id = None\<rparr>\<rparr>"

definition default_node_policy :: node_policy where
  "default_node_policy =
     \<lparr>np_retry = None, np_timeout = None, np_failure_handling = None, np_compensation = None\<rparr>"

definition default_data_mapping :: data_mapping where
  "default_data_mapping = \<lparr>input_mappings = [], output_mappings = []\<rparr>"

definition retry_asdict :: "wf_retry \<Rightarrow> pyval" where
  "retry_asdict p = PDict [(''max_attempts'', PInt (max_attempts p)),
     (''delay_seconds'', PFloat (wr_delay_seconds p)), (''backoff_rate'', PFloat (backoff_rate p))]"

definition timeout_asdict :: "wf_timeout \<Rightarrow> pyval" where
  "timeout_asdict p = PDict [(''timeout_seconds'', popt PFloat (wt_timeout_seconds p))]"

definition compensation_asdict :: "wf_compensation \<Rightarrow> pyval" where
  "compensation_asdict p = PDict [(''compensation_node_id'', popt PStr (compensation_node_id p))]"

definition node_input_asdict :: "node_input \<Rightarrow> pyval" where
  "node_input_asdict i = PDict [(''source_node_id'', popt PStr (source_node_id i)),
     (''output_key'', popt PStr (output_key i)), (''default_value'', default_value i)]"

definition retry_call :: "pyval \<Rightarrow> py_error + wf_retry" where
  "retry_call v =
     bindE (kwargs [''max_attempts'', ''delay_seconds'', ''backoff_rate''] v) (\<lambda>d.
     bindE (ditem_or as_int 0 d ''max_attempts'') (\<lambda>a.
     bindE (ditem_or as_float 1 d ''delay_seconds'') (\<lambda>b.
     bindE (ditem_or as_float 1 d ''backoff_rate'') (\<lambda>c.
       Inr \<lparr>max_attempts = a, wr_delay_seconds = b, backoff_rate = c\<rparr>))))"

definition timeout_call :: "pyval \<Rightarrow> py_error + wf_timeout" where
  "timeout_call v =
     bindE (kwargs [''timeout_seconds''] v) (\<lambda>d.
     bindE (ditem_or as_opt_float None d ''timeout_seconds'') (\<lambda>a. Inr \<lparr>wt_timeout_seconds = a\<rparr>))"

definition compensation_call :: "pyval \<Rightarrow> py_error + wf_compensation" where
  "compensation_call v =
     bindE (kwargs [''compensation_node_id''] v) (\<lambda>d.
     bindE (ditem_or as_opt_str None d ''compensation_node_id'') (\<lambda>a.
       Inr \<lparr>compensation_node_id = a\<rparr>))"

definition node_input_call :: "pyval \<Rightarrow> py_error + node_input" where
  "node_input_call v =
     bindE (kwargs [''source_node_id'', ''output_key'', ''default_value''] v) (\<lambda>d.
     bindE (ditem_or as_opt_str None d ''source_node_id'') (\<lambda>a.
     bindE (ditem_or as_opt_str None d ''output_key'') (\<lambda>b.
     bindE (ditem_or Inr PNone d ''default_value'') (\<lambda>c.
       Inr \<lparr>source_node_id = a, output_key = b, default_value = c\<rparr>))))"

lemma call_asdict [simp]:
  "retry_call (retry_asdict a) = Inr a"
  "timeout_call (timeout_asdict b) = Inr b"
  "compensation_call (compensation_asdict c) = Inr c"
  "node_input_call (node_input_asdict i) = Inr i"
  by (simp_all add: retry_call_def retry_asdict_def timeout_call_def timeout_asdict_def
      compensation_call_def compensation_asdict_def node_input_call_def node_input_asdict_def
      kwargs_def ditem_or_def)

lemma truthy_asdict [simp]:
  "truthy (retry_asdict a)" "truthy (timeout_asdict b)" "truthy (compensation_asdict c)"
  by (simp_all add: retry_asdict_def timeout_asdict_def compensation_asdict_def)

section \<open>Nodes, edges and graphs\<close>

record graph_node =
  n_id :: string
  executor_type :: string
  payload :: pydict
  n_policy :: node_policy
  capabilities :: "string list"
  data_map :: data_mapping
  is_checkpoint :: bool
  is_approval :: bool
  n_version :: string

record graph_edge =
  from_node_id :: string
  to_node_id :: string
  condition_expression :: "string option"
  e_version :: string

record execution_graph =
  g_nodes :: "(string \<times> graph_node) list"
  g_edges :: "graph_edge list"
  g_version :: string

text \<open>
  \<open>asdict\<close> copies the enum member of a node's failure policy: it stays a member object, unlike the
  workflow's own failure policy, which \<open>WorkflowDefinition.to_dict\<close> writes as its value.
\<close>

definition node_policy_asdict :: "node_policy \<Rightarrow> pyval" where
  "node_policy_asdict p =
     PDict [(''retry'', popt retry_asdict (np_retry p)), (''timeout'', popt timeout_asdict (np_timeout p)),
            (''failure_handling'',
               popt (\<lambda>f. PEnum ''FailurePolicy'' (enum_value failure_policies f)) (np_failure_handling p)),
            (''compensation'', popt compensation_asdict (np_compensation p))]"

definition node_to_dict :: "graph_node \<Rightarrow> pyval" where
  "node_to_dict n =
     PDict [(''id'', PStr (n_id n)), (''executor_type'', PStr (executor_type n)),
            (''payload'', PDict (payload n)), (''policy'', node_policy_asdict (n_policy n)),
            (''capabilities'', PList (map PStr (capabilities n))),
            (''data_mapping'',
               PDict [(''input_mappings'', PDict (dmap node_input_asdict (input_mappings (data_map n)))),
                      (''output_mappings'', PList (map PStr (output_mappings (data_map n))))]),
            (''is_checkpoint'', PBool (is_checkpoint n)), (''is_approval'', PBool (is_approval n)),
            (''version'', PStr (n_version n))]"

text \<open>\<open>C(**data) if data else None\<close> on \<open>d.get(k)\<close>.\<close>

definition opt_call :: "(pyval \<Rightarrow> py_error + 'a) \<Rightarrow> pydict \<Rightarrow> string \<Rightarrow> py_error + 'a option" where
  "opt_call f d k =
     (case dget d k of
        None \<Rightarrow> Inr None
      | Some v \<Rightarrow> if truthy v then bindE (f v) (\<lambda>x. Inr (Some x)) else Inr None)"

text \<open>\<open>FailurePolicy(x)\<close> accepts a member as well as its value.\<close>

fun failure_policy_call :: "pyval \<Rightarrow> py_error + failure_policy" where
  "failure_policy_call (PEnum c v) =
     (if c = ''FailurePolicy'' then enum_of failure_policies (PStr v)
      else Inl (ValueError ''not a valid FailurePolicy''))"
| "failure_policy_call v = enum_of failure_policies v"

definition node_from_dict :: "pyval \<Rightarrow> py_error + graph_node" where
  "node_from_dict v =
     bindE (as_dict v) (\<lambda>data.
     bindE (ditem_or as_dict [] data ''policy'') (\<lambda>pd.
     bindE (opt_call retry_call pd ''retry'') (\<lambda>retry.
     bindE (opt_call timeout_call pd ''timeout'') (\<lambda>timeout.
     bindE (opt_call compensation_call pd ''compensation'') (\<lambda>comp.
     bindE (opt_call failure_policy_call pd ''failure_handling'') (\<lambda>fh.
     bindE (ditem_or as_dict [] data ''data_mapping'') (\<lambda>dm.
     bindE (ditem_or as_dict [] dm ''input_mappings'') (\<lambda>im.
     bindE (dmapE node_input_call im) (\<lambda>in_maps.
     bindE (ditem_or as_str_list [] dm ''output_mappings'') (\<lambda>om.
     bindE (ditem as_str data ''id'') (\<lambda>i.
     bindE (ditem as_str data ''executor_type'') (\<lambda>et.
     bindE (ditem as_dict data ''payload'') (\<lambda>pl.
     bindE (ditem_or as_str_list [] data ''capabilities'') (\<lambda>caps.
     bindE (ditem_or as_bool False data ''is_checkpoint'') (\<lambda>ck.
     bindE (ditem_or as_bool False data ''is_approval'') (\<lambda>ap.
     bindE (ditem_or as_str ''1.0.0'' data ''version'') (\<lambda>ver.
       Inr \<lparr>n_id = i, executor_type = et, payload = pl,
            n_policy = \<lparr>np_retry = retry, np_timeout = timeout, np_failure_handling = fh,
                        np_compensation = comp\<rparr>,
            capabilities = caps, data_map = \<lparr>input_mappings = in_maps, output_mappings = om\<rparr>,
            is_checkpoint = ck, is_approval = ap, n_version = ver\<rparr>)))))))))))))))))"

definition edge_to_dict :: "graph_edge \<Rightarrow> pyval" where
  "edge_to_dict e =
     PDict [(''from_node_id'', PStr (from_node_id e)), (''to_node_id'', PStr (to_node_id e)),
            (''condition_expression'', popt PStr (condition_expression e)),
            (''version'', PStr (e_version e))]"

definition edge_from_dict :: "pyval \<Rightarrow> py_error + graph_edge" where
  "edge_from_dict v =
     bindE (as_dict v) (\<lambda>data.
     bindE (ditem as_str data ''from_node_id'') (\<lambda>a.
     bindE (ditem as_str data ''to_node_id'') (\<lambda>b.
     bindE (ditem_or as_opt_str None data ''condition_expression'') (\<lambda>c.
     bindE (ditem_or as_str ''1.0.0'' data ''version'') (\<lambda>ver.
       Inr \<lparr>from_node_id = a, to_node_id = b, condition_expression = c, e_version = ver\<rparr>)))))"

definition graph_to_dict :: "execution_graph \<Rightarrow> pyval" where
  "graph_to_dict g =
     PDict [(''nodes'', PDict (dmap node_to_dict (g_nodes g))),
            (''edges'', PList (map edge_to_dict (g_edges g))), (''version'', PStr (g_version g))]"

definition graph_from_dict :: "pyval \<Rightarrow> py_error + execution_graph" where
  "graph_from_dict v =
     bindE (as_dict v) (\<lambda>data.
     bindE (ditem_or as_dict [] data ''nodes'') (\<lambda>nd.
     bindE (dmapE node_from_dict nd) (\<lambda>nodes.
     bindE (ditem_or as_list [] data ''edges'') (\<lambda>ed.
     bindE (mapE edge_from_dict ed) (\<lambda>edges.
     bindE (ditem_or as_str ''1.0.0'' data ''version'') (\<lambda>ver.
       Inr \<lparr>g_nodes = nodes, g_edges = edges, g_version = ver\<rparr>))))))"

lemma failure_policy_member [simp]:
  "failure_policy_call (PEnum ''FailurePolicy'' (enum_value failure_policies f)) = Inr f"
  by simp

lemma opt_call_popt:
  assumes "dget d k = Some (popt enc x)" and "\<And>y. dec (enc y) = Inr y" and "\<And>y. truthy (enc y)"
  shows "opt_call dec d k = Inr x"
  using assms by (cases x) (auto simp: opt_call_def)

lemma node_dict_roundtrip [simp]: "node_from_dict (node_to_dict n) = Inr n"
  by (simp add: node_from_dict_def node_to_dict_def node_policy_asdict_def field_defs
      opt_call_popt [where enc = retry_asdict] opt_call_popt [where enc = timeout_asdict]
      opt_call_popt [where enc = compensation_asdict]
      opt_call_popt [where enc = "\<lambda>f. PEnum ''FailurePolicy'' (enum_value failure_policies f)"]
      dmapE_dmap del: failure_policy_call.simps)

lemma edge_dict_roundtrip [simp]: "edge_from_dict (edge_to_dict e) = Inr e"
  by (simp add: edge_from_dict_def edge_to_dict_def field_defs)

lemma graph_dict_roundtrip [simp]: "graph_from_dict (graph_to_dict g) = Inr g"
  by (simp add: graph_from_dict_def graph_to_dict_def field_defs dmapE_dmap mapE_map)

section \<open>Definitions, plans and instances\<close>

record workflow_metadata =
  created_by :: string
  wm_tags :: "string list"
  wm_extra :: pydict

record workflow_definition =
  wd_name :: string
  wd_graph :: execution_graph
  wd_version :: string
  wd_policy :: workflow_policy
  wd_metadata :: workflow_metadata

record execution_phase =
  node_ids :: "string list"
  phase_index :: int

record execution_plan =
  phases :: "execution_phase list"
  critical_path :: "string list"
  pl_version :: string

record workflow_instance =
  instance_id :: string
  workflow_name :: string
  wi_definition :: workflow_definition
  wi_status :: workflow_status
  wi_node_states :: "(string \<times> node_state) list"
  wi_node_outputs :: "(string \<times> pydict) list"
  wi_execution_plan :: execution_plan
  started_at :: string
  completed_at :: "string option"
  wi_version :: string

definition metadata_asdict :: "workflow_metadata \<Rightarrow> pyval" where
  "metadata_asdict m = PDict [(''created_by'', PStr (created_by m)),
     (''tags'', PList (map PStr (wm_tags m))), (''extra'', PDict (wm_extra m))]"

definition metadata_call :: "pyval \<Rightarrow> py_error + workflow_metadata" where
  "metadata_call v =
     bindE (kwargs [''created_by'', ''tags'', ''extra''] v) (\<lambda>d.
     bindE (ditem_or as_str ''system'' d ''created_by'') (\<lambda>a.
     bindE (ditem_or as_str_list [] d ''tags'') (\<lambda>b.
     bindE (ditem_or as_dict [] d ''extra'') (\<lambda>c.
       Inr \<lparr>created_by = a, wm_tags = b, wm_extra = c\<rparr>))))"

definition definition_to_dict :: "workflow_definition \<Rightarrow> pyval" where
  "definition_to_dict w =
     PDict [(''name'', PStr (wd_name w)), (''graph'', graph_to_dict (wd_graph w)),
            (''version'', PStr (wd_version w)),
            (''policy'',
               PDict [(''retry'', retry_asdict (wp_retry (wd_policy w))),
                      (''timeout'', timeout_asdict (wp_timeout (wd_policy w))),
                      (''failure_handling'',
                         PStr (enum_value failure_policies (wp_failure_handling (wd_policy w)))),
                      (''compensation'', compensation_asdict (wp_compensation (wd_policy w)))]),
            (''metadata'', metadata_asdict (wd_metadata w))]"

text \<open>\<open>C(**d.get(k, {}))\<close>: the class is called with the stored keywords, or with none.\<close>

definition call_or_empty :: "(pyval \<Rightarrow> py_error + 'a) \<Rightarrow> pydict \<Rightarrow> string \<Rightarrow> py_error + 'a" where
  "call_or_empty f d k = f (case dget d k of None \<Rightarrow> PDict [] | Some v \<Rightarrow> v)"

definition definition_from_dict :: "pyval \<Rightarrow> py_error + workflow_definition" where
  "definition_from_dict v =
     bindE (as_dict v) (\<lambda>data.
     bindE (ditem_or as_dict [] data ''policy'') (\<lambda>pd.
     bindE (call_or_empty retry_call pd ''retry'') (\<lambda>retry.
     bindE (call_or_empty timeout_call pd ''timeout'') (\<lambda>timeout.
     bindE (ditem_or failure_policy_call FP_FAIL pd ''failure_handling'') (\<lambda>fh.
     bindE (call_or_empty compensation_call pd ''compensation'') (\<lambda>comp.
     bindE (call_or_empty metadata_call data ''metadata'') (\<lambda>meta.
     bindE (ditem as_str data ''name'') (\<lambda>nm.
     bindE (ditem graph_from_dict data ''graph'') (\<lambda>gr.
     bindE (ditem_or as_str ''1.0.0'' data ''version'') (\<lambda>ver.
       Inr \<lparr>wd_name = nm, wd_graph = gr, wd_version = ver,
            wd_policy = \<lparr>wp_retry = retry, wp_timeout = timeout, wp_failure_handling = fh,
                         wp_compensation = comp\<rparr>,
            wd_metadata = meta\<rparr>))))))))))"

definition phase_asdict :: "execution_phase \<Rightarrow> pyval" where
  "phase_asdict p =
     PDict [(''node_ids'', PList (map PStr (node_ids p))), (''phase_index'', PInt (phase_index p))]"

definition phase_call :: "pyval \<Rightarrow> py_error + execution_phase" where
  "phase_call v =
     bindE (kwargs [''node_ids'', ''phase_index''] v) (\<lambda>d.
     bindE (argument as_str_list d ''node_ids'') (\<lambda>a.
     bindE (argument as_int d ''phase_index'') (\<lambda>b. Inr \<lparr>node_ids = a, phase_index = b\<rparr>)))"

definition plan_to_dict :: "execution_plan \<Rightarrow> pyval" where
  "plan_to_dict p =
     PDict [(''phases'', PList (map phase_asdict (phases p))),
            (''critical_path'', PList (map PStr (critical_path p))),
            (''version'', PStr (pl_version p))]"

definition plan_from_dict :: "pyval \<Rightarrow> py_error + execution_plan" where
  "plan_from_dict v =
     bindE (as_dict v) (\<lambda>data.
     bindE (ditem_or as_list [] data ''phases'') (\<lambda>ps.
     bindE (mapE phase_call ps) (\<lambda>phs.
     bindE (ditem_or as_str_list [] data ''critical_path'') (\<lambda>cp.
     bindE (ditem_or as_str ''1.0.0'' data ''version'') (\<lambda>ver.
       Inr \<lparr>phases = phs, critical_path = cp, pl_version = ver\<rparr>)))))"

definition instance_to_dict :: "workflow_instance \<Rightarrow> pyval" where
  "instance_to_dict w =
     PDict [(''instance_id'', PStr (instance_id w)), (''workflow_name'', PStr (workflow_name w)),
            (''definition'', definition_to_dict (wi_definition w)),
            (''status'', PStr (enum_value workflow_statuses (wi_status w))),
            (''node_states'', PDict (dmap (\<lambda>s. PStr (enum_value node_states s)) (wi_node_states w))),
            (''node_outputs'', PDict (dmap PDict (wi_node_outputs w))),
            (''execution_plan'', plan_to_dict (wi_execution_plan w)),
            (''started_at'', PStr (started_at w)),
            (''completed_at'', popt PStr (completed_at w)), (''version'', PStr (wi_version w))]"

definition instance_from_dict :: "pyval \<Rightarrow> py_error + workflow_instance" where
  "instance_from_dict v =
     bindE (as_dict v) (\<lambda>data.
     bindE (ditem definition_from_dict data ''definition'') (\<lambda>defn.
     bindE (ditem (enum_of workflow_statuses) data ''status'') (\<lambda>st.
     bindE (ditem_or as_dict [] data ''node_states'') (\<lambda>ns.
     bindE (dmapE (enum_of node_states) ns) (\<lambda>nst.
     bindE (ditem plan_from_dict data ''execution_plan'') (\<lambda>pl.
     bindE (ditem as_str data ''instance_id'') (\<lambda>i.
     bindE (ditem as_str data ''workflow_name'') (\<lambda>wn.
     bindE (ditem_or as_dict [] data ''node_outputs'') (\<lambda>no.
     bindE (dmapE as_dict no) (\<lambda>nout.
     bindE (ditem as_str data ''started_at'') (\<lambda>sa.
     bindE (ditem_or as_opt_str None data ''completed_at'') (\<lambda>ca.
     bindE (ditem_or as_str ''1.0.0'' data ''version'') (\<lambda>ver.
       Inr \<lparr>instance_id = i, workflow_name = wn, wi_definition = defn, wi_status = st,
            wi_node_states = nst, wi_node_outputs = nout, wi_execution_plan = pl,
            started_at = sa, completed_at = ca, wi_version = ver\<rparr>)))))))))))))"

lemma metadata_call_asdict [simp]: "metadata_call (metadata_asdict m) = Inr m"
  by (simp add: metadata_call_def metadata_asdict_def kwargs_def field_defs)

lemma phase_call_asdict [simp]: "phase_call (phase_asdict p) = Inr p"
  by (simp add: phase_call_def phase_asdict_def kwargs_def field_defs)

lemma definition_dict_roundtrip [simp]: "definition_from_dict (definition_to_dict w) = Inr w"
  by (simp add: definition_from_dict_def definition_to_dict_def field_defs call_or_empty_def)

lemma plan_dict_roundtrip [simp]: "plan_from_dict (plan_to_dict p) = Inr p"
  by (simp add: plan_from_dict_def plan_to_dict_def field_defs mapE_map)

lemma instance_dict_roundtrip_aux: "instance_from_dict (instance_to_dict w) = Inr w"
  by (simp add: instance_from_dict_def instance_to_dict_def field_defs dmapE_dmap)

section \<open>What survives the JSON encoder\<close>

text \<open>
  A checkpoint writes \<open>json.dumps(instance.to_dict())\<close>. The encoder accepts it when no node sets a
  failure policy of its own and the dictionaries the user supplied are JSON values themselves.
\<close>

definition node_json_ok :: "graph_node \<Rightarrow> bool" where
  "node_json_ok n \<longleftrightarrow>
     np_failure_handling (n_policy n) = None \<and> json_ok (PDict (payload n)) \<and>
     list_all (\<lambda>i. json_ok (default_value (snd i))) (input_mappings (data_map n))"

definition instance_json_ok :: "workflow_instance \<Rightarrow> bool" where
  "instance_json_ok w \<longleftrightarrow>
     list_all (\<lambda>n. node_json_ok (snd n)) (g_nodes (wd_graph (wi_definition w))) \<and>
     json_ok (PDict (wm_extra (wd_metadata (wi_definition w)))) \<and>
     list_all (\<lambda>o'. json_ok (PDict (snd o'))) (wi_node_outputs w)"

lemma json_ok_asdict [simp]:
  "json_ok (retry_asdict a)" "json_ok (timeout_asdict b)" "json_ok (compensation_asdict c)"
  by (simp_all add: retry_asdict_def timeout_asdict_def compensation_asdict_def)

lemma json_ok_popt_iff: "json_ok (popt f x) \<longleftrightarrow> (case x of None \<Rightarrow> True | Some y \<Rightarrow> json_ok (f y))"
  by (cases x) auto

lemma json_ok_node_input [simp]:
  "json_ok (node_input_asdict i) \<longleftrightarrow> json_ok (default_value i)"
  by (simp add: node_input_asdict_def)

lemma json_ok_node_policy [simp]:
  "json_ok (node_policy_asdict p) \<longleftrightarrow> np_failure_handling p = None"
  by (auto simp: node_policy_asdict_def json_ok_popt_iff split: option.splits)

lemma json_ok_node [simp]: "json_ok (node_to_dict n) \<longleftrightarrow> node_json_ok n"
  by (auto simp: node_to_dict_def node_json_ok_def dmap_def list_all_iff)

lemma json_ok_edge [simp]: "json_ok (edge_to_dict e)"
  by (simp add: edge_to_dict_def)

lemma json_ok_graph:
  "json_ok (graph_to_dict g) \<longleftrightarrow> list_all (\<lambda>n. node_json_ok (snd n)) (g_nodes g)"
  by (auto simp: graph_to_dict_def dmap_def list_all_iff)

lemma json_ok_definition:
  "json_ok (definition_to_dict w) \<longleftrightarrow>
     list_all (\<lambda>n. node_json_ok (snd n)) (g_nodes (wd_graph w)) \<and>
     json_ok (PDict (wm_extra (wd_metadata w)))"
  by (auto simp: definition_to_dict_def metadata_asdict_def json_ok_graph)

lemma json_ok_plan [simp]: "json_ok (plan_to_dict p)"
  by (auto simp: plan_to_dict_def phase_asdict_def)

lemma json_ok_instance_aux: "json_ok (instance_to_dict w) \<longleftrightarrow> instance_json_ok w"
  by (auto simp: instance_to_dict_def instance_json_ok_def json_ok_definition dmap_def list_all_iff)

end
