(* ===== verification/Workflow_Builder.thy ===== *)
theory Workflow_Builder
  imports Workflow_Models
begin

text \<open>
  The workflow builder (\<^verbatim>\<open>workflow/builder.py\<close>) and the tracing decorators of the SDK
  (\<^verbatim>\<open>workflow/sdk.py\<close>): the builder's state and its fluent operations, the validation of a graph by
  Kahn's algorithm, and the compilation of a traced function into a workflow definition. The
  lemmas show that validation returns a topological order exactly on acyclic graphs.
\<close>

section \<open>Building a graph\<close>

record workflow_builder =
  b_name :: string
  b_nodes :: "(string \<times> graph_node) list"
  b_edges :: "graph_edge list"
  b_workflow_policy :: workflow_policy

definition builder_init :: "string \<Rightarrow> workflow_builder" where
  "builder_init name =
     \<lparr>b_name = name, b_nodes = [], b_edges = [], b_workflow_policy = default_workflow_policy\<rparr>"

text \<open>An argument that is \<open>None\<close> or falsy is replaced by the default (\<open>payload or {}\<close>).\<close>

definition add_node ::
  "string \<Rightarrow> string \<Rightarrow> pydict option \<Rightarrow> node_policy option \<Rightarrow> string list option \<Rightarrow>
   data_mapping option \<Rightarrow> bool \<Rightarrow> bool \<Rightarrow> workflow_builder \<Rightarrow> py_error + workflow_builder" where
  "add_node node_id et pl pol caps dm ck ap b =
     (if node_id \<in> set (dkeys (b_nodes b)) then Inl (ValueError ''node already exists'')
      else Inr (b\<lparr>b_nodes := dset node_id
             \<lparr>n_id = node_id, executor_type = et,
              payload = (case pl of None \<Rightarrow> [] | Some d \<Rightarrow> d),
              n_policy = (case pol of None \<Rightarrow> default_node_policy | Some p \<Rightarrow> p),
              capabilities = (case caps of None \<Rightarrow> [] | Some cs \<Rightarrow> cs),
              data_map = (case dm of None \<Rightarrow> default_data_mapping | Some m \<Rightarrow> m),
              is_checkpoint = ck, is_approval = ap, n_version = ''1.0.0''\<rparr> (b_nodes b)\<rparr>))"

definition connect :: "string \<Rightarrow> string \<Rightarrow> string option \<Rightarrow> workflow_builder \<Rightarrow> workflow_builder" where
  "connect from_id to_id condition b =
     b\<lparr>b_edges := b_edges b @ [\<lparr>from_node_id = from_id, to_node_id = to_id,
                               condition_expression = condition, e_version = ''1.0.0''\<rparr>]\<rparr>"

fun parallel :: "string \<Rightarrow> string list \<Rightarrow> workflow_builder \<Rightarrow> workflow_builder" where
  "parallel from_id [] b = b"
| "parallel from_id (target # ts) b = parallel from_id ts (connect from_id target None b)"

definition update_node ::
  "string \<Rightarrow> (graph_node \<Rightarrow> graph_node) \<Rightarrow> workflow_builder \<Rightarrow> py_error + workflow_builder" where
  "update_node node_id f b =
     (case dget (b_nodes b) node_id of
        None \<Rightarrow> Inl (ValueError ''node not found'')
      | Some old_node \<Rightarrow> Inr (b\<lparr>b_nodes := dset node_id (f old_node) (b_nodes b)\<rparr>))"

definition builder_retry :: "string \<Rightarrow> int \<Rightarrow> rat \<Rightarrow> workflow_builder \<Rightarrow> py_error + workflow_builder" where
  "builder_retry node_id attempts delay =
     update_node node_id (\<lambda>n. n\<lparr>n_policy := (n_policy n)\<lparr>np_retry :=
       Some \<lparr>max_attempts = attempts, wr_delay_seconds = delay, backoff_rate = 1\<rparr>\<rparr>\<rparr>)"

definition builder_timeout :: "string \<Rightarrow> rat \<Rightarrow> workflow_builder \<Rightarrow> py_error + workflow_builder" where
  "builder_timeout node_id seconds =
     update_node node_id (\<lambda>n. n\<lparr>n_policy := (n_policy n)\<lparr>np_timeout :=
       Some \<lparr>wt_timeout_seconds = Some seconds\<rparr>\<rparr>\<rparr>)"

definition builder_checkpoint :: "string \<Rightarrow> workflow_builder \<Rightarrow> py_error + workflow_builder" where
  "builder_checkpoint node_id = update_node node_id (is_checkpoint_update (\<lambda>_. True))"

definition builder_approval :: "string \<Rightarrow> workflow_builder \<Rightarrow> py_error + workflow_builder" where
  "builder_approval node_id = update_node node_id (is_approval_update (\<lambda>_. True))"

definition configure_workflow_policy :: "workflow_policy \<Rightarrow> workflow_builder \<Rightarrow> workflow_builder" where
  "configure_workflow_policy p b = b\<lparr>b_workflow_policy := p\<rparr>"

section \<open>Kahn's algorithm\<close>

type_synonym degrees = "(string \<times> int) list"
type_synonym adjacency = "(string \<times> string list) list"

fun link_edges :: "graph_edge list \<Rightarrow> degrees \<Rightarrow> adjacency \<Rightarrow> py_error + (degrees \<times> adjacency)" where
  "link_edges [] in_degree adj = Inr (in_degree, adj)"
| "link_edges (e # es) in_degree adj =
     (case dget adj (from_node_id e) of
        None \<Rightarrow> Inl (KeyError (from_node_id e))
      | Some targets \<Rightarrow>
          (case dget in_degree (to_node_id e) of
             None \<Rightarrow> Inl (KeyError (to_node_id e))
           | Some d \<Rightarrow> link_edges es (dset (to_node_id e) (d + 1) in_degree)
                         (dset (from_node_id e) (targets @ [to_node_id e]) adj)))"

fun visit_children :: "string list \<Rightarrow> degrees \<Rightarrow> string list \<Rightarrow> py_error + (degrees \<times> string list)" where
  "visit_children [] in_degree queue = Inr (in_degree, queue)"
| "visit_children (v # vs) in_degree queue =
     (case dget in_degree v of
        None \<Rightarrow> Inl (KeyError v)
      | Some d \<Rightarrow> visit_children vs (dset v (d - 1) in_degree)
                    (if d - 1 = 0 then queue @ [v] else queue))"

text \<open>
  The loop ends for every adjacency and every table of degrees: a node enters the queue only when
  its degree drops from one to zero, so the queue's length plus the number of positive degrees
  decreases.
\<close>

definition kahn_measure :: "degrees \<Rightarrow> string list \<Rightarrow> nat" where
  "kahn_measure in_degree queue = length queue + length (filter (\<lambda>kd. 0 < snd kd) in_degree)"

lemma positive_degrees_update:
  "dget (ds :: degrees) v = Some d \<Longrightarrow>
   length (filter (\<lambda>kd. 0 < snd kd) (dset v (d - 1) ds)) + (if d - 1 = 0 then 1 else 0)
     = length (filter (\<lambda>kd. 0 < snd kd) ds)"
  by (induction ds) auto

lemma visit_children_measure:
  "visit_children vs ds q = Inr (ds', q') \<Longrightarrow> kahn_measure ds' q' = kahn_measure ds q"
proof (induction vs ds q rule: visit_children.induct)
  case (2 v vs ds q)
  then obtain d where d: "dget ds v = Some d" by (auto split: option.splits)
  with 2 have "kahn_measure ds' q' =
    kahn_measure (dset v (d - 1) ds) (if d - 1 = 0 then q @ [v] else q)" by simp
  with positive_degrees_update [OF d] show ?case by (simp add: kahn_measure_def split: if_splits)
qed simp

function kahn_loop ::
  "adjacency \<Rightarrow> degrees \<Rightarrow> string list \<Rightarrow> string list \<Rightarrow> py_error + string list" where
  "kahn_loop adj in_degree [] topo_order = Inr topo_order"
| "kahn_loop adj in_degree (u # queue) topo_order =
     (case dget adj u of
        None \<Rightarrow> Inl (KeyError u)
      | Some vs \<Rightarrow>
          (case visit_children vs in_degree queue of
             Inl e \<Rightarrow> Inl e
           | Inr (in_degree', queue') \<Rightarrow> kahn_loop adj in_degree' queue' (topo_order @ [u])))"
  by pat_completeness auto
termination
  by (relation "measure (\<lambda>(adj, ds, q, topo). kahn_measure ds q)")
    (auto dest!: visit_children_measure simp: kahn_measure_def)

definition zero_degrees :: "execution_graph \<Rightarrow> degrees" where
  "zero_degrees g = map (\<lambda>nid. (nid, 0)) (dkeys (g_nodes g))"

definition empty_lists :: "execution_graph \<Rightarrow> adjacency" where
  "empty_lists g = map (\<lambda>nid. (nid, [])) (dkeys (g_nodes g))"

definition roots :: "degrees \<Rightarrow> string list" where
  "roots in_degree = map fst (filter (\<lambda>kd. snd kd = 0) in_degree)"

definition validate_dag :: "execution_graph \<Rightarrow> py_error + string list" where
  "validate_dag g =
     bindE (link_edges (g_edges g) (zero_degrees g) (empty_lists g)) (\<lambda>(in_degree, adj).
     bindE (kahn_loop adj in_degree (roots in_degree) []) (\<lambda>topo_order.
       if length topo_order \<noteq> length (g_nodes g)
       then Inl (ValueError ''Cyclic dependency detected!'')
       else Inr topo_order))"

fun check_edges :: "(string \<times> graph_node) list \<Rightarrow> graph_edge list \<Rightarrow> py_error + unit" where
  "check_edges nodes [] = Inr ()"
| "check_edges nodes (e # es) =
     (if from_node_id e \<notin> set (dkeys nodes) then Inl (ValueError ''Edge from invalid node ID'')
      else if to_node_id e \<notin> set (dkeys nodes) then Inl (ValueError ''Edge to invalid node ID'')
      else check_edges nodes es)"

definition build :: "workflow_builder \<Rightarrow> py_error + workflow_definition" where
  "build b =
     bindE (check_edges (b_nodes b) (b_edges b)) (\<lambda>_.
     let graph = \<lparr>g_nodes = b_nodes b, g_edges = b_edges b, g_version = ''1.0.0''\<rparr>
     in bindE (validate_dag graph) (\<lambda>_.
       Inr \<lparr>wd_name = b_name b, wd_graph = graph, wd_version = ''1.0.0'',
            wd_policy = b_workflow_policy b,
            wd_metadata = \<lparr>created_by = ''system'', wm_tags = [], wm_extra = []\<rparr>\<rparr>))"

section \<open>The tracing SDK\<close>

text \<open>
  While a workflow is compiled every call of a decorated task adds a node named after the function
  and an edge from each argument that is a reference to an earlier task. The body of the decorated
  workflow is arbitrary Python; what the compiler sees of it is the sequence of its task calls.
\<close>

datatype sdk_arg = TaskReference string | PlainArg

record task_call =
  func_name :: string
  call_executor :: string
  call_policy :: "node_policy option"
  call_caps :: "string list option"
  call_checkpoint :: bool
  call_approval :: bool
  call_args :: "sdk_arg list"

fun parents_of :: "sdk_arg list \<Rightarrow> string list" where
  "parents_of [] = []"
| "parents_of (TaskReference i # as) = i # parents_of as"
| "parents_of (PlainArg # as) = parents_of as"

fun connect_parents :: "string list \<Rightarrow> string \<Rightarrow> workflow_builder \<Rightarrow> workflow_builder" where
  "connect_parents [] node_id b = b"
| "connect_parents (p # ps) node_id b = connect_parents ps node_id (connect p node_id None b)"

definition trace_call :: "task_call \<Rightarrow> workflow_builder \<Rightarrow> py_error + (sdk_arg \<times> workflow_builder)" where
  "trace_call c b =
     bindE (add_node (func_name c) (call_executor c) (Some [(''callable_name'', PStr (func_name c))])
              (call_policy c) (call_caps c) None (call_checkpoint c) (call_approval c) b) (\<lambda>b'.
       Inr (TaskReference (func_name c), connect_parents (parents_of (call_args c)) (func_name c) b'))"

fun trace_body :: "task_call list \<Rightarrow> workflow_builder \<Rightarrow> py_error + workflow_builder" where
  "trace_body [] b = Inr b"
| "trace_body (c # cs) b = bindE (trace_call c b) (\<lambda>(ref, b'). trace_body cs b')"

definition compile_workflow :: "string \<Rightarrow> task_call list \<Rightarrow> py_error + workflow_definition" where
  "compile_workflow name calls = bindE (trace_body calls (builder_init name)) build"

section \<open>Correctness of the validation\<close>

text \<open>
  Edges as pairs. \<open>pending_edges\<close> counts the edges into a node whose source is not yet in the
  order; Kahn's algorithm keeps it in the table of degrees.
\<close>

definition edge_pairs :: "execution_graph \<Rightarrow> (string \<times> string) list" where
  "edge_pairs g = map (\<lambda>e. (from_node_id e, to_node_id e)) (g_edges g)"

definition succs :: "(string \<times> string) list \<Rightarrow> string \<Rightarrow> string list" where
  "succs E u = map snd (filter (\<lambda>e. fst e = u) E)"

definition pending_edges :: "(string \<times> string) list \<Rightarrow> string list \<Rightarrow> string \<Rightarrow> nat" where
  "pending_edges E topo v = length (filter (\<lambda>e. snd e = v \<and> fst e \<notin> set topo) E)"

text \<open>Every predecessor of a listed node stands earlier in the list.\<close>

definition topo_sorted :: "(string \<times> string) list \<Rightarrow> string list \<Rightarrow> bool" where
  "topo_sorted E xs \<longleftrightarrow> (\<forall>ys v zs u. xs = ys @ v # zs \<and> (u, v) \<in> set E \<longrightarrow> u \<in> set ys)"

definition wf_graph :: "execution_graph \<Rightarrow> bool" where
  "wf_graph g \<longleftrightarrow>
     wf_dict (g_nodes g) \<and>
     (\<forall>e \<in> set (g_edges g). from_node_id e \<in> set (dkeys (g_nodes g)) \<and>
                             to_node_id e \<in> set (dkeys (g_nodes g)))"

definition kahn_inv ::
  "string list \<Rightarrow> (string \<times> string) list \<Rightarrow> adjacency \<Rightarrow> degrees \<Rightarrow> string list \<Rightarrow> string list \<Rightarrow> bool" where
  "kahn_inv N E adj ds q topo \<longleftrightarrow>
     distinct (topo @ q) \<and> set (topo @ q) \<subseteq> set N \<and>
     (\<forall>u \<in> set N. dget adj u = Some (succs E u)) \<and>
     (\<forall>v \<in> set N. dget ds v = Some (int (pending_edges E topo v))) \<and>
     (\<forall>v \<in> set N. v \<in> set (topo @ q) \<longleftrightarrow> pending_edges E topo v = 0) \<and>
     topo_sorted E (topo @ q)"

lemma set_succs: "v \<in> set (succs E u) \<longleftrightarrow> (u, v) \<in> set E"
  by (force simp: succs_def)

lemma count_succs: "count_list (succs E u) v = length (filter (\<lambda>e. e = (u, v)) E)"
  by (induction E) (auto simp: succs_def)

lemma pending_edges_append:
  "u \<notin> set topo \<Longrightarrow>
   pending_edges E topo v = pending_edges E (topo @ [u]) v + count_list (succs E u) v"
  by (induction E) (auto simp: pending_edges_def succs_def)

lemma pending_edges_0: "pending_edges E topo v = 0 \<longleftrightarrow> (\<forall>u. (u, v) \<in> set E \<longrightarrow> u \<in> set topo)"
  by (auto simp: pending_edges_def filter_empty_conv)

lemma topo_sorted_append:
  assumes "topo_sorted E xs" and "\<And>z u. z \<in> set zs \<Longrightarrow> (u, z) \<in> set E \<Longrightarrow> u \<in> set xs"
  shows "topo_sorted E (xs @ zs)"
  unfolding topo_sorted_def
proof (intro allI impI, elim conjE)
  fix ys v ws u assume eq: "xs @ zs = ys @ v # ws" and e: "(u, v) \<in> set E"
  from eq consider us where "xs = ys @ v # us" | us where "ys = xs @ us" "zs = us @ v # ws"
    by (auto simp: append_eq_append_conv2 append_eq_Cons_conv)
  then show "u \<in> set ys"
  proof cases
    case 1
    with assms(1) e show ?thesis by (auto simp: topo_sorted_def)
  next
    case 2
    with assms(2) [of v u] e show ?thesis by simp
  qed
qed

lemma visit_children_spec:
  assumes "\<forall>v \<in> S. dget ds v = Some (int (f v))" and "set vs \<subseteq> S"
    and "\<forall>v \<in> set vs. count_list vs v \<le> f v"
  shows "\<exists>ds' new. visit_children vs ds q = Inr (ds', q @ new) \<and>
           (\<forall>v \<in> S. dget ds' v = Some (int (f v - count_list vs v))) \<and>
           distinct new \<and> set new = {v \<in> set vs. f v = count_list vs v}"
  using assms
proof (induction vs arbitrary: ds q f)
  case (Cons v vs)
  let ?f = "f(v := f v - 1)" and ?q = "if f v = 1 then q @ [v] else q"
  from Cons.prems have v: "dget ds v = Some (int (f v))" "1 \<le> f v" by auto
  have c: "\<forall>w \<in> set vs. count_list vs w \<le> ?f w" using Cons.prems(3) by (auto split: if_splits)
  have "\<forall>w \<in> S. dget (dset v (int (f v) - 1) ds) w = Some (int (?f w))"
    using Cons.prems(1) v(2) by (auto simp: dict_simps)
  from Cons.IH [OF this _ c, of ?q] Cons.prems(2) obtain ds' new where
    IH: "visit_children vs (dset v (int (f v) - 1) ds) ?q = Inr (ds', ?q @ new)"
      "\<forall>w \<in> S. dget ds' w = Some (int (?f w - count_list vs w))"
      "distinct new" "set new = {w \<in> set vs. ?f w = count_list vs w}" by auto
  let ?new = "(if f v = 1 then [v] else []) @ new"
  have nv: "v \<notin> set vs" if "f v = 1"
    using that Cons.prems(3) by (force simp: count_list_0_iff)
  have "distinct ?new" using IH(3,4) nv by simp
  moreover have "set ?new = {w \<in> set (v # vs). f w = count_list (v # vs) w}"
  proof (cases "f v = 1")
    case True
    with nv have "v \<notin> set vs" by simp
    then have "count_list vs v = 0" by simp
    with True IH(4) \<open>v \<notin> set vs\<close> show ?thesis by auto
  next
    case False
    have "w \<in> set new \<longleftrightarrow> w \<in> set (v # vs) \<and> f w = count_list (v # vs) w" for w
    proof (cases "w = v")
      case True
      with IH(4) False v(2) count_list_0_iff [of vs v] show ?thesis by force
    next
      case wv: False
      with IH(4) show ?thesis by simp
    qed
    then have "set new = {w \<in> set (v # vs). f w = count_list (v # vs) w}" by blast
    with False show ?thesis by (simp only: if_False append_Nil)
  qed
  moreover have "visit_children (v # vs) ds q = Inr (ds', q @ ?new)"
    using IH(1) v by simp
  moreover have "\<forall>w \<in> S. dget ds' w = Some (int (f w - count_list (v # vs) w))"
    using IH(2) by auto
  ultimately show ?case by blast
qed auto

lemma kahn_inv_listed: "kahn_inv N E adj ds q topo \<Longrightarrow> v \<in> set (topo @ q) \<Longrightarrow> pending_edges E topo v = 0"
  unfolding kahn_inv_def by blast

lemma kahn_step:
  assumes inv: "kahn_inv N E adj ds (u # q) topo" and E: "set E \<subseteq> set N \<times> set N"
  shows "dget adj u = Some (succs E u)"
    and "\<exists>ds' q'. visit_children (succs E u) ds q = Inr (ds', q') \<and> kahn_inv N E adj ds' q' (topo @ [u])"
proof -
  let ?f = "pending_edges E topo" and ?t = "topo @ [u]"
  from inv show adj: "dget adj u = Some (succs E u)" by (auto simp: kahn_inv_def)
  from inv have u: "u \<notin> set topo" by (auto simp: kahn_inv_def)
  note split = pending_edges_append [OF u, of E]
  have S: "set (succs E u) \<subseteq> set N" using E by (auto simp: set_succs)
  have "\<forall>v \<in> set (succs E u). count_list (succs E u) v \<le> ?f v" by (simp add: split)
  with visit_children_spec [of "set N" ds ?f "succs E u" q] inv S
  obtain ds' new where new: "visit_children (succs E u) ds q = Inr (ds', q @ new)"
      "\<forall>v \<in> set N. dget ds' v = Some (int (?f v - count_list (succs E u) v))"
      "distinct new" "set new = {v \<in> set (succs E u). ?f v = count_list (succs E u) v}"
    by (auto simp: kahn_inv_def)
  have setnew: "set new = {v \<in> set (succs E u). pending_edges E ?t v = 0}"
    using new(4) by (simp add: split)
  have pos: "0 < ?f v" if "v \<in> set (succs E u)" for v
    using that count_list_0_iff [of "succs E u" v] by (simp add: split)
  have disj: "set new \<inter> set (topo @ u # q) = {}"
    using kahn_inv_listed [OF inv] pos setnew by fastforce
  have preds: "w \<in> set (?t @ q)" if "z \<in> set new" "(w, z) \<in> set E" for z w
    using that setnew by (auto simp: pending_edges_0)
  have "topo_sorted E ((?t @ q) @ new)"
  proof (rule topo_sorted_append)
    show "topo_sorted E (?t @ q)" using inv by (simp add: kahn_inv_def)
  qed (use preds in blast)
  moreover have "\<forall>v \<in> set N. v \<in> set (?t @ q @ new) \<longleftrightarrow> pending_edges E ?t v = 0"
  proof
    fix v assume "v \<in> set N"
    with inv have "v \<in> set (topo @ u # q) \<longleftrightarrow> ?f v = 0" by (auto simp: kahn_inv_def)
    moreover have "v \<notin> set (succs E u) \<Longrightarrow> ?f v = pending_edges E ?t v"
      by (simp add: split)
    ultimately show "v \<in> set (?t @ q @ new) \<longleftrightarrow> pending_edges E ?t v = 0"
      using setnew split [of v] by auto
  qed
  moreover have "distinct (?t @ q @ new)" and "set (?t @ q @ new) \<subseteq> set N"
    using inv disj new(3) S setnew by (auto simp: kahn_inv_def)
  moreover have "\<forall>v \<in> set N. dget ds' v = Some (int (pending_edges E ?t v))"
    using new(2) by (simp add: split)
  ultimately have "kahn_inv N E adj ds' (q @ new) ?t"
    using inv by (simp add: kahn_inv_def)
  with new(1) show "\<exists>ds' q'. visit_children (succs E u) ds q = Inr (ds', q') \<and> kahn_inv N E adj ds' q' ?t"
    by blast
qed

lemma kahn_loop_spec:
  assumes "kahn_inv N E adj ds q topo" and "set E \<subseteq> set N \<times> set N"
  shows "\<exists>ds' topo'. kahn_loop adj ds q topo = Inr topo' \<and> kahn_inv N E adj ds' [] topo'"
  using assms
proof (induction adj ds q topo rule: kahn_loop.induct)
  case (2 adj ds u q topo)
  from kahn_step [OF 2(2,3)] obtain ds' q' where step: "dget adj u = Some (succs E u)"
      "visit_children (succs E u) ds q = Inr (ds', q')" "kahn_inv N E adj ds' q' (topo @ [u])" by blast
  from 2(1) [OF step(1,2) refl step(3) 2(3)] step(1,2) show ?case by simp
qed auto

lemma link_edges_spec:
  assumes "\<forall>v \<in> set N. dget ds v = Some (int (length (filter (\<lambda>e. snd e = v) E0)))"
    and "\<forall>u \<in> set N. dget adj u = Some (succs E0 u)"
    and "\<forall>e \<in> set es. from_node_id e \<in> set N \<and> to_node_id e \<in> set N"
  shows "\<exists>ds' adj'. link_edges es ds adj = Inr (ds', adj') \<and> dkeys ds' = dkeys ds \<and>
     (\<forall>v \<in> set N. dget ds' v =
        Some (int (length (filter (\<lambda>e. snd e = v) (E0 @ map (\<lambda>e. (from_node_id e, to_node_id e)) es))))) \<and>
     (\<forall>u \<in> set N. dget adj' u = Some (succs (E0 @ map (\<lambda>e. (from_node_id e, to_node_id e)) es) u))"
  using assms
proof (induction es arbitrary: ds adj E0)
  case (Cons e es)
  let ?E = "E0 @ [(from_node_id e, to_node_id e)]"
  let ?ds = "dset (to_node_id e) (int (length (filter (\<lambda>d. snd d = to_node_id e) E0)) + 1) ds"
  let ?adj = "dset (from_node_id e) (succs E0 (from_node_id e) @ [to_node_id e]) adj"
  have "\<forall>v \<in> set N. dget ?ds v = Some (int (length (filter (\<lambda>e. snd e = v) ?E)))"
    and "\<forall>u \<in> set N. dget ?adj u = Some (succs ?E u)"
    using Cons.prems by (auto simp: dict_simps succs_def)
  from Cons.IH [OF this] Cons.prems(3) obtain ds' adj' where
    "link_edges es ?ds ?adj = Inr (ds', adj')" "dkeys ds' = dkeys ?ds"
    "\<forall>v \<in> set N. dget ds' v = Some (int (length (filter (\<lambda>e. snd e = v)
        (?E @ map (\<lambda>e. (from_node_id e, to_node_id e)) es))))"
    "\<forall>u \<in> set N. dget adj' u = Some (succs (?E @ map (\<lambda>e. (from_node_id e, to_node_id e)) es) u)"
    by auto
  moreover have "to_node_id e \<in> set (dkeys ds)"
    using Cons.prems by (intro dget_Some_key) auto
  ultimately show ?case using Cons.prems by (auto simp: dkeys_update_present)
qed auto

lemma dget_const_keys: "dget (map (\<lambda>n. (n, c)) ns) v = (if v \<in> set ns then Some c else None)"
  by (induction ns) auto

lemma set_edge_pairs: "(u, v) \<in> set (edge_pairs g) \<longleftrightarrow>
    (\<exists>e \<in> set (g_edges g). from_node_id e = u \<and> to_node_id e = v)"
  by (force simp: edge_pairs_def)

lemma wf_graph_pairs:
  "wf_graph g \<Longrightarrow> set (edge_pairs g) \<subseteq> set (dkeys (g_nodes g)) \<times> set (dkeys (g_nodes g))"
  unfolding wf_graph_def edge_pairs_def by fastforce

lemma roots_iff: "wf_dict ds \<Longrightarrow> v \<in> set (roots ds) \<longleftrightarrow> dget ds v = Some 0"
  by (force simp: roots_def wf_dict_def)

lemma distinct_roots: "wf_dict ds \<Longrightarrow> distinct (roots ds)"
  by (auto simp: roots_def wf_dict_def distinct_map inj_on_def)

lemma link_edges_kahn_inv:
  assumes "wf_graph g"
  shows "\<exists>ds adj. link_edges (g_edges g) (zero_degrees g) (empty_lists g) = Inr (ds, adj) \<and>
           dkeys ds = dkeys (g_nodes g) \<and>
           kahn_inv (dkeys (g_nodes g)) (edge_pairs g) adj ds (roots ds) []"
proof -
  let ?N = "dkeys (g_nodes g)" and ?E = "edge_pairs g"
  have start: "\<forall>v \<in> set ?N. dget (zero_degrees g) v = Some (int (length (filter (\<lambda>e. snd e = v) [])))"
    "\<forall>u \<in> set ?N. dget (empty_lists g) u = Some (succs [] u)"
    "\<forall>e \<in> set (g_edges g). from_node_id e \<in> set ?N \<and> to_node_id e \<in> set ?N"
    using assms unfolding zero_degrees_def empty_lists_def dget_const_keys
    by (simp_all add: succs_def wf_graph_def)
  from link_edges_spec [OF start] obtain ds adj where l: "link_edges (g_edges g) (zero_degrees g) (empty_lists g) = Inr (ds, adj)"
      "dkeys ds = dkeys (zero_degrees g)"
      "\<forall>v \<in> set ?N. dget ds v = Some (int (length (filter (\<lambda>e. snd e = v) ?E)))"
      "\<forall>u \<in> set ?N. dget adj u = Some (succs ?E u)"
    unfolding append_Nil edge_pairs_def [symmetric] by blast
  then have keys: "dkeys ds = ?N" by (simp add: zero_degrees_def comp_def)
  with assms have wf: "wf_dict ds" by (simp add: wf_graph_def wf_dict_def)
  have root: "v \<in> set (roots ds) \<longleftrightarrow> pending_edges ?E [] v = 0" if "v \<in> set ?N" for v
    using bspec [OF l(3) that] roots_iff [OF wf, of v] by (simp add: pending_edges_def)
  have sub: "set (roots ds) \<subseteq> set ?N" unfolding keys [symmetric] by (auto simp: roots_def)
  have "topo_sorted ?E ([] @ roots ds)"
  proof (rule topo_sorted_append)
    show "u \<in> set []" if "z \<in> set (roots ds)" "(u, z) \<in> set ?E" for z u
      using that root [of z] sub pending_edges_0 [of ?E "[]" z] by blast
  qed (simp add: topo_sorted_def)
  with l keys distinct_roots [OF wf] sub root show ?thesis
    by (simp add: kahn_inv_def pending_edges_def)
qed

lemma topo_sorted_acyclic:
  assumes "topo_sorted E xs" and "distinct xs" and "set E \<subseteq> UNIV \<times> set xs"
  shows "acyclic (set E)"
proof -
  define pos where "pos v = (LEAST i. i < length xs \<and> xs ! i = v)" for v
  have pos: "pos (xs ! i) = i" if "i < length xs" for i
    unfolding pos_def using that assms(2) by (auto simp: nth_eq_iff_index_eq intro!: Least_equality)
  have "(u, v) \<in> set E \<Longrightarrow> pos u < pos v" for u v
  proof -
    assume e: "(u, v) \<in> set E"
    with assms(3) obtain ys zs where xs: "xs = ys @ v # zs" by (auto dest!: split_list)
    with e assms(1) have "u \<in> set ys" by (auto simp: topo_sorted_def)
    then obtain i where "i < length ys" "ys ! i = u" by (auto simp: in_set_conv_nth)
    with xs pos [of i] pos [of "length ys"] show ?thesis by (simp add: nth_append)
  qed
  then have "set E \<subseteq> measure pos" by auto
  then show ?thesis by (meson acyclic_subset wf_acyclic wf_measure)
qed

lemma kahn_complete:
  assumes "kahn_inv N E adj ds [] topo" and "acyclic (set E)" and "set E \<subseteq> set N \<times> set N"
  shows "set topo = set N"
proof (rule ccontr)
  assume "set topo \<noteq> set N"
  with assms(1) obtain x where x: "x \<in> set N - set topo" by (auto simp: kahn_inv_def)
  have "wf (set E)" using assms(2) by (simp add: finite_acyclic_wf)
  from wfE_min [OF this x] obtain z where
    z: "z \<in> set N - set topo" "\<And>y. (y, z) \<in> set E \<Longrightarrow> y \<notin> set N - set topo" by blast
  with assms(3) have "pending_edges E topo z = 0" by (auto simp: pending_edges_0)
  with z(1) assms(1) show False by (auto simp: kahn_inv_def)
qed

text \<open>
  Validation of a graph whose edges join its own nodes: it returns the order it found exactly when
  the graph is acyclic, that order lists every node once with its predecessors before it, and on a
  cyclic graph the cycle error is the only outcome.
\<close>

lemma validate_dag_acyclic:
  assumes g: "wf_graph g" and ac: "acyclic (set (edge_pairs g))"
  shows "\<exists>topo. validate_dag g = Inr topo \<and> distinct topo \<and> set topo = set (dkeys (g_nodes g)) \<and>
                topo_sorted (edge_pairs g) topo"
proof -
  from link_edges_kahn_inv [OF g] kahn_loop_spec wf_graph_pairs [OF g]
  obtain ds adj ds' topo where l: "link_edges (g_edges g) (zero_degrees g) (empty_lists g) = Inr (ds, adj)"
      "kahn_loop adj ds (roots ds) [] = Inr topo"
      "kahn_inv (dkeys (g_nodes g)) (edge_pairs g) adj ds' [] topo" by blast
  then have inv: "set topo = set (dkeys (g_nodes g))" "distinct topo" "topo_sorted (edge_pairs g) topo"
    using kahn_complete [OF l(3) ac wf_graph_pairs [OF g]] by (simp_all add: kahn_inv_def)
  have "length topo = length (g_nodes g)"
    using inv(1,2) g by (metis distinct_card length_map wf_dict_def wf_graph_def)
  with l inv show ?thesis by (simp add: validate_dag_def)
qed

lemma validate_dag_cyclic:
  assumes g: "wf_graph g" and cyc: "\<not> acyclic (set (edge_pairs g))"
  shows "validate_dag g = Inl (ValueError ''Cyclic dependency detected!'')"
proof -
  from link_edges_kahn_inv [OF g] kahn_loop_spec wf_graph_pairs [OF g]
  obtain ds adj ds' topo where l: "link_edges (g_edges g) (zero_degrees g) (empty_lists g) = Inr (ds, adj)"
      "kahn_loop adj ds (roots ds) [] = Inr topo"
      "kahn_inv (dkeys (g_nodes g)) (edge_pairs g) adj ds' [] topo" by blast
  then have inv: "set topo \<subseteq> set (dkeys (g_nodes g))" "distinct topo" "topo_sorted (edge_pairs g) topo"
    by (simp_all add: kahn_inv_def)
  have "length topo \<noteq> length (g_nodes g)"
  proof
    assume "length topo = length (g_nodes g)"
    with inv(1,2) g have "set topo = set (dkeys (g_nodes g))"
      by (metis List.finite_set card_subset_eq distinct_card length_map wf_dict_def wf_graph_def)
    with inv wf_graph_pairs [OF g] have "acyclic (set (edge_pairs g))"
      by (intro topo_sorted_acyclic) auto
    with cyc show False by simp
  qed
  with l show ?thesis by (simp add: validate_dag_def)
qed

lemma check_edges_ok:
  "check_edges ns es = Inr () \<longleftrightarrow>
     (\<forall>e \<in> set es. from_node_id e \<in> set (dkeys ns) \<and> to_node_id e \<in> set (dkeys ns))"
  by (induction es) auto

definition builder_graph :: "workflow_builder \<Rightarrow> execution_graph" where
  "builder_graph b = \<lparr>g_nodes = b_nodes b, g_edges = b_edges b, g_version = ''1.0.0''\<rparr>"

lemma build_Inr_iff:
  assumes "wf_dict (b_nodes b)"
  shows "(\<exists>d. build b = Inr d) \<longleftrightarrow> wf_graph (builder_graph b) \<and> acyclic (set (edge_pairs (builder_graph b)))"
proof (cases "check_edges (b_nodes b) (b_edges b)")
  case (Inl e)
  with check_edges_ok [of "b_nodes b" "b_edges b"] have "\<not> wf_graph (builder_graph b)"
    by (auto simp: wf_graph_def builder_graph_def)
  with Inl show ?thesis by (simp add: build_def)
next
  case (Inr x)
  then have wf: "wf_graph (builder_graph b)"
    using assms check_edges_ok [of "b_nodes b" "b_edges b"] by (simp add: wf_graph_def builder_graph_def)
  with Inr validate_dag_acyclic [OF wf] validate_dag_cyclic [OF wf] show ?thesis
    by (cases "acyclic (set (edge_pairs (builder_graph b)))")
      (auto simp: build_def Let_def builder_graph_def)
qed

lemma build_graph: "build b = Inr d \<Longrightarrow> wd_graph d = builder_graph b \<and> wd_policy d = b_workflow_policy b"
  by (auto simp: build_def Let_def builder_graph_def bindE_def split: sum.splits)

section \<open>Compiled workflows are acyclic\<close>

text \<open>
  A task reference is obtained only as the result of an earlier call, so the arguments of each call
  name calls before it.
\<close>

fun traced :: "string list \<Rightarrow> task_call list \<Rightarrow> bool" where
  "traced seen [] \<longleftrightarrow> True"
| "traced seen (c # cs) \<longleftrightarrow> list_all (\<lambda>p. p \<in> set seen) (parents_of (call_args c)) \<and>
                            traced (seen @ [func_name c]) cs"

definition builder_ok :: "workflow_builder \<Rightarrow> bool" where
  "builder_ok b \<longleftrightarrow> wf_graph (builder_graph b) \<and>
     topo_sorted (edge_pairs (builder_graph b)) (dkeys (b_nodes b))"

lemma connect_parents_edges:
  "b_nodes (connect_parents ps i b) = b_nodes b \<and>
   edge_pairs (builder_graph (connect_parents ps i b)) =
     edge_pairs (builder_graph b) @ map (\<lambda>p. (p, i)) ps"
  by (induction ps arbitrary: b) (auto simp: connect_def edge_pairs_def builder_graph_def)

lemma topo_sorted_snoc:
  assumes "topo_sorted E xs" and "set E \<subseteq> set xs \<times> set xs" and "x \<notin> set xs" and "set ps \<subseteq> set xs"
  shows "topo_sorted (E @ map (\<lambda>p. (p, x)) ps) (xs @ [x])"
proof (rule topo_sorted_append)
  show "topo_sorted (E @ map (\<lambda>p. (p, x)) ps) xs"
    using assms(1,3) unfolding topo_sorted_def by force
qed (use assms(2-4) in auto)

lemma wf_graph_iff: "wf_graph g \<longleftrightarrow> wf_dict (g_nodes g) \<and>
    set (edge_pairs g) \<subseteq> set (dkeys (g_nodes g)) \<times> set (dkeys (g_nodes g))"
  by (simp add: wf_graph_def edge_pairs_def image_subset_iff)

lemma trace_call_ok:
  assumes ok: "builder_ok b" and new: "func_name c \<notin> set (dkeys (b_nodes b))"
    and "list_all (\<lambda>p. p \<in> set (dkeys (b_nodes b))) (parents_of (call_args c))"
  shows "\<exists>b'. trace_call c b = Inr (TaskReference (func_name c), b') \<and> builder_ok b' \<and>
              dkeys (b_nodes b') = dkeys (b_nodes b) @ [func_name c]"
proof -
  from new obtain n b1 where add: "add_node (func_name c) (call_executor c)
      (Some [(''callable_name'', PStr (func_name c))]) (call_policy c) (call_caps c) None
      (call_checkpoint c) (call_approval c) b = Inr b1"
      "b_nodes b1 = b_nodes b @ [(func_name c, n)]" "b_edges b1 = b_edges b"
    by (auto simp: add_node_def update_fresh_append)
  let ?ps = "parents_of (call_args c)"
  let ?b = "connect_parents ?ps (func_name c) b1"
  have nodes: "b_nodes ?b = b_nodes b @ [(func_name c, n)]"
    using add(2) by (simp add: connect_parents_edges)
  have pairs: "edge_pairs (builder_graph ?b) =
      edge_pairs (builder_graph b) @ map (\<lambda>p. (p, func_name c)) ?ps"
    using connect_parents_edges [of ?ps "func_name c" b1] add(3)
    by (simp add: edge_pairs_def builder_graph_def)
  have ps: "set ?ps \<subseteq> set (dkeys (b_nodes b))" using assms(3) by (auto simp: list_all_iff)
  have "set (edge_pairs (builder_graph b)) \<subseteq> set (dkeys (b_nodes b)) \<times> set (dkeys (b_nodes b))"
    using ok by (simp add: builder_ok_def wf_graph_iff builder_graph_def)
  with ok new ps pairs nodes have "builder_ok ?b"
    using topo_sorted_snoc [of "edge_pairs (builder_graph b)" "dkeys (b_nodes b)" "func_name c" ?ps]
    by (auto simp: builder_ok_def wf_graph_iff builder_graph_def wf_dict_def)
  with add(1) nodes show ?thesis by (simp add: trace_call_def)
qed

lemma trace_body_ok:
  assumes "builder_ok b" and "traced (dkeys (b_nodes b)) cs"
  shows "if distinct (dkeys (b_nodes b) @ map func_name cs)
         then \<exists>b'. trace_body cs b = Inr b' \<and> builder_ok b' \<and>
                   dkeys (b_nodes b') = dkeys (b_nodes b) @ map func_name cs
         else trace_body cs b = Inl (ValueError ''node already exists'')"
  using assms
proof (induction cs arbitrary: b)
  case Nil
  then show ?case by (simp add: builder_ok_def wf_graph_def builder_graph_def wf_dict_def)
next
  case (Cons c cs)
  show ?case
  proof (cases "func_name c \<in> set (dkeys (b_nodes b))")
    case True
    then show ?thesis by (auto simp: trace_call_def add_node_def)
  next
    case False
    with Cons.prems trace_call_ok [of b c] obtain b' where
      b': "trace_call c b = Inr (TaskReference (func_name c), b')" "builder_ok b'"
        "dkeys (b_nodes b') = dkeys (b_nodes b) @ [func_name c]" by auto
    with Cons.IH [of b'] Cons.prems(2) show ?thesis by (auto split: if_splits)
  qed
qed

lemma compile_workflow_iff:
  assumes "traced [] calls"
  shows "(\<exists>d. compile_workflow name calls = Inr d) \<longleftrightarrow> distinct (map func_name calls)"
proof -
  have ok: "builder_ok (builder_init name)"
    by (simp add: builder_ok_def builder_init_def wf_graph_def builder_graph_def topo_sorted_def)
  have init: "dkeys (b_nodes (builder_init name)) = []" by (simp add: builder_init_def)
  note body = trace_body_ok [OF ok, unfolded init, OF assms]
  show ?thesis
  proof (cases "distinct (map func_name calls)")
    case True
    with body obtain b' where b': "trace_body calls (builder_init name) = Inr b'" "builder_ok b'"
      by auto
    from b'(2) have "wf_graph (builder_graph b')" and "wf_dict (b_nodes b')"
      by (simp_all add: builder_ok_def wf_graph_def builder_graph_def)
    moreover from b'(2) have "acyclic (set (edge_pairs (builder_graph b')))"
      by (intro topo_sorted_acyclic [where xs = "dkeys (b_nodes b')"])
        (auto simp: builder_ok_def wf_graph_iff builder_graph_def wf_dict_def)
    ultimately show ?thesis using True b'(1) build_Inr_iff [of b'] by (simp add: compile_workflow_def)
  next
    case False
    with body show ?thesis by (simp add: compile_workflow_def)
  qed
qed

end
