(* ===== verification/Workflow_Planner.thy ===== *)
theory Workflow_Planner
  imports Workflow_Builder
begin

text \<open>
  The workflow planner (\<^verbatim>\<open>workflow/planner.py\<close>): the level of every node, the phases that group
  nodes of one level, and the critical path. The lemmas show that on an acyclic graph the planner
  returns, that a node's level is the length of the longest chain of dependencies that ends in it,
  and that the critical path is such a chain of maximal length.
\<close>

section \<open>Levels\<close>

type_synonym levels = "(string \<times> int) list"

fun level_children ::
  "string \<Rightarrow> string list \<Rightarrow> levels \<Rightarrow> degrees \<Rightarrow> string list \<Rightarrow>
   py_error + (levels \<times> degrees \<times> string list)" where
  "level_children u [] levels in_degree queue = Inr (levels, in_degree, queue)"
| "level_children u (v # vs) levels in_degree queue =
     (case dget levels v of
        None \<Rightarrow> Inl (KeyError v)
      | Some lv \<Rightarrow>
          (case dget levels u of
             None \<Rightarrow> Inl (KeyError u)
           | Some lu \<Rightarrow>
               (case dget in_degree v of
                  None \<Rightarrow> Inl (KeyError v)
                | Some d \<Rightarrow>
                    level_children u vs (dset v (max lv (lu + 1)) levels) (dset v (d - 1) in_degree)
                      (if d - 1 = 0 then queue @ [v] else queue))))"

lemma level_children_visits:
  "level_children u vs lv ds q = Inr (lv', ds', q') \<Longrightarrow> visit_children vs ds q = Inr (ds', q')"
  by (induction u vs lv ds q rule: level_children.induct) (auto split: option.splits)

function level_loop ::
  "adjacency \<Rightarrow> degrees \<Rightarrow> string list \<Rightarrow> levels \<Rightarrow> py_error + levels" where
  "level_loop adj in_degree [] levels = Inr levels"
| "level_loop adj in_degree (u # queue) levels =
     (case dget adj u of
        None \<Rightarrow> Inl (KeyError u)
      | Some vs \<Rightarrow>
          (case level_children u vs levels in_degree queue of
             Inl e \<Rightarrow> Inl e
           | Inr (levels', in_degree', queue') \<Rightarrow> level_loop adj in_degree' queue' levels'))"
  by pat_completeness auto
termination
  by (relation "measure (\<lambda>(adj, ds, q, lv). kahn_measure ds q)")
    (auto dest!: level_children_visits visit_children_measure simp: kahn_measure_def)

definition resolve_levels :: "execution_graph \<Rightarrow> py_error + levels" where
  "resolve_levels g =
     bindE (link_edges (g_edges g) (zero_degrees g) (empty_lists g)) (\<lambda>(in_degree, adj).
       level_loop adj in_degree (roots in_degree) (zero_degrees g))"

section \<open>Critical path and plan\<close>

fun py_max :: "int list \<Rightarrow> py_error + int" where
  "py_max [] = Inl (ValueError ''max() arg is an empty sequence'')"
| "py_max (x # xs) = Inr (fold max xs x)"

text \<open>\<open>max(xs, key=f)\<close> on a list of keyed elements: the first one with the largest key.\<close>

fun max_by_key :: "int \<times> 'a \<Rightarrow> (int \<times> 'a) list \<Rightarrow> 'a" where
  "max_by_key best [] = snd best"
| "max_by_key best (x # xs) = max_by_key (if fst best < fst x then x else best) xs"

fun link_parents :: "graph_edge list \<Rightarrow> adjacency \<Rightarrow> py_error + adjacency" where
  "link_parents [] parents = Inr parents"
| "link_parents (e # es) parents =
     (case dget parents (to_node_id e) of
        None \<Rightarrow> Inl (KeyError (to_node_id e))
      | Some ps \<Rightarrow> link_parents es (dset (to_node_id e) (ps @ [from_node_id e]) parents))"

definition keyed_parents :: "levels \<Rightarrow> string list \<Rightarrow> py_error + (int \<times> string) list" where
  "keyed_parents levels ps =
     mapE (\<lambda>p. case dget levels p of None \<Rightarrow> Inl (KeyError p) | Some l \<Rightarrow> Inr (l, p)) ps"

text \<open>
  The walk from an end node to a root. The loop condition is the truth of the node's name, so it
  stops at a node named by the empty string; on a cycle of parents it never stops, which is the
  value \<^const>\<open>None\<close>.
\<close>

partial_function (option) critical_walk ::
  "adjacency \<Rightarrow> levels \<Rightarrow> string \<Rightarrow> string list \<Rightarrow> (py_error + string list) option" where
  "critical_walk parents levels current path =
     (if current = [] then Some (Inr path)
      else case dget parents current of
             None \<Rightarrow> Some (Inr (path @ [current]))
           | Some [] \<Rightarrow> Some (Inr (path @ [current]))
           | Some (p # ps) \<Rightarrow>
               (case keyed_parents levels (p # ps) of
                  Inl e \<Rightarrow> Some (Inl e)
                | Inr kps \<Rightarrow>
                    critical_walk parents levels (max_by_key (hd kps) (tl kps)) (path @ [current])))"

definition calculate_critical_path ::
  "execution_graph \<Rightarrow> levels \<Rightarrow> (py_error + string list) option" where
  "calculate_critical_path g levels =
     (if levels = [] then Some (Inr [])
      else case py_max (dvalues levels) of
             Inl e \<Rightarrow> Some (Inl e)
           | Inr max_lvl \<Rightarrow>
               (case link_parents (g_edges g) (empty_lists g) of
                  Inl e \<Rightarrow> Some (Inl e)
                | Inr parents \<Rightarrow>
                    (case map fst (filter (\<lambda>kl. snd kl = max_lvl) levels) of
                       [] \<Rightarrow> Some (Inl IndexError)
                     | end_node # _ \<Rightarrow>
                         map_option (map_sum id rev) (critical_walk parents levels end_node []))))"

definition plan :: "workflow_definition \<Rightarrow> (py_error + execution_plan) option" where
  "plan d =
     (let graph = wd_graph d
      in if g_nodes graph = [] then Some (Inr \<lparr>phases = [], critical_path = [], pl_version = ''1.0.0''\<rparr>)
         else case resolve_levels graph of
                Inl e \<Rightarrow> Some (Inl e)
              | Inr levels \<Rightarrow>
                  (case py_max (dvalues levels) of
                     Inl e \<Rightarrow> Some (Inl e)
                   | Inr max_level \<Rightarrow>
                       map_option (map_sum id (\<lambda>cp.
                         \<lparr>phases = map (\<lambda>l. \<lparr>node_ids = map fst (filter (\<lambda>kl. snd kl = l) levels),
                                              phase_index = l\<rparr>) [0..max_level],
                          critical_path = cp, pl_version = ''1.0.0''\<rparr>))
                         (calculate_critical_path graph levels)))"

section \<open>Levels are longest distances\<close>

text \<open>
  \<open>level_fix E D L v\<close>: the level of \<open>v\<close> is one more than the largest level of its predecessors
  among \<open>D\<close>, and zero when it has none.
\<close>

definition level_fix :: "(string \<times> string) list \<Rightarrow> string set \<Rightarrow> (string \<Rightarrow> int) \<Rightarrow> string \<Rightarrow> bool" where
  "level_fix E D L v \<longleftrightarrow>
     (\<forall>u \<in> D. (u, v) \<in> set E \<longrightarrow> L u + 1 \<le> L v) \<and> 0 \<le> L v \<and>
     (L v = 0 \<or> (\<exists>u \<in> D. (u, v) \<in> set E \<and> L v = L u + 1))"

lemma level_children_spec:
  assumes "visit_children vs ds q = Inr (ds', q')" and "\<forall>x \<in> S. dget lv x = Some (L x)"
    and "set vs \<subseteq> S" and "u \<in> S" and "u \<notin> set vs"
  shows "\<exists>lv'. level_children u vs lv ds q = Inr (lv', ds', q') \<and> dkeys lv' = dkeys lv \<and>
     (\<forall>x \<in> S. dget lv' x = Some (if x \<in> set vs then max (L x) (L u + 1) else L x))"
  using assms
proof (induction vs arbitrary: lv ds q L)
  case (Cons v vs)
  let ?L = "L(v := max (L v) (L u + 1))" and ?lv = "dset v (max (L v) (L u + 1)) lv"
  from Cons.prems(1) obtain d where d: "dget ds v = Some d"
    "visit_children vs (dset v (d - 1) ds) (if d - 1 = 0 then q @ [v] else q) = Inr (ds', q')"
    by (auto split: option.splits)
  have "\<forall>x \<in> S. dget ?lv x = Some (?L x)" using Cons.prems(2) by (auto simp: dict_simps)
  from Cons.IH [OF d(2) this] Cons.prems obtain lv' where
    lv': "level_children u vs ?lv (dset v (d - 1) ds) (if d - 1 = 0 then q @ [v] else q) = Inr (lv', ds', q')"
      "dkeys lv' = dkeys ?lv"
      "\<forall>x \<in> S. dget lv' x = Some (if x \<in> set vs then max (?L x) (?L u + 1) else ?L x)" by auto
  have "v \<in> set (dkeys lv)" using Cons.prems by (intro dget_Some_key) auto
  then have "dkeys lv' = dkeys lv" using lv'(2) by (simp add: dkeys_update_present)
  moreover have "level_children u (v # vs) lv ds q = Inr (lv', ds', q')"
    using lv'(1) d(1) Cons.prems by simp
  moreover have "\<forall>x \<in> S. dget lv' x = Some (if x \<in> set (v # vs) then max (L x) (L u + 1) else L x)"
    using lv'(3) Cons.prems(5) by auto
  ultimately show ?case by blast
qed auto

lemma level_fix_step:
  assumes lf: "\<forall>v. level_fix E D L v" and u: "(u, u) \<notin> set E" and d: "\<forall>x \<in> D. (u, x) \<notin> set E"
  shows "\<forall>v. level_fix E (insert u D) (\<lambda>x. if x \<in> set (succs E u) then max (L x) (L u + 1) else L x) v"
proof
  fix v
  from lf have v: "level_fix E D L v" by simp
  show "level_fix E (insert u D) (\<lambda>x. if x \<in> set (succs E u) then max (L x) (L u + 1) else L x) v"
  proof (cases "(u, v) \<in> set E")
    case True
    with v u d show ?thesis unfolding level_fix_def set_succs
      by (cases "L u + 1 \<le> L v") (force simp: max_def)+
  next
    case False
    with v u d show ?thesis unfolding level_fix_def set_succs by force
  qed
qed

lemma level_loop_spec:
  assumes "kahn_inv N E adj ds q topo" and "set E \<subseteq> set N \<times> set N"
    and "\<forall>x \<in> set N. dget lv x = Some (L x)" and "\<forall>v. level_fix E (set topo) L v"
  shows "\<exists>lv' L' ds' topo'. level_loop adj ds q lv = Inr lv' \<and> dkeys lv' = dkeys lv \<and>
     kahn_inv N E adj ds' [] topo' \<and>
     (\<forall>x \<in> set N. dget lv' x = Some (L' x)) \<and> (\<forall>v. level_fix E (set topo') L' v)"
  using assms
proof (induction adj ds q lv arbitrary: topo L rule: level_loop.induct)
  case (2 adj ds u q lv)
  let ?L = "\<lambda>x. if x \<in> set (succs E u) then max (L x) (L u + 1) else L x"
  note inv = 2(2) and E = 2(3)
  from kahn_step [OF inv E] obtain ds' q' where step: "dget adj u = Some (succs E u)"
      "visit_children (succs E u) ds q = Inr (ds', q')" "kahn_inv N E adj ds' q' (topo @ [u])" by blast
  have listed: "(u, x) \<notin> set E" if "x \<in> set (topo @ u # q)" for x
  proof
    assume "(u, x) \<in> set E"
    with kahn_inv_listed [OF inv that] have "u \<in> set topo" by (simp add: pending_edges_0)
    with inv show False by (simp add: kahn_inv_def)
  qed
  have "u \<in> set N" using inv by (simp add: kahn_inv_def)
  then obtain lv' where lv': "level_children u (succs E u) lv ds q = Inr (lv', ds', q')"
      "dkeys lv' = dkeys lv" "\<forall>x \<in> set N. dget lv' x = Some (?L x)"
    using level_children_spec [OF step(2) 2(4), of u] E listed [of u] by (force simp: set_succs)
  have "\<forall>v. level_fix E (set (topo @ [u])) ?L v"
    using level_fix_step [OF 2(5), of u] listed by simp
  from 2(1) [OF step(1) lv'(1) refl refl step(3) E lv'(3) this] step(1) lv' show ?case by simp
qed auto

lemma resolve_levels_spec:
  assumes g: "wf_graph g" and ac: "acyclic (set (edge_pairs g))"
  shows "\<exists>levels L. resolve_levels g = Inr levels \<and> dkeys levels = dkeys (g_nodes g) \<and>
     (\<forall>x \<in> set (dkeys (g_nodes g)). dget levels x = Some (L x)) \<and>
     (\<forall>v. level_fix (edge_pairs g) UNIV L v)"
proof -
  let ?N = "dkeys (g_nodes g)" and ?E = "edge_pairs g"
  from link_edges_kahn_inv [OF g] obtain ds adj where
    l: "link_edges (g_edges g) (zero_degrees g) (empty_lists g) = Inr (ds, adj)"
      "kahn_inv ?N ?E adj ds (roots ds) []" by blast
  have z: "\<forall>x \<in> set ?N. dget (zero_degrees g) x = Some 0" "\<forall>v. level_fix ?E (set []) (\<lambda>_. 0) v"
    unfolding zero_degrees_def dget_const_keys by (simp_all add: level_fix_def)
  from level_loop_spec [OF l(2) wf_graph_pairs [OF g] z] obtain lv L ds' topo where
    r: "level_loop adj ds (roots ds) (zero_degrees g) = Inr lv" "dkeys lv = dkeys (zero_degrees g)"
      "kahn_inv ?N ?E adj ds' [] topo" "\<forall>x \<in> set ?N. dget lv x = Some (L x)"
      "\<forall>v. level_fix ?E (set topo) L v" by blast
  have topo: "set topo = set ?N" using kahn_complete [OF r(3) ac wf_graph_pairs [OF g]] .
  have "level_fix ?E UNIV L v" for v
  proof -
    have "u \<in> set topo" if "(u, v) \<in> set ?E" for u
      using that wf_graph_pairs [OF g] topo by auto
    with r(5) [rule_format, of v] show ?thesis unfolding level_fix_def by blast
  qed
  moreover have "dkeys lv = ?N" using r(2) by (simp add: zero_degrees_def comp_def)
  ultimately show ?thesis using l(1) r(1,4) by (auto simp: resolve_levels_def)
qed

text \<open>A chain of dependencies: consecutive nodes joined by edges.\<close>

fun chain :: "(string \<times> string) list \<Rightarrow> string list \<Rightarrow> bool" where
  "chain E [] \<longleftrightarrow> False"
| "chain E [v] \<longleftrightarrow> True"
| "chain E (u # v # vs) \<longleftrightarrow> (u, v) \<in> set E \<and> chain E (v # vs)"

lemma chain_snoc: "chain E (xs @ [u, v]) \<longleftrightarrow> chain E (xs @ [u]) \<and> (u, v) \<in> set E"
proof (induction xs)
  case (Cons x xs)
  then show ?case by (cases xs) auto
qed simp

lemma chain_level:
  assumes "\<forall>v. level_fix E UNIV L v"
  shows "chain E xs \<Longrightarrow> int (length xs) \<le> L (last xs) + 1"
proof (induction xs rule: rev_induct)
  case (snoc v xs)
  show ?case
  proof (cases xs rule: rev_cases)
    case Nil
    with assms show ?thesis by (simp add: level_fix_def)
  next
    case (snoc ys u)
    with snoc.prems have "chain E xs" "(u, v) \<in> set E" by (simp_all add: chain_snoc)
    with snoc.IH assms snoc show ?thesis by (force simp: level_fix_def)
  qed
qed simp

lemma link_parents_spec:
  assumes "\<forall>v \<in> set N. dget ps v = Some (map fst (filter (\<lambda>e. snd e = v) E0))"
    and "\<forall>e \<in> set es. to_node_id e \<in> set N"
  shows "\<exists>ps'. link_parents es ps = Inr ps' \<and> (\<forall>v \<in> set N. dget ps' v =
     Some (map fst (filter (\<lambda>e. snd e = v) (E0 @ map (\<lambda>e. (from_node_id e, to_node_id e)) es))))"
  using assms
proof (induction es arbitrary: ps E0)
  case (Cons e es)
  let ?E = "E0 @ [(from_node_id e, to_node_id e)]"
  let ?ps = "dset (to_node_id e) (map fst (filter (\<lambda>d. snd d = to_node_id e) E0) @ [from_node_id e]) ps"
  have "\<forall>v \<in> set N. dget ?ps v = Some (map fst (filter (\<lambda>e. snd e = v) ?E))"
    using Cons.prems by (auto simp: dict_simps)
  from Cons.IH [OF this] Cons.prems show ?case by simp
qed auto

lemma max_by_key_max:
  "\<exists>k. (k, max_by_key best xs) \<in> set (best # xs) \<and> (\<forall>y \<in> set (best # xs). fst y \<le> k)"
proof (induction xs arbitrary: best)
  case (Cons x xs)
  from Cons.IH [of "if fst best < fst x then x else best"] show ?case
    by (auto split: if_splits)
qed (cases best, auto)

lemma keyed_parents_Inr:
  "(\<And>p. p \<in> set ps \<Longrightarrow> dget lv p = Some (L p)) \<Longrightarrow> keyed_parents lv ps = Inr (map (\<lambda>p. (L p, p)) ps)"
  unfolding keyed_parents_def by (rule mapE_Inr) simp

lemma best_parent:
  assumes "\<forall>v. level_fix E UNIV L v" and "map fst (filter (\<lambda>e. snd e = v) E) = p # ps"
  shows "(max_by_key (L p, p) (map (\<lambda>p. (L p, p)) ps), v) \<in> set E"
    and "L (max_by_key (L p, p) (map (\<lambda>p. (L p, p)) ps)) = L v - 1"
proof -
  let ?b = "max_by_key (L p, p) (map (\<lambda>p. (L p, p)) ps)"
  have preds: "u \<in> set (p # ps) \<longleftrightarrow> (u, v) \<in> set E" for u
    unfolding assms(2) [symmetric] by force
  from max_by_key_max [of "(L p, p)" "map (\<lambda>p. (L p, p)) ps"]
  have b: "?b \<in> set (p # ps)" "\<forall>u \<in> set (p # ps). L u \<le> L ?b" by auto
  with preds show e: "(?b, v) \<in> set E" by blast
  from assms(1) e have le: "L ?b + 1 \<le> L v" and "0 \<le> L ?b" unfolding level_fix_def by blast+
  then have "L v \<noteq> 0" by simp
  with assms(1) obtain u where "(u, v) \<in> set E" "L v = L u + 1" unfolding level_fix_def by blast
  moreover from this(1) have "L u \<le> L ?b" using b(2) preds [of u] by blast
  ultimately show "L ?b = L v - 1" using le by linarith
qed

text \<open>The walk back from a node of level \<open>n\<close> visits \<open>n + 1\<close> nodes and ends at a root.\<close>

lemma critical_walk_spec:
  assumes lf: "\<forall>v. level_fix E UNIV L v" and E: "set E \<subseteq> set N \<times> set N" and ne: "[] \<notin> set N"
    and lv: "\<forall>x \<in> set N. dget lv x = Some (L x)"
    and ps: "\<forall>v \<in> set N. dget parents v = Some (map fst (filter (\<lambda>e. snd e = v) E))"
  shows "v \<in> set N \<Longrightarrow> L v = int n \<Longrightarrow>
    \<exists>xs. critical_walk parents lv v path = Some (Inr (path @ rev xs)) \<and> chain E xs \<and>
         last xs = v \<and> length xs = n + 1 \<and> (\<forall>u. (u, hd xs) \<notin> set E)"
proof (induction n arbitrary: v path)
  case 0
  have "(u, v) \<notin> set E" for u
  proof
    assume "(u, v) \<in> set E"
    with lf have "L u + 1 \<le> L v" "0 \<le> L u" unfolding level_fix_def by blast+
    with 0 show False by simp
  qed
  moreover from this have "map fst (filter (\<lambda>e. snd e = v) E) = []" by (auto simp: filter_empty_conv)
  then have "critical_walk parents lv v path = Some (Inr (path @ [v]))"
    using 0 ps ne by (subst critical_walk.simps) auto
  ultimately show ?case by (intro exI [of _ "[v]"]) simp
next
  case (Suc n)
  have "L v \<noteq> 0" using Suc.prems by simp
  with lf obtain w where "(w, v) \<in> set E" unfolding level_fix_def by blast
  then have "map fst (filter (\<lambda>e. snd e = v) E) \<noteq> []" by (force simp: filter_empty_conv)
  then obtain p qs where pq: "map fst (filter (\<lambda>e. snd e = v) E) = p # qs"
    by (meson list.exhaust)
  let ?b = "max_by_key (L p, p) (map (\<lambda>p. (L p, p)) qs)"
  from best_parent [OF lf pq] have b: "(?b, v) \<in> set E" "L ?b = L v - 1" by simp_all
  have "u \<in> set N" if "u \<in> set (p # qs)" for u
    using that E unfolding pq [symmetric] by auto
  then have "keyed_parents lv (p # qs) = Inr (map (\<lambda>p. (L p, p)) (p # qs))"
    using lv by (intro keyed_parents_Inr) auto
  then have step: "critical_walk parents lv v path = critical_walk parents lv ?b (path @ [v])"
    using Suc.prems ps ne pq by (subst critical_walk.simps) auto
  from b E Suc.prems(2) have "?b \<in> set N" "L ?b = int n" by auto
  from Suc.IH [OF this, of "path @ [v]"] obtain xs where
    xs: "critical_walk parents lv ?b (path @ [v]) = Some (Inr ((path @ [v]) @ rev xs))" "chain E xs"
      "last xs = ?b" "length xs = n + 1" "\<forall>u. (u, hd xs) \<notin> set E" by blast
  from xs(2,3) b(1) have "chain E (xs @ [v])"
    by (cases xs rule: rev_cases) (auto simp: chain_snoc)
  with xs step show ?case by (intro exI [of _ "xs @ [v]"]) (cases xs, auto)
qed

lemma fold_max: "fold max xs (x :: int) = Max (set (x # xs))"
  by (metis Max.set_eq_fold)

lemma py_max_Max: "xs \<noteq> [] \<Longrightarrow> py_max xs = Inr (Max (set xs))"
  by (cases xs) (simp_all add: fold_max)

lemma dvalues_levels:
  assumes "wf_dict lv" and "\<forall>x \<in> set (dkeys lv). dget lv x = Some (L x)"
  shows "lv = map (\<lambda>x. (x, L x)) (dkeys lv)"
  using assms
proof (induction lv)
  case (Cons a lv)
  have "dget lv x = Some (L x)" if "x \<in> set (dkeys lv)" for x
    using that Cons.prems by (cases a) (auto simp: wf_dict_def split: if_splits)
  moreover have "wf_dict lv" using Cons.prems(1) by (simp add: wf_dict_def)
  ultimately have "lv = map (\<lambda>x. (x, L x)) (dkeys lv)" using Cons.IH by blast
  with Cons.prems(2) show ?case by (cases a) simp
qed simp

text \<open>
  The plan of an acyclic graph whose nodes have non-empty names. \<open>L\<close> is the level of a node.
\<close>

lemma plan_spec:
  assumes g: "wf_graph (wd_graph d)" and ac: "acyclic (set (edge_pairs (wd_graph d)))"
    and ne: "[] \<notin> set (dkeys (g_nodes (wd_graph d)))" and nodes: "g_nodes (wd_graph d) \<noteq> []"
  shows "\<exists>L p. plan d = Some (Inr p) \<and> (\<forall>v. level_fix (edge_pairs (wd_graph d)) UNIV L v) \<and>
     phases p = map (\<lambda>l. \<lparr>node_ids = filter (\<lambda>x. L x = l) (dkeys (g_nodes (wd_graph d))), phase_index = l\<rparr>)
                  [0..Max (L ` set (dkeys (g_nodes (wd_graph d))))] \<and>
     chain (edge_pairs (wd_graph d)) (critical_path p) \<and>
     int (length (critical_path p)) = Max (L ` set (dkeys (g_nodes (wd_graph d)))) + 1 \<and>
     (\<forall>u. (u, hd (critical_path p)) \<notin> set (edge_pairs (wd_graph d)))"
proof -
  let ?g = "wd_graph d"
  let ?N = "dkeys (g_nodes ?g)" and ?E = "edge_pairs ?g"
  from resolve_levels_spec [OF g ac] obtain lv L where
    r: "resolve_levels ?g = Inr lv" "dkeys lv = ?N" "\<forall>x \<in> set ?N. dget lv x = Some (L x)"
      "\<forall>v. level_fix ?E UNIV L v" by blast
  have lv: "lv = map (\<lambda>x. (x, L x)) ?N"
    using dvalues_levels [of lv L] r(2,3) g by (simp add: wf_graph_def wf_dict_def)
  let ?m = "Max (L ` set ?N)"
  have mx: "py_max (dvalues lv) = Inr ?m"
    using nodes lv by (subst py_max_Max) (auto simp: image_image)
  have "\<forall>v \<in> set ?N. dget (empty_lists ?g) v = Some (map fst (filter (\<lambda>e. snd e = v) []))"
    unfolding empty_lists_def dget_const_keys by simp
  from link_parents_spec [OF this, of "g_edges ?g"] g obtain ps where
    ps: "link_parents (g_edges ?g) (empty_lists ?g) = Inr ps"
      "\<forall>v \<in> set ?N. dget ps v = Some (map fst (filter (\<lambda>e. snd e = v) ?E))"
    unfolding append_Nil edge_pairs_def [symmetric] wf_graph_def by blast
  have "?m \<in> L ` set ?N" using nodes by (intro Max_in) auto
  then have "filter (\<lambda>x. L x = ?m) ?N \<noteq> []" unfolding filter_empty_conv by (metis imageE)
  then obtain v vs where v: "filter (\<lambda>x. L x = ?m) ?N = v # vs" by (meson list.exhaust)
  then have "v \<in> set (filter (\<lambda>x. L x = ?m) ?N)" by simp
  then have vN: "v \<in> set ?N" "L v = ?m" unfolding set_filter by blast+
  have "0 \<le> L v" using r(4) by (simp add: level_fix_def)
  then have "L v = int (nat ?m)" using vN(2) by simp
  from critical_walk_spec [OF r(4) wf_graph_pairs [OF g] ne r(3) ps(2) vN(1) this, of "[]"]
  obtain xs where xs: "critical_walk ps lv v [] = Some (Inr (rev xs))" "chain ?E xs"
    "length xs = nat ?m + 1" "\<forall>u. (u, hd xs) \<notin> set ?E" by auto
  have ends: "map fst (filter (\<lambda>kl. snd kl = l) lv) = filter (\<lambda>x. L x = l) ?N" for l
    by (subst lv) (simp add: filter_map comp_def)
  have "lv \<noteq> []" using lv nodes by (metis map_is_Nil_conv)
  then have cp: "calculate_critical_path ?g lv = Some (Inr xs)"
    using mx ps(1) v xs(1) by (simp add: calculate_critical_path_def ends)
  have "int (length xs) = ?m + 1" using xs(3) \<open>0 \<le> L v\<close> vN(2) by simp
  with r(1,4) mx cp nodes xs(2,4) show ?thesis
    by (intro exI [of _ L]) (simp add: plan_def Let_def ends)
qed

end
