(* ===== verification/Workflow_Properties.thy ===== *)
theory Workflow_Properties
  imports Workflow_Planner
begin

text \<open>
  The properties of the workflow layer up to planning: what the builder accepts, what the compiler
  of traced functions guarantees, the plan's phases and critical path, and the serialised form of
  a workflow instance.
\<close>

section \<open>Builders in use\<close>

text \<open>Builders reached from a fresh one by the fluent operations.\<close>

inductive built :: "workflow_builder \<Rightarrow> bool" where
  built_init: "built (builder_init name)"
| built_add_node: "built b \<Longrightarrow> add_node i et pl pol caps dm ck ap b = Inr b' \<Longrightarrow> built b'"
| built_connect: "built b \<Longrightarrow> built (connect u v c b)"
| built_parallel: "built b \<Longrightarrow> built (parallel u vs b)"
| built_retry: "built b \<Longrightarrow> builder_retry i n r b = Inr b' \<Longrightarrow> built b'"
| built_timeout: "built b \<Longrightarrow> builder_timeout i r b = Inr b' \<Longrightarrow> built b'"
| built_checkpoint: "built b \<Longrightarrow> builder_checkpoint i b = Inr b' \<Longrightarrow> built b'"
| built_approval: "built b \<Longrightarrow> builder_approval i b = Inr b' \<Longrightarrow> built b'"
| built_policy: "built b \<Longrightarrow> built (configure_workflow_policy p b)"

lemma parallel_nodes [simp]: "b_nodes (parallel u vs b) = b_nodes b"
  by (induction u vs b rule: parallel.induct) (auto simp: connect_def)

lemma update_node_keys:
  "update_node i f b = Inr b' \<Longrightarrow> dkeys (b_nodes b') = dkeys (b_nodes b)"
  by (auto simp: update_node_def dkeys_update_present dest: dget_Some_key split: option.splits)

lemma built_wf: "built b \<Longrightarrow> wf_dict (b_nodes b)"
proof (induction rule: built.induct)
  case (built_add_node b i et pl pol caps dm ck ap b')
  then show ?case by (auto simp: add_node_def split: if_splits)
qed (auto simp: builder_init_def connect_def configure_workflow_policy_def builder_retry_def
    builder_timeout_def builder_checkpoint_def builder_approval_def wf_dict_def dest: update_node_keys)

definition sample_builder :: workflow_builder where
  "sample_builder = connect ''a'' ''b'' None
     (case bindE (add_node ''a'' ''python'' None None None None False False (builder_init ''w''))
                 (add_node ''b'' ''shell'' None None None None False False) of
        Inr b \<Rightarrow> b | Inl e \<Rightarrow> builder_init ''w'')"

lemma sample_builder_built: "built sample_builder"
proof -
  have "\<exists>b1 b2. add_node ''a'' ''python'' None None None None False False (builder_init ''w'') = Inr b1 \<and>
          add_node ''b'' ''shell'' None None None None False False b1 = Inr b2"
    by (simp add: add_node_def builder_init_def)
  then obtain b1 b2 where
    b: "add_node ''a'' ''python'' None None None None False False (builder_init ''w'') = Inr b1"
       "add_node ''b'' ''shell'' None None None None False False b1 = Inr b2" by blast
  have "built b2" by (rule built_add_node [OF built_add_node [OF built_init b(1)] b(2)])
  with b show ?thesis by (simp add: sample_builder_def built_connect)
qed

section \<open>Validation\<close>

text \<open>
  C9. The builder accepts exactly the directed acyclic graphs over its own nodes: for every builder
  reached by the fluent operations, \<open>build\<close> returns a definition if and only if every edge joins
  declared nodes and the edges have no cycle. Otherwise it raises.
\<close>

theorem build_accepts_exactly_dags:
  assumes "built b"
  shows "(\<exists>d. build b = Inr d) \<longleftrightarrow>
    (\<forall>e \<in> set (b_edges b). from_node_id e \<in> set (dkeys (b_nodes b)) \<and>
                            to_node_id e \<in> set (dkeys (b_nodes b))) \<and>
    acyclic {(from_node_id e, to_node_id e) | e. e \<in> set (b_edges b)}"
proof -
  have "set (edge_pairs (builder_graph b)) = {(from_node_id e, to_node_id e) | e. e \<in> set (b_edges b)}"
    by (auto simp: edge_pairs_def builder_graph_def)
  with build_Inr_iff [OF built_wf [OF assms]] built_wf [OF assms] show ?thesis
    by (simp add: wf_graph_def builder_graph_def)
qed

theorem build_accepts_exactly_dags_witness:
  "built sample_builder \<and>
   ((\<exists>d. build sample_builder = Inr d) \<longleftrightarrow>
    (\<forall>e \<in> set (b_edges sample_builder). from_node_id e \<in> set (dkeys (b_nodes sample_builder)) \<and>
                            to_node_id e \<in> set (dkeys (b_nodes sample_builder))) \<and>
    acyclic {(from_node_id e, to_node_id e) | e. e \<in> set (b_edges sample_builder)})"
  using build_accepts_exactly_dags [OF sample_builder_built] sample_builder_built by blast

text \<open>
  The topological order \<open>_validate_dag\<close> returns on an acyclic graph lists every node exactly
  once, and each node after all the nodes it depends on; the loop always ends.
\<close>

theorem validate_dag_topological:
  assumes "wf_graph g" and "acyclic (set (edge_pairs g))"
  shows "\<exists>topo. validate_dag g = Inr topo \<and> distinct topo \<and> set topo = set (dkeys (g_nodes g)) \<and>
     (\<forall>ys v zs. topo = ys @ v # zs \<longrightarrow>
        (\<forall>e \<in> set (g_edges g). to_node_id e = v \<longrightarrow> from_node_id e \<in> set ys))"
  using validate_dag_acyclic [OF assms] unfolding topo_sorted_def set_edge_pairs by metis

definition diamond :: execution_graph where
  "diamond =
     (let node = (\<lambda>i. (i, \<lparr>n_id = i, executor_type = ''python'', payload = [], n_policy = default_node_policy,
                     capabilities = [], data_map = default_data_mapping, is_checkpoint = False,
                     is_approval = False, n_version = ''1.0.0''\<rparr>));
          edge = (\<lambda>u v. \<lparr>from_node_id = u, to_node_id = v, condition_expression = None, e_version = ''1.0.0''\<rparr>)
      in \<lparr>g_nodes = [node ''d'', node ''a'', node ''b'', node ''c''],
          g_edges = [edge ''a'' ''b'', edge ''a'' ''c'', edge ''b'' ''d'', edge ''c'' ''d''],
          g_version = ''1.0.0''\<rparr>)"

lemma diamond_wf: "wf_graph diamond"
  by (simp add: wf_graph_def diamond_def Let_def wf_dict_def)

lemma diamond_acyclic: "acyclic (set (edge_pairs diamond))"
proof (rule topo_sorted_acyclic)
  show "topo_sorted (edge_pairs diamond) [''a'', ''b'', ''c'', ''d'']"
    by (auto simp: topo_sorted_def edge_pairs_def diamond_def Let_def Cons_eq_append_conv)
qed (simp_all add: edge_pairs_def diamond_def Let_def)

theorem validate_dag_topological_witness:
  "wf_graph diamond \<and> acyclic (set (edge_pairs diamond)) \<and>
   validate_dag diamond = Inr [''a'', ''b'', ''c'', ''d''] \<and>
   (\<exists>topo. validate_dag diamond = Inr topo \<and> distinct topo \<and> set topo = set (dkeys (g_nodes diamond)) \<and>
     (\<forall>ys v zs. topo = ys @ v # zs \<longrightarrow>
        (\<forall>e \<in> set (g_edges diamond). to_node_id e = v \<longrightarrow> from_node_id e \<in> set ys)))"
proof (intro conjI diamond_wf diamond_acyclic)
  show "validate_dag diamond = Inr [''a'', ''b'', ''c'', ''d'']"
    by (simp add: validate_dag_def diamond_def Let_def zero_degrees_def empty_lists_def roots_def)
qed (rule validate_dag_topological [OF diamond_wf diamond_acyclic])

text \<open>
  C30. A workflow compiled by the tracing decorators is rejected only for a task that is called
  twice: when every task reference passed as an argument was returned by an earlier call, the
  compiler returns a definition if and only if no task function is called more than once. In
  particular no traced function can produce a cycle or a dangling edge.
\<close>

theorem compile_workflow_accepts:
  assumes "traced [] calls"
  shows "(\<exists>d. compile_workflow name calls = Inr d) \<longleftrightarrow> distinct (map func_name calls)"
  using assms by (rule compile_workflow_iff)

definition sample_calls :: "task_call list" where
  "sample_calls =
     (let call = (\<lambda>f args. \<lparr>func_name = f, call_executor = ''python'', call_policy = None, call_caps = None,
                       call_checkpoint = False, call_approval = False, call_args = args\<rparr>)
      in [call ''load'' [PlainArg], call ''clean'' [TaskReference ''load''],
          call ''store'' [TaskReference ''clean'', TaskReference ''load'']])"

theorem compile_workflow_accepts_witness:
  "traced [] sample_calls \<and> (\<exists>d. compile_workflow ''etl'' sample_calls = Inr d)"
proof -
  have "traced [] sample_calls" by (simp add: sample_calls_def Let_def)
  moreover have "distinct (map func_name sample_calls)" by (simp add: sample_calls_def Let_def)
  ultimately show ?thesis using compile_workflow_accepts [of sample_calls "''etl''"] by simp
qed

section \<open>Plans\<close>

lemma mset_concat_filter:
  "distinct ls \<Longrightarrow>
   mset (concat (map (\<lambda>l. filter (\<lambda>x. f x = l) N) ls)) = filter_mset (\<lambda>x. f x \<in> set ls) (mset N)"
  by (induction ls) (auto simp: multiset_eq_iff)

lemma levels_partition:
  assumes "\<And>x. x \<in> set N \<Longrightarrow> 0 \<le> L x" and "N \<noteq> []"
  shows "mset (concat (map (\<lambda>l :: int. filter (\<lambda>x. L x = l) N) [0..Max (L ` set N)])) = mset N"
proof -
  have "filter (\<lambda>x. L x \<in> set [0..Max (L ` set N)]) N = N"
    using assms by (intro filter_True) simp
  then show ?thesis by (simp add: mset_concat_filter flip: mset_filter)
qed

lemma level_attained:
  assumes "\<forall>v. level_fix E UNIV L v"
  shows "L v = int n \<Longrightarrow> \<exists>xs. chain E xs \<and> last xs = v \<and> length xs = n + 1"
proof (induction n arbitrary: v)
  case 0
  then show ?case by (intro exI [of _ "[v]"]) simp
next
  case (Suc n)
  then have "L v \<noteq> 0" by simp
  with assms obtain u where u: "(u, v) \<in> set E" "L v = L u + 1" unfolding level_fix_def by blast
  with Suc obtain xs where "chain E xs" "last xs = u" "length xs = n + 1" by force
  with u(1) show ?case
    by (intro exI [of _ "xs @ [v]"]) (cases xs rule: rev_cases, auto simp: chain_snoc)
qed

text \<open>
  C13. Planning an acyclic workflow ends and returns a plan whose phases are a schedule: the phases
  hold every node exactly once, phase number \<open>i\<close> has index \<open>i\<close>, and the phase of a node is the
  length of the longest chain of dependencies that ends in it (not counting the node), so every
  dependency of a node lies in an earlier phase and no node waits longer than it must.
\<close>

theorem plan_phases:
  assumes "wf_graph (wd_graph d)" and "acyclic (set (edge_pairs (wd_graph d)))"
    and "[] \<notin> set (dkeys (g_nodes (wd_graph d)))" and "g_nodes (wd_graph d) \<noteq> []"
  shows "\<exists>p. plan d = Some (Inr p) \<and>
    mset (concat (map node_ids (phases p))) = mset (dkeys (g_nodes (wd_graph d))) \<and>
    (\<forall>i < length (phases p). phase_index (phases p ! i) = int i \<and>
       (\<forall>v \<in> set (node_ids (phases p ! i)).
          (\<exists>xs. chain (edge_pairs (wd_graph d)) xs \<and> last xs = v \<and> length xs = i + 1) \<and>
          (\<forall>xs. chain (edge_pairs (wd_graph d)) xs \<and> last xs = v \<longrightarrow> length xs \<le> i + 1)))"
proof -
  let ?N = "dkeys (g_nodes (wd_graph d))"
  from plan_spec [OF assms] obtain L p where p: "plan d = Some (Inr p)"
      "\<forall>v. level_fix (edge_pairs (wd_graph d)) UNIV L v"
      "phases p = map (\<lambda>l. \<lparr>node_ids = filter (\<lambda>x. L x = l) ?N, phase_index = l\<rparr>) [0..Max (L ` set ?N)]"
    by blast
  have "\<And>x. 0 \<le> L x" using p(2) by (simp add: level_fix_def)
  then have part: "mset (concat (map node_ids (phases p))) = mset ?N"
    using levels_partition [of ?N L] assms(4) p(3) by (simp add: comp_def)
  have ph: "phases p ! i = \<lparr>node_ids = filter (\<lambda>x. L x = int i) ?N, phase_index = int i\<rparr>"
    if "i < length (phases p)" for i
    using that unfolding p(3) by (simp add: nth_upto)
  have "length xs \<le> i + 1" if "chain (edge_pairs (wd_graph d)) xs" "L (last xs) = int i" for xs i
    using chain_level [OF p(2) that(1)] that(2) by linarith
  with p(1) part ph level_attained [OF p(2)] show ?thesis by fastforce
qed

definition diamond_workflow :: workflow_definition where
  "diamond_workflow = \<lparr>wd_name = ''w'', wd_graph = diamond, wd_version = ''1.0.0'',
     wd_policy = default_workflow_policy,
     wd_metadata = \<lparr>created_by = ''system'', wm_tags = [], wm_extra = []\<rparr>\<rparr>"

lemma diamond_plannable:
  "wf_graph (wd_graph diamond_workflow)" "acyclic (set (edge_pairs (wd_graph diamond_workflow)))"
  "[] \<notin> set (dkeys (g_nodes (wd_graph diamond_workflow)))" "g_nodes (wd_graph diamond_workflow) \<noteq> []"
  using diamond_wf diamond_acyclic by (simp_all add: diamond_workflow_def diamond_def Let_def)

theorem plan_phases_witness:
  "\<exists>p. plan diamond_workflow = Some (Inr p) \<and>
    mset (concat (map node_ids (phases p))) = mset (dkeys (g_nodes (wd_graph diamond_workflow)))"
  using plan_phases [OF diamond_plannable] by blast

text \<open>
  C18. The critical path of an acyclic workflow is one of its longest chains of dependencies: it
  starts at a node without predecessors, consecutive nodes are joined by edges, it has one node
  per phase, and no chain of the graph is longer. The backward walk that computes it ends.
\<close>

theorem plan_critical_path:
  assumes "wf_graph (wd_graph d)" and "acyclic (set (edge_pairs (wd_graph d)))"
    and "[] \<notin> set (dkeys (g_nodes (wd_graph d)))" and "g_nodes (wd_graph d) \<noteq> []"
  shows "\<exists>p. plan d = Some (Inr p) \<and> chain (edge_pairs (wd_graph d)) (critical_path p) \<and>
    length (critical_path p) = length (phases p) \<and>
    (\<forall>e \<in> set (g_edges (wd_graph d)). to_node_id e \<noteq> hd (critical_path p)) \<and>
    (\<forall>xs. chain (edge_pairs (wd_graph d)) xs \<and> last xs \<in> set (dkeys (g_nodes (wd_graph d)))
          \<longrightarrow> length xs \<le> length (critical_path p))"
proof -
  let ?N = "dkeys (g_nodes (wd_graph d))" and ?E = "edge_pairs (wd_graph d)"
  from plan_spec [OF assms] obtain L p where p: "plan d = Some (Inr p)"
      "\<forall>v. level_fix ?E UNIV L v"
      "phases p = map (\<lambda>l. \<lparr>node_ids = filter (\<lambda>x. L x = l) ?N, phase_index = l\<rparr>) [0..Max (L ` set ?N)]"
      "chain ?E (critical_path p)" "int (length (critical_path p)) = Max (L ` set ?N) + 1"
      "\<forall>u. (u, hd (critical_path p)) \<notin> set ?E" by blast
  have "length (critical_path p) = length (phases p)" using p(3,5) by simp
  moreover have "\<forall>e \<in> set (g_edges (wd_graph d)). to_node_id e \<noteq> hd (critical_path p)"
    using p(6) set_edge_pairs by blast
  moreover have "length xs \<le> length (critical_path p)" if "chain ?E xs" "last xs \<in> set ?N" for xs
  proof -
    have "L (last xs) \<le> Max (L ` set ?N)" using that(2) by (intro Max_ge) auto
    with chain_level [OF p(2) that(1)] p(5) show ?thesis by linarith
  qed
  ultimately show ?thesis using p(1,4) by blast
qed

theorem plan_critical_path_witness:
  "\<exists>p. plan diamond_workflow = Some (Inr p) \<and>
       chain (edge_pairs (wd_graph diamond_workflow)) (critical_path p) \<and>
       length (critical_path p) = length (phases p)"
  using plan_critical_path [OF diamond_plannable] by blast

section \<open>Serialised instances\<close>


text \<open>
  What \<open>json.dumps\<close> makes of an instance: the encoder accepts its dictionary exactly when no
  node sets a failure policy of its own and the user's payloads, default values, metadata and
  outputs are JSON values. A node with its own failure policy makes every checkpoint of the
  workflow raise, because \<open>GraphNode.to_dict\<close> keeps the enum member.
\<close>

theorem workflow_instance_json:
  "(\<exists>t. json_dumps (instance_to_dict w) = Inr t) \<longleftrightarrow>
     (\<forall>(i, n) \<in> set (g_nodes (wd_graph (wi_definition w))).
        np_failure_handling (n_policy n) = None \<and> json_ok (PDict (payload n)) \<and>
        (\<forall>(k, m) \<in> set (input_mappings (data_map n)). json_ok (default_value m))) \<and>
     json_ok (PDict (wm_extra (wd_metadata (wi_definition w)))) \<and>
     (\<forall>(k, out) \<in> set (wi_node_outputs w). json_ok (PDict out))"
  by (simp add: json_ok_instance_aux instance_json_ok_def node_json_ok_def list_all_iff
      case_prod_beta)

definition diamond_instance :: workflow_instance where
  "diamond_instance = \<lparr>instance_id = ''i'', workflow_name = ''w'', wi_definition = diamond_workflow,
     wi_status = WF_RUNNING, wi_node_states = [(''a'', NS_RUNNING)], wi_node_outputs = [],
     wi_execution_plan = \<lparr>phases = [], critical_path = [], pl_version = ''1.0.0''\<rparr>,
     started_at = ''t0'', completed_at = None, wi_version = ''1.0.0''\<rparr>"

theorem workflow_instance_json_witness: "\<exists>t. json_dumps (instance_to_dict diamond_instance) = Inr t"
  unfolding workflow_instance_json
  by (simp add: diamond_instance_def diamond_workflow_def diamond_def Let_def default_node_policy_def
      default_data_mapping_def)

end
