(* ===== verification/Workflow_SDK.thy ===== *)
theory Workflow_SDK
  imports Workflow_Builder
begin

text \<open>
  The module variable behind the tracing decorators (\<^verbatim>\<open>workflow/sdk.py\<close>): \<open>_current_builder\<close> is one
  variable for the whole process. A decorated task that is called while it is set adds a node to that
  builder, and otherwise runs its function; the decorated workflow sets it, runs its body, and sets it to
  \<open>None\<close> whatever the value was before.

  \<open>Workflow_Builder\<close> models a compilation by itself. Here builders are objects that several compilations
  reach through the variable, and the body of a workflow is any function on this state, so that a body
  may compile another workflow, and so may another thread between two calls of the body. \<open>run\<close> is what the
  undecorated functions do.
\<close>

record sdk_state =
  sdk_builders :: "workflow_builder list"
  sdk_current :: "nat option"
  sdk_ran :: "task_call list"

definition sdk_init :: sdk_state where
  "sdk_init = \<lparr>sdk_builders = [], sdk_current = None, sdk_ran = []\<rparr>"

text \<open>The wrapper of a decorated task.\<close>

definition sdk_task ::
    "(task_call \<Rightarrow> py_error + sdk_arg) \<Rightarrow> task_call \<Rightarrow> sdk_state \<Rightarrow> (py_error + sdk_arg) \<times> sdk_state" where
  "sdk_task run c s =
     (case sdk_current s of
        Some n \<Rightarrow>
          (case trace_call c (sdk_builders s ! n) of
             Inl e \<Rightarrow> (Inl e, s)
           | Inr (ref, b) \<Rightarrow> (Inr ref, s\<lparr>sdk_builders := (sdk_builders s)[n := b]\<rparr>))
      | None \<Rightarrow> (run c, s\<lparr>sdk_ran := sdk_ran s @ [c]\<rparr>))"

text \<open>
  The wrapper of a decorated workflow: its two accesses to the variable, which another thread may come
  between, and the whole.
\<close>

definition sdk_enter :: "string \<Rightarrow> sdk_state \<Rightarrow> nat \<times> sdk_state" where
  "sdk_enter name s =
     (length (sdk_builders s),
      s\<lparr>sdk_builders := sdk_builders s @ [builder_init name], sdk_current := Some (length (sdk_builders s))\<rparr>)"

definition sdk_leave :: "nat \<Rightarrow> py_error + unit \<Rightarrow> sdk_state \<Rightarrow> (py_error + workflow_definition) \<times> sdk_state" where
  "sdk_leave n res s =
     (bindE res (\<lambda>_. build (sdk_builders s ! n)), s\<lparr>sdk_current := None\<rparr>)"

definition sdk_workflow ::
    "string \<Rightarrow> (sdk_state \<Rightarrow> (py_error + unit) \<times> sdk_state) \<Rightarrow> sdk_state \<Rightarrow>
     (py_error + workflow_definition) \<times> sdk_state" where
  "sdk_workflow name body s =
     (case sdk_enter name s of (n, s1) \<Rightarrow> case body s1 of (res, s2) \<Rightarrow> sdk_leave n res s2)"

text \<open>A body that calls tasks, and one part of a body after another.\<close>

fun sdk_tasks ::
    "(task_call \<Rightarrow> py_error + sdk_arg) \<Rightarrow> task_call list \<Rightarrow> sdk_state \<Rightarrow> (py_error + unit) \<times> sdk_state" where
  "sdk_tasks run [] s = (Inr (), s)"
| "sdk_tasks run (c # cs) s =
     (case sdk_task run c s of (Inl e, s1) \<Rightarrow> (Inl e, s1) | (Inr _, s1) \<Rightarrow> sdk_tasks run cs s1)"

definition sdk_then ::
    "(sdk_state \<Rightarrow> (py_error + 'a) \<times> sdk_state) \<Rightarrow> (sdk_state \<Rightarrow> (py_error + 'b) \<times> sdk_state) \<Rightarrow>
     sdk_state \<Rightarrow> (py_error + 'b) \<times> sdk_state" where
  "sdk_then f g s = (case f s of (Inl e, s1) \<Rightarrow> (Inl e, s1) | (Inr _, s1) \<Rightarrow> g s1)"

section \<open>What a sequence of task calls does\<close>

text \<open>While the variable points to a builder, the calls are traced into it and into no other.\<close>

lemma sdk_tasks_traced:
  "sdk_current s = Some n \<Longrightarrow> n < length (sdk_builders s) \<Longrightarrow>
   case trace_body cs (sdk_builders s ! n) of
     Inr b \<Rightarrow> sdk_tasks run cs s = (Inr (), s\<lparr>sdk_builders := (sdk_builders s)[n := b]\<rparr>)
   | Inl e \<Rightarrow> \<exists>b. sdk_tasks run cs s = (Inl e, s\<lparr>sdk_builders := (sdk_builders s)[n := b]\<rparr>)"
proof (induction cs arbitrary: s)
  case (Cons c cs)
  show ?case
  proof (cases "trace_call c (sdk_builders s ! n)")
    case (Inl e)
    with Cons.prems show ?thesis
      by (auto simp: sdk_task_def intro!: exI [of _ "sdk_builders s ! n"])
  next
    case (Inr rb)
    obtain r b where rb: "rb = (r, b)" by fastforce
    let ?s = "s\<lparr>sdk_builders := (sdk_builders s)[n := b]\<rparr>"
    from Cons.IH [of ?s] Cons.prems Inr rb show ?thesis
      by (simp add: sdk_task_def split: sum.splits)
  qed
qed simp

text \<open>While it is \<open>None\<close>, they run.\<close>

lemma sdk_tasks_run:
  "sdk_current s = None \<Longrightarrow> \<forall>c \<in> set cs. \<exists>v. run c = Inr v \<Longrightarrow>
   sdk_tasks run cs s = (Inr (), s\<lparr>sdk_ran := sdk_ran s @ cs\<rparr>)"
  by (induction cs arbitrary: s) (auto simp: sdk_task_def)

lemma sdk_workflow_tasks:
  "sdk_workflow name (sdk_tasks run cs) s =
   (compile_workflow name cs, snd (sdk_workflow name (sdk_tasks run cs) s))"
  "sdk_current (snd (sdk_workflow name (sdk_tasks run cs) s)) = None"
  "sdk_ran (snd (sdk_workflow name (sdk_tasks run cs) s)) = sdk_ran s"
  "length (sdk_builders (snd (sdk_workflow name (sdk_tasks run cs) s))) = Suc (length (sdk_builders s))"
  "n < length (sdk_builders s) \<Longrightarrow>
   sdk_builders (snd (sdk_workflow name (sdk_tasks run cs) s)) ! n = sdk_builders s ! n"
proof -
  define s1 where "s1 = snd (sdk_enter name s)"
  have cur: "sdk_current s1 = Some (length (sdk_builders s))" "length (sdk_builders s) < length (sdk_builders s1)"
    and b: "sdk_builders s1 ! length (sdk_builders s) = builder_init name"
    by (simp_all add: s1_def sdk_enter_def)
  note traced = sdk_tasks_traced [OF cur, of run cs, unfolded b]
  obtain res s2 where body: "sdk_tasks run cs s1 = (res, s2)" by fastforce
  have w: "sdk_workflow name (sdk_tasks run cs) s =
      (bindE res (\<lambda>_. build (sdk_builders s2 ! length (sdk_builders s))), s2\<lparr>sdk_current := None\<rparr>)"
    using body by (simp add: sdk_workflow_def s1_def sdk_enter_def sdk_leave_def split: prod.splits)
  from traced body cur obtain bs where bs: "s2 = s1\<lparr>sdk_builders := bs\<rparr>"
    "length bs = Suc (length (sdk_builders s))" "\<And>n. n < length (sdk_builders s) \<Longrightarrow> bs ! n = sdk_builders s ! n"
    by (auto split: sum.splits simp: s1_def sdk_enter_def nth_append)
  show "sdk_workflow name (sdk_tasks run cs) s =
    (compile_workflow name cs, snd (sdk_workflow name (sdk_tasks run cs) s))"
    unfolding w using traced body cur by (auto simp: compile_workflow_def split: sum.splits)
  show "sdk_current (snd (sdk_workflow name (sdk_tasks run cs) s)) = None"
    and "sdk_ran (snd (sdk_workflow name (sdk_tasks run cs) s)) = sdk_ran s"
    and "length (sdk_builders (snd (sdk_workflow name (sdk_tasks run cs) s))) = Suc (length (sdk_builders s))"
    unfolding w by (simp_all add: bs s1_def sdk_enter_def)
  show "n < length (sdk_builders s) \<Longrightarrow>
      sdk_builders (snd (sdk_workflow name (sdk_tasks run cs) s)) ! n = sdk_builders s ! n"
    unfolding w by (simp add: bs)
qed

section \<open>Properties\<close>

text \<open>
  C31. A workflow whose body compiles another workflow and then calls more tasks: the decorators
  return the definition of the tasks called before the inner compilation; the ones called after it are
  missing from the definition without an error, and their functions have run during the compilation.
\<close>

theorem nested_compilation_runs_tasks:
  assumes "compile_workflow inner cs2 = Inr d" and "trace_body cs1 (builder_init outer) = Inr b"
    and "\<forall>c \<in> set cs3. \<exists>v. run c = Inr v"
  shows "\<exists>s'. sdk_workflow outer
        (sdk_then (sdk_tasks run cs1) (sdk_then (sdk_workflow inner (sdk_tasks run cs2)) (sdk_tasks run cs3))) s =
      (compile_workflow outer cs1, s') \<and>
    sdk_current s' = None \<and> sdk_ran s' = sdk_ran s @ cs3"
proof -
  let ?n = "length (sdk_builders s)"
  define s1 where "s1 = snd (sdk_enter outer s)"
  have cur: "sdk_current s1 = Some ?n" "?n < length (sdk_builders s1)"
    and b: "sdk_builders s1 ! ?n = builder_init outer" and ran: "sdk_ran s1 = sdk_ran s"
    by (simp_all add: s1_def sdk_enter_def)
  define s2 where "s2 = s1\<lparr>sdk_builders := (sdk_builders s1)[?n := b]\<rparr>"
  have first: "sdk_tasks run cs1 s1 = (Inr (), s2)"
    using sdk_tasks_traced [OF cur, of run cs1] assms(2) by (simp add: b s2_def)
  define s3 where "s3 = snd (sdk_workflow inner (sdk_tasks run cs2) s2)"
  have second: "sdk_workflow inner (sdk_tasks run cs2) s2 = (Inr d, s3)"
    using sdk_workflow_tasks(1) [of inner run cs2 s2] assms(1) by (simp add: s3_def)
  have s3: "sdk_current s3 = None" "sdk_ran s3 = sdk_ran s" "sdk_builders s3 ! ?n = b"
    using sdk_workflow_tasks(2,3) [of inner run cs2 s2] sdk_workflow_tasks(5) [of ?n s2 inner run cs2] cur(2)
    by (simp_all add: s3_def s2_def ran)
  have third: "sdk_tasks run cs3 s3 = (Inr (), s3\<lparr>sdk_ran := sdk_ran s3 @ cs3\<rparr>)"
    by (rule sdk_tasks_run [OF s3(1) assms(3)])
  have "sdk_enter outer s = (?n, s1)" by (simp add: s1_def sdk_enter_def)
  with first second third s3 assms(2) show ?thesis
    by (simp add: sdk_workflow_def sdk_then_def sdk_leave_def compile_workflow_def)
qed

definition sample_task_call :: "string \<Rightarrow> sdk_arg list \<Rightarrow> task_call" where
  "sample_task_call f args =
     \<lparr>func_name = f, call_executor = ''python'', call_policy = None, call_caps = None, call_checkpoint = False,
      call_approval = False, call_args = args\<rparr>"

lemma compile_one_task: "\<exists>d. compile_workflow n [sample_task_call f []] = Inr d"
  using compile_workflow_iff [of "[sample_task_call f []]" n] by (simp add: sample_task_call_def)

theorem nested_compilation_runs_tasks_witness:
  "\<exists>d s'. compile_workflow ''outer'' [sample_task_call ''load'' []] = Inr d \<and>
     sdk_workflow ''outer''
       (sdk_then (sdk_tasks (\<lambda>_. Inr PlainArg) [sample_task_call ''load'' []])
         (sdk_then (sdk_workflow ''inner'' (sdk_tasks (\<lambda>_. Inr PlainArg) [sample_task_call ''check'' []]))
           (sdk_tasks (\<lambda>_. Inr PlainArg) [sample_task_call ''store'' [TaskReference ''load'']]))) sdk_init =
     (Inr d, s') \<and> map func_name (sdk_ran s') = [''store'']"
proof -
  obtain d1 where d1: "compile_workflow ''outer'' [sample_task_call ''load'' []] = Inr d1"
    using compile_one_task by blast
  obtain d2 where d2: "compile_workflow ''inner'' [sample_task_call ''check'' []] = Inr d2"
    using compile_one_task by blast
  obtain b where b: "trace_body [sample_task_call ''load'' []] (builder_init ''outer'') = Inr b"
    using d1 by (cases "trace_body [sample_task_call ''load'' []] (builder_init ''outer'')")
      (simp_all add: compile_workflow_def del: trace_body.simps)
  have "\<forall>c \<in> set [sample_task_call ''store'' [TaskReference ''load'']]. \<exists>v. (\<lambda>_. Inr PlainArg) c = (Inr v :: py_error + sdk_arg)"
    by simp
  from nested_compilation_runs_tasks [OF d2 b this, of sdk_init] obtain s' where
    "sdk_workflow ''outer''
       (sdk_then (sdk_tasks (\<lambda>_. Inr PlainArg) [sample_task_call ''load'' []])
         (sdk_then (sdk_workflow ''inner'' (sdk_tasks (\<lambda>_. Inr PlainArg) [sample_task_call ''check'' []]))
           (sdk_tasks (\<lambda>_. Inr PlainArg) [sample_task_call ''store'' [TaskReference ''load'']]))) sdk_init =
     (compile_workflow ''outer'' [sample_task_call ''load'' []], s')"
    "sdk_ran s' = [sample_task_call ''store'' [TaskReference ''load'']]" by (auto simp: sdk_init_def)
  with d1 show ?thesis by (intro exI [of _ d1] exI [of _ s']) (simp add: sample_task_call_def)
qed

text \<open>
  Two threads that compile at the same time: the calls of both, from the second \<open>sdk_enter\<close> to the first
  \<open>sdk_leave\<close>, make up the workflow that was entered last, and the calls after that are run.
\<close>

theorem interleaved_compilations_mix:
  assumes "trace_body cs1 (builder_init a) = Inr ba" and "trace_body cs2 (builder_init b) = Inr bb"
    and "\<forall>c \<in> set cs3. \<exists>v. run c = Inr v"
    and "sdk_enter a s = (na, s1)" and "sdk_tasks run cs1 s1 = (r1, s2)"
    and "sdk_enter b s2 = (nb, s3)" and "sdk_tasks run cs2 s3 = (r2, s4)"
    and "sdk_leave nb r2 s4 = (db, s5)" and "sdk_tasks run cs3 s5 = (r3, s6)" and "sdk_leave na r3 s6 = (da, s7)"
  shows "da = compile_workflow a cs1" and "db = compile_workflow b cs2" and "sdk_ran s7 = sdk_ran s @ cs3"
proof -
  have s1: "na = length (sdk_builders s)" "sdk_current s1 = Some na" "sdk_builders s1 = sdk_builders s @ [builder_init a]"
    "sdk_ran s1 = sdk_ran s" using assms(4) by (auto simp: sdk_enter_def)
  have s2: "r1 = Inr ()" "s2 = s1\<lparr>sdk_builders := sdk_builders s @ [ba]\<rparr>"
    using sdk_tasks_traced [of s1 na run cs1] s1 assms(1,5) by simp_all
  have s3: "nb = Suc na" "s3 = s2\<lparr>sdk_builders := sdk_builders s @ [ba, builder_init b], sdk_current := Some nb\<rparr>"
    using assms(6) s2 s1 by (auto simp: sdk_enter_def)
  have s4: "r2 = Inr ()" "s4 = s3\<lparr>sdk_builders := sdk_builders s @ [ba, bb]\<rparr>"
    using sdk_tasks_traced [of s3 nb run cs2] s3 s1 assms(2,7) by (simp_all add: nth_append list_update_append)
  have s5: "db = compile_workflow b cs2" "s5 = s4\<lparr>sdk_current := None\<rparr>"
    using assms(2,8) s4 s3 s1 by (simp_all add: sdk_leave_def compile_workflow_def nth_append)
  have s6: "r3 = Inr ()" "s6 = s5\<lparr>sdk_ran := sdk_ran s5 @ cs3\<rparr>"
    using sdk_tasks_run [of s5 cs3 run] assms(3,9) s5 by simp_all
  show "db = compile_workflow b cs2" by (rule s5(1))
  show "da = compile_workflow a cs1" and "sdk_ran s7 = sdk_ran s @ cs3"
    using assms(1,10) s6 s5 s4 s3 s2 s1 by (simp_all add: sdk_leave_def compile_workflow_def nth_append) auto
qed

end
