(* ===== verification/State_Models.thy ===== *)
theory State_Models
  imports Runtime_Events
begin

text \<open>
  The persisted state snapshots: \<^verbatim>\<open>runtime/persistence/domain/models.py\<close>, with their conversion to and
  from dictionaries of primitives.
\<close>

record task_state =
  ts_task_id :: string
  ts_title :: string
  ts_task_type :: string
  ts_status :: string
  ts_created_at :: string
  ts_started_at :: "string option"
  ts_completed_at :: "string option"
  ts_retry_count :: int
  ts_metadata :: pydict
  ts_error_message :: "string option"
  ts_version :: int

record worker_state =
  ws_worker_id :: string
  ws_state :: string
  ws_current_task_id :: "string option"
  ws_heartbeat_time :: string
  ws_tasks_processed :: int
  ws_failures :: int
  ws_start_time :: string
  ws_version :: int

record queue_state =
  qs_queued_task_ids :: "string list"
  qs_size :: int
  qs_capacity :: "int option"
  qs_policy_type :: string
  qs_version :: int

record scheduler_state =
  ss_started :: bool
  ss_uptime_seconds :: rat
  ss_delayed_task_ids :: "string list"
  ss_active_timeouts :: "(string \<times> rat) list"
  ss_version :: int

record runtime_state =
  rs_timestamp :: string
  rs_tasks :: "(string \<times> task_state) list"
  rs_workers :: "(string \<times> worker_state) list"
  rs_queue :: queue_state
  rs_scheduler :: scheduler_state
  rs_schema_version :: int

text \<open>\<open>d.get(k) or default\<close>.\<close>

definition ditem_truthy :: "(pyval \<Rightarrow> py_error + 'a) \<Rightarrow> 'a \<Rightarrow> pydict \<Rightarrow> string \<Rightarrow> py_error + 'a" where
  "ditem_truthy dec dflt d k =
     (case dget d k of None \<Rightarrow> Inr dflt | Some v \<Rightarrow> if truthy v then dec v else Inr dflt)"

definition task_state_to_dict :: "task_state \<Rightarrow> pydict" where
  "task_state_to_dict s =
     [(''task_id'', PStr (ts_task_id s)), (''title'', PStr (ts_title s)),
      (''task_type'', PStr (ts_task_type s)), (''status'', PStr (ts_status s)),
      (''created_at'', PStr (ts_created_at s)), (''started_at'', popt PStr (ts_started_at s)),
      (''completed_at'', popt PStr (ts_completed_at s)), (''retry_count'', PInt (ts_retry_count s)),
      (''metadata'', asdict_val (PDict (ts_metadata s))),
      (''error_message'', popt PStr (ts_error_message s)), (''version'', PInt (ts_version s))]"

definition task_state_from_dict :: "pydict \<Rightarrow> py_error + task_state" where
  "task_state_from_dict d =
     bindE (ditem as_str d ''task_id'') (\<lambda>i.
     bindE (ditem as_str d ''title'') (\<lambda>t.
     bindE (ditem as_str d ''task_type'') (\<lambda>ty.
     bindE (ditem as_str d ''status'') (\<lambda>st.
     bindE (ditem as_str d ''created_at'') (\<lambda>cr.
     bindE (ditem_or as_opt_str None d ''started_at'') (\<lambda>sa.
     bindE (ditem_or as_opt_str None d ''completed_at'') (\<lambda>co.
     bindE (ditem_or as_int 0 d ''retry_count'') (\<lambda>rc.
     bindE (ditem_truthy as_dict [] d ''metadata'') (\<lambda>md.
     bindE (ditem_or as_opt_str None d ''error_message'') (\<lambda>em.
     bindE (ditem_or as_int 1 d ''version'') (\<lambda>v.
       Inr \<lparr>ts_task_id = i, ts_title = t, ts_task_type = ty, ts_status = st, ts_created_at = cr,
            ts_started_at = sa, ts_completed_at = co, ts_retry_count = rc, ts_metadata = md,
            ts_error_message = em, ts_version = v\<rparr>)))))))))))"

definition worker_state_to_dict :: "worker_state \<Rightarrow> pydict" where
  "worker_state_to_dict s =
     [(''worker_id'', PStr (ws_worker_id s)), (''state'', PStr (ws_state s)),
      (''current_task_id'', popt PStr (ws_current_task_id s)),
      (''heartbeat_time'', PStr (ws_heartbeat_time s)),
      (''tasks_processed'', PInt (ws_tasks_processed s)), (''failures'', PInt (ws_failures s)),
      (''start_time'', PStr (ws_start_time s)), (''version'', PInt (ws_version s))]"

definition worker_state_from_dict :: "pydict \<Rightarrow> py_error + worker_state" where
  "worker_state_from_dict d =
     bindE (ditem as_str d ''worker_id'') (\<lambda>i.
     bindE (ditem as_str d ''state'') (\<lambda>st.
     bindE (ditem_or as_opt_str None d ''current_task_id'') (\<lambda>c.
     bindE (ditem as_str d ''heartbeat_time'') (\<lambda>h.
     bindE (ditem_or as_int 0 d ''tasks_processed'') (\<lambda>n.
     bindE (ditem_or as_int 0 d ''failures'') (\<lambda>f.
     bindE (ditem as_str d ''start_time'') (\<lambda>sa.
     bindE (ditem_or as_int 1 d ''version'') (\<lambda>v.
       Inr \<lparr>ws_worker_id = i, ws_state = st, ws_current_task_id = c, ws_heartbeat_time = h,
            ws_tasks_processed = n, ws_failures = f, ws_start_time = sa, ws_version = v\<rparr>))))))))"

definition queue_state_to_dict :: "queue_state \<Rightarrow> pydict" where
  "queue_state_to_dict s =
     [(''queued_task_ids'', PList (map PStr (qs_queued_task_ids s))), (''size'', PInt (qs_size s)),
      (''capacity'', popt PInt (qs_capacity s)), (''policy_type'', PStr (qs_policy_type s)),
      (''version'', PInt (qs_version s))]"

definition queue_state_from_dict :: "pydict \<Rightarrow> py_error + queue_state" where
  "queue_state_from_dict d =
     bindE (ditem as_str_list d ''queued_task_ids'') (\<lambda>ids.
     bindE (ditem as_int d ''size'') (\<lambda>sz.
     bindE (ditem_or as_opt_int None d ''capacity'') (\<lambda>cap.
     bindE (ditem as_str d ''policy_type'') (\<lambda>p.
     bindE (ditem_or as_int 1 d ''version'') (\<lambda>v.
       Inr \<lparr>qs_queued_task_ids = ids, qs_size = sz, qs_capacity = cap, qs_policy_type = p,
            qs_version = v\<rparr>)))))"

definition scheduler_state_to_dict :: "scheduler_state \<Rightarrow> pydict" where
  "scheduler_state_to_dict s =
     [(''started'', PBool (ss_started s)), (''uptime_seconds'', PFloat (ss_uptime_seconds s)),
      (''delayed_task_ids'', PList (map PStr (ss_delayed_task_ids s))),
      (''active_timeouts'', PDict (dmap PFloat (ss_active_timeouts s))),
      (''version'', PInt (ss_version s))]"

definition scheduler_state_from_dict :: "pydict \<Rightarrow> py_error + scheduler_state" where
  "scheduler_state_from_dict d =
     bindE (ditem as_bool d ''started'') (\<lambda>b.
     bindE (ditem as_float d ''uptime_seconds'') (\<lambda>u.
     bindE (ditem_truthy as_str_list [] d ''delayed_task_ids'') (\<lambda>ids.
     bindE (ditem_truthy as_dict [] d ''active_timeouts'') (\<lambda>td.
     bindE (dmapE as_float td) (\<lambda>ts.
     bindE (ditem_or as_int 1 d ''version'') (\<lambda>v.
       Inr \<lparr>ss_started = b, ss_uptime_seconds = u, ss_delayed_task_ids = ids,
            ss_active_timeouts = ts, ss_version = v\<rparr>))))))"

definition runtime_state_to_dict :: "runtime_state \<Rightarrow> pydict" where
  "runtime_state_to_dict s =
     [(''timestamp'', PStr (rs_timestamp s)),
      (''tasks'', PDict (dmap (\<lambda>t. PDict (task_state_to_dict t)) (rs_tasks s))),
      (''workers'', PDict (dmap (\<lambda>t. PDict (worker_state_to_dict t)) (rs_workers s))),
      (''queue'', PDict (queue_state_to_dict (rs_queue s))),
      (''scheduler'', PDict (scheduler_state_to_dict (rs_scheduler s))),
      (''schema_version'', PInt (rs_schema_version s))]"

definition runtime_state_from_dict :: "pydict \<Rightarrow> py_error + runtime_state" where
  "runtime_state_from_dict d =
     bindE (ditem as_str d ''timestamp'') (\<lambda>t.
     bindE (ditem as_dict d ''tasks'') (\<lambda>td.
     bindE (dmapE (\<lambda>v. bindE (as_dict v) task_state_from_dict) td) (\<lambda>tasks.
     bindE (ditem as_dict d ''workers'') (\<lambda>wd.
     bindE (dmapE (\<lambda>v. bindE (as_dict v) worker_state_from_dict) wd) (\<lambda>workers.
     bindE (ditem as_dict d ''queue'') (\<lambda>qd.
     bindE (queue_state_from_dict qd) (\<lambda>q.
     bindE (ditem as_dict d ''scheduler'') (\<lambda>sd.
     bindE (scheduler_state_from_dict sd) (\<lambda>s.
     bindE (ditem_or as_int 1 d ''schema_version'') (\<lambda>v.
       Inr \<lparr>rs_timestamp = t, rs_tasks = tasks, rs_workers = workers, rs_queue = q,
            rs_scheduler = s, rs_schema_version = v\<rparr>))))))))))"

section \<open>Round trips\<close>

text \<open>Task metadata that the JSON encoder accepts.\<close>

definition task_state_ok :: "task_state \<Rightarrow> bool" where
  "task_state_ok s \<longleftrightarrow> json_ok (PDict (ts_metadata s))"

definition runtime_state_ok :: "runtime_state \<Rightarrow> bool" where
  "runtime_state_ok s \<longleftrightarrow> list_all (\<lambda>kv. task_state_ok (snd kv)) (rs_tasks s)"

lemma ditem_truthy_list [simp]:
  "dget d k = Some (PList (map PStr xs)) \<Longrightarrow> ditem_truthy as_str_list [] d k = Inr xs"
  by (simp add: ditem_truthy_def)

lemma ditem_truthy_dict [simp]: "dget d k = Some (PDict m) \<Longrightarrow> ditem_truthy as_dict [] d k = Inr m"
  by (simp add: ditem_truthy_def)

lemma task_state_roundtrip [simp]:
  assumes "task_state_ok s"
  shows "task_state_from_dict (task_state_to_dict s) = Inr s"
proof -
  have "asdict_val (PDict (ts_metadata s)) = PDict (ts_metadata s)"
    using assms by (intro asdict_val_json) (simp add: task_state_ok_def)
  then show ?thesis
    by (simp add: task_state_from_dict_def task_state_to_dict_def field_defs del: asdict_val.simps)
qed

lemma worker_state_roundtrip [simp]: "worker_state_from_dict (worker_state_to_dict s) = Inr s"
  by (simp add: worker_state_from_dict_def worker_state_to_dict_def field_defs)

lemma queue_state_roundtrip [simp]: "queue_state_from_dict (queue_state_to_dict s) = Inr s"
  by (simp add: queue_state_from_dict_def queue_state_to_dict_def field_defs)

lemma scheduler_state_roundtrip [simp]: "scheduler_state_from_dict (scheduler_state_to_dict s) = Inr s"
  by (simp add: scheduler_state_from_dict_def scheduler_state_to_dict_def field_defs dmapE_dmap)

lemma runtime_state_roundtrip_aux:
  assumes "runtime_state_ok s"
  shows "runtime_state_from_dict (runtime_state_to_dict s) = Inr s"
proof -
  have "dmapE (\<lambda>v. bindE (as_dict v) task_state_from_dict)
          (dmap (\<lambda>t. PDict (task_state_to_dict t)) (rs_tasks s)) = Inr (rs_tasks s)"
    using assms by (intro dmapE_dmap) (auto simp: runtime_state_ok_def list_all_iff)
  then show ?thesis
    by (simp add: runtime_state_from_dict_def runtime_state_to_dict_def field_defs dmapE_dmap)
qed

lemma json_ok_task_state: "task_state_ok s \<Longrightarrow> json_ok (PDict (task_state_to_dict s))"
  using asdict_val_json [of "PDict (ts_metadata s)"]
  by (simp add: task_state_to_dict_def task_state_ok_def del: asdict_val.simps)

lemma json_ok_runtime_state: "runtime_state_ok s \<Longrightarrow> json_ok (PDict (runtime_state_to_dict s))"
  using json_ok_task_state
  by (auto simp: runtime_state_to_dict_def worker_state_to_dict_def queue_state_to_dict_def
      scheduler_state_to_dict_def dmap_def runtime_state_ok_def list_all_iff)

end
