(* ===== verification/Event_Log.thy ===== *)
theory Event_Log
  imports Runtime_Events
begin

text \<open>
  The contract of the event store port (\<open>EventStore\<close> in \<^verbatim>\<open>persistence/domain/ports.py\<close>): a store
  represents a list of events in the order they were appended; reads return contiguous parts of
  that list. Clients of the port use the lemmas of the locale; the SQLite adapter interprets it.
\<close>

text \<open>\<open>LIMIT ? OFFSET ?\<close>: a negative limit is none, a negative offset is zero.\<close>

definition sql_limit :: "int \<Rightarrow> int \<Rightarrow> 'a list \<Rightarrow> 'a list" where
  "sql_limit limit offset xs =
     (let ys = drop (nat offset) xs in if limit < 0 then ys else take (nat limit) ys)"

lemma sql_limit_all: "int (length xs) \<le> limit \<Longrightarrow> sql_limit limit 0 xs = xs"
  by (simp add: sql_limit_def Let_def)

lemma sql_limit_map: "map f (sql_limit l off xs) = sql_limit l off (map f xs)"
  by (simp add: sql_limit_def Let_def take_map drop_map)

lemma set_sql_limit: "set (sql_limit l off xs) \<subseteq> set xs"
  unfolding sql_limit_def Let_def by (auto dest: in_set_takeD in_set_dropD)

locale event_log =
  fixes represents :: "'db \<Rightarrow> runtime_event list \<Rightarrow> bool"
    and append_event :: "runtime_event \<Rightarrow> 'db \<Rightarrow> (py_error + unit) \<times> 'db"
    and read_all :: "int \<Rightarrow> int \<Rightarrow> 'db \<Rightarrow> py_error + runtime_event list"
    and read_from :: "string \<Rightarrow> int \<Rightarrow> int \<Rightarrow> 'db \<Rightarrow> py_error + runtime_event list"
    and clear :: "'db \<Rightarrow> 'db"
  assumes append_new:
      "represents db es \<Longrightarrow> wf_event e \<Longrightarrow> ev_id e \<notin> set (map ev_id es) \<Longrightarrow>
       \<exists>db'. append_event e db = (Inr (), db') \<and> represents db' (es @ [e])"
    and append_duplicate:
      "represents db es \<Longrightarrow> ev_id e \<in> set (map ev_id es) \<Longrightarrow>
       \<exists>err. append_event e db = (Inl err, db)"
    and read_all: "represents db es \<Longrightarrow> read_all limit offset db = Inr (sql_limit limit offset es)"
    and read_from:
      "represents db es \<Longrightarrow>
       read_from t limit offset db = Inr (sql_limit limit offset (filter (\<lambda>e. t \<le> ev_timestamp e) es))"
    and clear: "represents db es \<Longrightarrow> represents (clear db) []"
begin

text \<open>A sequence of appends, each one committed by itself; it stops at the first error.\<close>

fun append_all :: "runtime_event list \<Rightarrow> 'db \<Rightarrow> (py_error + unit) \<times> 'db" where
  "append_all [] db = (Inr (), db)"
| "append_all (e # es) db =
     (case append_event e db of (Inl err, db') \<Rightarrow> (Inl err, db') | (Inr _, db') \<Rightarrow> append_all es db')"

lemma append_all_new:
  "represents db es \<Longrightarrow> list_all wf_event fs \<Longrightarrow> distinct (map ev_id (es @ fs)) \<Longrightarrow>
   \<exists>db'. append_all fs db = (Inr (), db') \<and> represents db' (es @ fs)"
proof (induction fs arbitrary: db es)
  case (Cons f fs)
  then obtain db1 where "append_event f db = (Inr (), db1)" "represents db1 (es @ [f])"
    using append_new [of db es f] by auto
  with Cons.IH [of db1 "es @ [f]"] Cons.prems show ?case by auto
qed auto

text \<open>Reading page after page until an empty page returns the whole log.\<close>

lemma pages:
  assumes "represents db es" and "0 < n"
  shows "mapE (\<lambda>k. read_all (int n) (int (k * n)) db) [0..<m] =
         Inr (map (\<lambda>k. take n (drop (k * n) es)) [0..<m])"
  using assms by (intro mapE_Inr) (simp add: read_all sql_limit_def Let_def nat_mult_distrib)

lemma concat_pages: "concat (map (\<lambda>k. take n (drop (k * n) es)) [0..<m]) = take (m * n) es"
proof (induction m)
  case (Suc m)
  have "take (m * n) es @ take n (drop (m * n) es) = take (m * n + n) es"
    by (simp add: take_add)
  with Suc show ?case by (simp add: add.commute)
qed simp

end

end
