(* ===== verification/SQLite_Store.thy ===== *)
theory SQLite_Store
  imports State_Models Event_Log
begin

text \<open>
  The SQLite adapter: \<^verbatim>\<open>persistence/adapters/sqlite/\<close> (\<open>schema.py\<close>, \<open>repositories.py\<close>, \<open>store.py\<close>,
  \<open>event_store.py\<close>) behind the ports of \<^verbatim>\<open>persistence/domain/ports.py\<close>. A table is the list of its
  rows in the order they were inserted; \<open>INSERT OR REPLACE\<close> removes the row with the same primary
  key and inserts the new one at the end. Columns that hold JSON text hold a \<^typ>\<open>json_text\<close>.
  A transaction returns its result and the committed database, or the error and the database it
  started from. One call at a time: every method holds the store's lock.
\<close>

section \<open>Tables\<close>

record task_row =
  tr_task_id :: string
  tr_title :: string
  tr_task_type :: string
  tr_status :: string
  tr_created_at :: string
  tr_started_at :: "string option"
  tr_completed_at :: "string option"
  tr_retry_count :: int
  tr_metadata :: json_text
  tr_error_message :: "string option"
  tr_version :: int

text \<open>The columns of the table of workers are the fields of the snapshot.\<close>

type_synonym worker_row = worker_state

record queue_row =
  qr_queued_task_ids :: json_text
  qr_size :: int
  qr_capacity :: "int option"
  qr_policy_type :: string
  qr_version :: int

record scheduler_row =
  sr_started :: int
  sr_uptime_seconds :: rat
  sr_delayed_task_ids :: json_text
  sr_active_timeouts :: json_text
  sr_timestamp :: string
  sr_version :: int

record snapshot_row =
  sn_timestamp :: string
  sn_state_data :: json_text
  sn_schema_version :: int

record event_row =
  er_sequence_number :: nat
  er_event_id :: string
  er_runtime_id :: string
  er_correlation_id :: "string option"
  er_causation_id :: "string option"
  er_timestamp :: string
  er_event_type :: string
  er_version :: int
  er_metadata :: json_text
  er_data_payload :: json_text

text \<open>The workflow tables, written and read by the orchestrator only.\<close>

record workflow_definition_row =
  wdr_definition_json :: json_text
  wdr_version :: string

record workflow_instance_row =
  wir_workflow_name :: string
  wir_status :: string
  wir_instance_json :: json_text
  wir_version :: string

record database =
  db_tasks :: "(string \<times> task_row) list"
  db_workers :: "(string \<times> worker_row) list"
  db_queue_state :: "queue_row option"
  db_scheduler_state :: "scheduler_row option"
  db_snapshots :: "(string \<times> snapshot_row) list"
  db_events :: "event_row list"
  db_last_sequence :: nat
  db_workflow_definitions :: "(string \<times> workflow_definition_row) list"
  db_workflow_instances :: "(string \<times> workflow_instance_row) list"

definition initialize_schema :: database where
  "initialize_schema =
     \<lparr>db_tasks = [], db_workers = [], db_queue_state = None, db_scheduler_state = None,
      db_snapshots = [], db_events = [], db_last_sequence = 0,
      db_workflow_definitions = [], db_workflow_instances = []\<rparr>"

type_synonym 'a sql = "database \<Rightarrow> (py_error + 'a) \<times> database"

definition insert_or_replace :: "string \<Rightarrow> 'r \<Rightarrow> (string \<times> 'r) list \<Rightarrow> (string \<times> 'r) list" where
  "insert_or_replace k r t = dpop k t @ [(k, r)]"

definition bindS :: "'a sql \<Rightarrow> ('a \<Rightarrow> 'b sql) \<Rightarrow> 'b sql" where
  "bindS m f db = (case m db of (Inl e, db') \<Rightarrow> (Inl e, db') | (Inr x, db') \<Rightarrow> f x db')"

definition transaction :: "'a sql \<Rightarrow> 'a sql" where
  "transaction m db = (case m db of (Inl e, _) \<Rightarrow> (Inl e, db) | (Inr x, db') \<Rightarrow> (Inr x, db'))"

section \<open>Repositories\<close>

definition task_repo_save :: "task_state \<Rightarrow> unit sql" where
  "task_repo_save s db =
     (case json_dumps (PDict (ts_metadata s)) of
        Inl e \<Rightarrow> (Inl e, db)
      | Inr text \<Rightarrow>
          (Inr (), db\<lparr>db_tasks := insert_or_replace (ts_task_id s)
             \<lparr>tr_task_id = ts_task_id s, tr_title = ts_title s, tr_task_type = ts_task_type s,
              tr_status = ts_status s, tr_created_at = ts_created_at s,
              tr_started_at = ts_started_at s, tr_completed_at = ts_completed_at s,
              tr_retry_count = ts_retry_count s, tr_metadata = text,
              tr_error_message = ts_error_message s, tr_version = ts_version s\<rparr> (db_tasks db)\<rparr>))"

definition task_row_data :: "task_row \<Rightarrow> pydict" where
  "task_row_data r =
     [(''task_id'', PStr (tr_task_id r)), (''title'', PStr (tr_title r)),
      (''task_type'', PStr (tr_task_type r)), (''status'', PStr (tr_status r)),
      (''created_at'', PStr (tr_created_at r)), (''started_at'', popt PStr (tr_started_at r)),
      (''completed_at'', popt PStr (tr_completed_at r)), (''retry_count'', PInt (tr_retry_count r)),
      (''metadata'', json_loads (tr_metadata r)), (''error_message'', popt PStr (tr_error_message r)),
      (''version'', PInt (tr_version r))]"

definition task_repo_get :: "string \<Rightarrow> database \<Rightarrow> py_error + task_state option" where
  "task_repo_get i db =
     (case dget (db_tasks db) i of
        None \<Rightarrow> Inr None
      | Some r \<Rightarrow> bindE (task_state_from_dict (task_row_data r)) (\<lambda>s. Inr (Some s)))"

definition task_repo_list_all :: "database \<Rightarrow> py_error + task_state list" where
  "task_repo_list_all db = mapE (\<lambda>r. task_state_from_dict (task_row_data r)) (dvalues (db_tasks db))"

definition task_repo_delete :: "string \<Rightarrow> database \<Rightarrow> database" where
  "task_repo_delete i db = db\<lparr>db_tasks := dpop i (db_tasks db)\<rparr>"

definition worker_repo_save :: "worker_state \<Rightarrow> unit sql" where
  "worker_repo_save s db =
     (Inr (), db\<lparr>db_workers := insert_or_replace (ws_worker_id s) s (db_workers db)\<rparr>)"

definition worker_repo_get :: "string \<Rightarrow> database \<Rightarrow> py_error + worker_state option" where
  "worker_repo_get i db =
     (case dget (db_workers db) i of
        None \<Rightarrow> Inr None
      | Some r \<Rightarrow> bindE (worker_state_from_dict (worker_state_to_dict r)) (\<lambda>s. Inr (Some s)))"

definition worker_repo_list_all :: "database \<Rightarrow> py_error + worker_state list" where
  "worker_repo_list_all db =
     mapE (\<lambda>r. worker_state_from_dict (worker_state_to_dict r)) (dvalues (db_workers db))"

section \<open>The state store\<close>

fun forS :: "('a \<Rightarrow> unit sql) \<Rightarrow> 'a list \<Rightarrow> unit sql" where
  "forS f [] db = (Inr (), db)"
| "forS f (x # xs) db = bindS (f x) (\<lambda>_. forS f xs) db"

definition clear_components :: "unit sql" where
  "clear_components db = (Inr (), db\<lparr>db_tasks := [], db_workers := []\<rparr>)"

definition save_queue_state :: "queue_state \<Rightarrow> unit sql" where
  "save_queue_state q db =
     (case json_dumps (PList (map PStr (qs_queued_task_ids q))) of
        Inl e \<Rightarrow> (Inl e, db)
      | Inr ids \<Rightarrow>
          (Inr (), db\<lparr>db_queue_state := Some
             \<lparr>qr_queued_task_ids = ids, qr_size = qs_size q, qr_capacity = qs_capacity q,
              qr_policy_type = qs_policy_type q, qr_version = qs_version q\<rparr>\<rparr>))"

definition save_scheduler_state :: "scheduler_state \<Rightarrow> string \<Rightarrow> unit sql" where
  "save_scheduler_state s timestamp db =
     (case json_dumps (PList (map PStr (ss_delayed_task_ids s))) of
        Inl e \<Rightarrow> (Inl e, db)
      | Inr ids \<Rightarrow>
          (case json_dumps (PDict (dmap PFloat (ss_active_timeouts s))) of
             Inl e \<Rightarrow> (Inl e, db)
           | Inr touts \<Rightarrow>
               (Inr (), db\<lparr>db_scheduler_state := Some
                  \<lparr>sr_started = (if ss_started s then 1 else 0), sr_uptime_seconds = ss_uptime_seconds s,
                   sr_delayed_task_ids = ids, sr_active_timeouts = touts, sr_timestamp = timestamp,
                   sr_version = ss_version s\<rparr>\<rparr>)))"

definition save_runtime_state :: "runtime_state \<Rightarrow> unit sql" where
  "save_runtime_state state = transaction
     (bindS clear_components (\<lambda>_.
      bindS (forS task_repo_save (dvalues (rs_tasks state))) (\<lambda>_.
      bindS (forS worker_repo_save (dvalues (rs_workers state))) (\<lambda>_.
      bindS (save_queue_state (rs_queue state)) (\<lambda>_.
        save_scheduler_state (rs_scheduler state) (rs_timestamp state))))))"

definition queue_row_data :: "queue_row \<Rightarrow> pydict" where
  "queue_row_data r =
     [(''id'', PInt 1), (''queued_task_ids'', json_loads (qr_queued_task_ids r)),
      (''size'', PInt (qr_size r)), (''capacity'', popt PInt (qr_capacity r)),
      (''policy_type'', PStr (qr_policy_type r)), (''version'', PInt (qr_version r))]"

definition scheduler_row_data :: "scheduler_row \<Rightarrow> pydict" where
  "scheduler_row_data r =
     [(''id'', PInt 1), (''started'', PBool (sr_started r \<noteq> 0)),
      (''uptime_seconds'', PFloat (sr_uptime_seconds r)),
      (''delayed_task_ids'', json_loads (sr_delayed_task_ids r)),
      (''active_timeouts'', json_loads (sr_active_timeouts r)),
      (''timestamp'', PStr (sr_timestamp r)), (''version'', PInt (sr_version r))]"

text \<open>
  A dictionary comprehension \<open>{key(x): x for x in xs}\<close>; \<open>now\<close> is the clock's reading, used when the
  stored timestamp is empty.
\<close>

definition dict_by :: "('a \<Rightarrow> string) \<Rightarrow> 'a list \<Rightarrow> (string \<times> 'a) list" where
  "dict_by key xs = fold (\<lambda>x. dset (key x) x) xs []"

definition load_runtime_state :: "string \<Rightarrow> database \<Rightarrow> py_error + runtime_state option" where
  "load_runtime_state now db =
     (case db_queue_state db of
        None \<Rightarrow> Inr None
      | Some q_row \<Rightarrow>
          bindE (queue_state_from_dict (queue_row_data q_row)) (\<lambda>queue_snapshot.
          case db_scheduler_state db of
            None \<Rightarrow> Inr None
          | Some s_row \<Rightarrow>
              bindE (scheduler_state_from_dict (scheduler_row_data s_row)) (\<lambda>scheduler_snapshot.
              bindE (task_repo_list_all db) (\<lambda>tasks.
              bindE (worker_repo_list_all db) (\<lambda>workers.
                Inr (Some
                  \<lparr>rs_timestamp = (if sr_timestamp s_row = [] then now else sr_timestamp s_row),
                   rs_tasks = dict_by ts_task_id tasks, rs_workers = dict_by ws_worker_id workers,
                   rs_queue = queue_snapshot, rs_scheduler = scheduler_snapshot,
                   rs_schema_version = 1\<rparr>))))))"

definition save_snapshot :: "string \<Rightarrow> runtime_state \<Rightarrow> unit sql" where
  "save_snapshot snapshot_id state db =
     (case json_dumps (PDict (runtime_state_to_dict state)) of
        Inl e \<Rightarrow> (Inl e, db)
      | Inr state_json \<Rightarrow> transaction (\<lambda>db.
          (Inr (), db\<lparr>db_snapshots := insert_or_replace snapshot_id
             \<lparr>sn_timestamp = rs_timestamp state, sn_state_data = state_json,
              sn_schema_version = rs_schema_version state\<rparr> (db_snapshots db)\<rparr>)) db)"

definition load_snapshot :: "string \<Rightarrow> database \<Rightarrow> py_error + runtime_state option" where
  "load_snapshot snapshot_id db =
     (case dget (db_snapshots db) snapshot_id of
        None \<Rightarrow> Inr None
      | Some row \<Rightarrow> bindE (as_dict (json_loads (sn_state_data row))) (\<lambda>d.
                     bindE (runtime_state_from_dict d) (\<lambda>s. Inr (Some s))))"

text \<open>\<open>ORDER BY timestamp DESC\<close>; SQL leaves the order of equal timestamps open.\<close>

definition list_snapshots :: "database \<Rightarrow> string list" where
  "list_snapshots db = map fst (rev (sort_key (\<lambda>kr. sn_timestamp (snd kr)) (rev (db_snapshots db))))"

definition delete_snapshot :: "string \<Rightarrow> database \<Rightarrow> database" where
  "delete_snapshot snapshot_id db = db\<lparr>db_snapshots := dpop snapshot_id (db_snapshots db)\<rparr>"

section \<open>The event store\<close>

definition insert_event :: "runtime_event \<Rightarrow> unit sql" where
  "insert_event event db =
     (let payload = event_to_dict event
      in case bindE (json_dumps (PDict (ev_metadata event))) (\<lambda>m.
              bindE (json_dumps (PDict payload)) (\<lambda>p. Inr (m, p))) of
           Inl e \<Rightarrow> (Inl e, db)
         | Inr (m, p) \<Rightarrow>
             if ev_id event \<in> set (map er_event_id (db_events db))
             then (Inl (IntegrityError ''UNIQUE constraint failed: events.event_id''), db)
             else (Inr (), db\<lparr>db_events := db_events db @
                    [\<lparr>er_sequence_number = db_last_sequence db + 1, er_event_id = ev_id event,
                      er_runtime_id = ev_runtime_id event, er_correlation_id = ev_correlation_id event,
                      er_causation_id = ev_causation_id event, er_timestamp = ev_timestamp event,
                      er_event_type = event_class (ev_kind event), er_version = ev_version event,
                      er_metadata = m, er_data_payload = p\<rparr>],
                    db_last_sequence := db_last_sequence db + 1\<rparr>))"

definition store_append :: "runtime_event \<Rightarrow> unit sql" where
  "store_append event = transaction (insert_event event)"

definition append_batch :: "runtime_event list \<Rightarrow> unit sql" where
  "append_batch events = transaction (forS insert_event events)"

text \<open>
  \<open>json.loads\<close> and \<open>RuntimeEvent.from_dict\<close> on a payload; \<open>uid\<close> and \<open>now\<close> are what the dataclass
  defaults would draw for a payload without an id or a time stamp.
\<close>

definition decode_event :: "string \<Rightarrow> string \<Rightarrow> event_row \<Rightarrow> py_error + runtime_event" where
  "decode_event uid now row = bindE (as_dict (json_loads (er_data_payload row))) (event_from_dict uid now)"

definition store_load :: "string \<Rightarrow> string \<Rightarrow> string \<Rightarrow> database \<Rightarrow> py_error + runtime_event option" where
  "store_load uid now event_id db =
     (case List.find (\<lambda>r. er_event_id r = event_id) (db_events db) of
        None \<Rightarrow> Inr None
      | Some row \<Rightarrow> bindE (decode_event uid now row) (\<lambda>e. Inr (Some e)))"

definition stream :: "string \<Rightarrow> string \<Rightarrow> int \<Rightarrow> int \<Rightarrow> database \<Rightarrow> py_error + runtime_event list" where
  "stream uid now limit offset db =
     mapE (decode_event uid now) (sql_limit limit offset (sort_key er_sequence_number (db_events db)))"

definition stream_from ::
  "string \<Rightarrow> string \<Rightarrow> string \<Rightarrow> int \<Rightarrow> int \<Rightarrow> database \<Rightarrow> py_error + runtime_event list" where
  "stream_from uid now start_timestamp limit offset db =
     mapE (decode_event uid now) (sql_limit limit offset
       (sort_key er_sequence_number (filter (\<lambda>r. start_timestamp \<le> er_timestamp r) (db_events db))))"

definition replay :: "string \<Rightarrow> string \<Rightarrow> string \<Rightarrow> database \<Rightarrow> py_error + runtime_event list" where
  "replay uid now runtime_id db =
     mapE (decode_event uid now)
       (sort_key er_sequence_number (filter (\<lambda>r. er_runtime_id r = runtime_id) (db_events db)))"

definition count_events :: "database \<Rightarrow> int" where
  "count_events db = int (length (db_events db))"

definition truncate_events :: "database \<Rightarrow> database" where
  "truncate_events db = db\<lparr>db_events := []\<rparr>"

section \<open>The event table is a log\<close>

text \<open>
  \<open>log_rep db es\<close>: the rows of the event table, in sequence order, are the events \<open>es\<close>.
\<close>

definition row_rep :: "event_row \<Rightarrow> runtime_event \<Rightarrow> bool" where
  "row_rep r e \<longleftrightarrow> er_data_payload r = JText (PDict (event_to_dict e)) \<and> er_event_id r = ev_id e \<and>
     er_runtime_id r = ev_runtime_id e \<and> er_timestamp r = ev_timestamp e \<and> wf_event e"

definition log_rep :: "database \<Rightarrow> runtime_event list \<Rightarrow> bool" where
  "log_rep db es \<longleftrightarrow>
     list_all2 row_rep (db_events db) es \<and> distinct (map ev_id es) \<and>
     sorted_wrt (<) (map er_sequence_number (db_events db)) \<and>
     (\<forall>r \<in> set (db_events db). er_sequence_number r \<le> db_last_sequence db)"

lemma decode_row_rep: "row_rep r e \<Longrightarrow> decode_event uid now r = Inr e"
  by (simp add: row_rep_def decode_event_def event_dict_roundtrip)

lemma mapE_decode: "list_all2 row_rep rs es \<Longrightarrow> mapE (decode_event uid now) rs = Inr es"
  by (induction rule: list_all2_induct) (auto simp: decode_row_rep)

lemma list_all2_sql_limit: "list_all2 P xs ys \<Longrightarrow> list_all2 P (sql_limit l off xs) (sql_limit l off ys)"
  by (simp add: sql_limit_def Let_def list_all2_takeI list_all2_dropI)

lemma list_all2_filter_rows:
  "list_all2 row_rep rs es \<Longrightarrow> (\<And>r e. row_rep r e \<Longrightarrow> P r = Q e) \<Longrightarrow>
   list_all2 row_rep (filter P rs) (filter Q es)"
  by (induction rule: list_all2_induct) auto

lemma sort_rows: "sorted_wrt (<) (map er_sequence_number rs) \<Longrightarrow> sort_key er_sequence_number rs = rs"
  by (simp add: sorted_sort_id strict_sorted_imp_sorted sort_key_id_if_sorted)

lemma sorted_wrt_filter_map:
  "sorted_wrt R (map f xs) \<Longrightarrow> sorted_wrt R (map f (filter P xs))"
  by (induction xs) auto

lemma row_ids: "list_all2 row_rep rs es \<Longrightarrow> map er_event_id rs = map ev_id es"
  by (induction rule: list_all2_induct) (auto simp: row_rep_def)

lemma insert_event_new:
  assumes "log_rep db es" and "wf_event e" and "ev_id e \<notin> set (map ev_id es)"
  shows "\<exists>db'. insert_event e db = (Inr (), db') \<and> log_rep db' (es @ [e])"
proof -
  have ids: "map er_event_id (db_events db) = map ev_id es"
    using assms(1) row_ids by (simp add: log_rep_def)
  have j: "json_dumps (PDict (ev_metadata e)) = Inr (JText (PDict (ev_metadata e)))"
    "json_dumps (PDict (event_to_dict e)) = Inr (JText (PDict (event_to_dict e)))"
    using assms(2) json_ok_event_to_dict [OF assms(2)]
    by (simp_all add: wf_event_def json_dumps_def del: json_ok.simps)
  have fresh: "ev_id e \<notin> set (map er_event_id (db_events db))" unfolding ids by (rule assms(3))
  let ?r = "\<lparr>er_sequence_number = db_last_sequence db + 1, er_event_id = ev_id e,
     er_runtime_id = ev_runtime_id e, er_correlation_id = ev_correlation_id e,
     er_causation_id = ev_causation_id e, er_timestamp = ev_timestamp e,
     er_event_type = event_class (ev_kind e), er_version = ev_version e,
     er_metadata = JText (PDict (ev_metadata e)), er_data_payload = JText (PDict (event_to_dict e))\<rparr>"
  let ?db = "db\<lparr>db_events := db_events db @ [?r], db_last_sequence := db_last_sequence db + 1\<rparr>"
  have "insert_event e db = (Inr (), ?db)"
    unfolding insert_event_def Let_def j using fresh by (simp only: bindE_simps sum.case prod.case if_False)
  moreover have "row_rep ?r e" using assms(2) by (simp add: row_rep_def)
  then have "log_rep ?db (es @ [e])"
    using assms(1,3) by (auto simp: log_rep_def list_all2_appendI sorted_wrt_append le_imp_less_Suc)
  ultimately show ?thesis by blast
qed

lemma insert_event_duplicate:
  assumes "log_rep db es" and "ev_id e \<in> set (map ev_id es)"
  shows "\<exists>err. insert_event e db = (Inl err, db)"
proof -
  have "ev_id e \<in> set (map er_event_id (db_events db))"
    using assms row_ids by (metis log_rep_def)
  then show ?thesis
    unfolding insert_event_def Let_def by (simp add: bindE_def split: sum.split)
qed

lemma store_append_new:
  "log_rep db es \<Longrightarrow> wf_event e \<Longrightarrow> ev_id e \<notin> set (map ev_id es) \<Longrightarrow>
   \<exists>db'. store_append e db = (Inr (), db') \<and> log_rep db' (es @ [e])"
  using insert_event_new [of db es e] by (auto simp: store_append_def transaction_def)

lemma store_append_duplicate:
  "log_rep db es \<Longrightarrow> ev_id e \<in> set (map ev_id es) \<Longrightarrow> \<exists>err. store_append e db = (Inl err, db)"
  using insert_event_duplicate [of db es e] by (auto simp: store_append_def transaction_def)

lemma stream_rep: "log_rep db es \<Longrightarrow> stream uid now limit offset db = Inr (sql_limit limit offset es)"
  by (simp add: stream_def log_rep_def sort_rows mapE_decode list_all2_sql_limit)

lemma stream_from_rep:
  assumes "log_rep db es"
  shows "stream_from uid now t limit offset db =
         Inr (sql_limit limit offset (filter (\<lambda>e. t \<le> ev_timestamp e) es))"
proof -
  have "list_all2 row_rep (filter (\<lambda>r. t \<le> er_timestamp r) (db_events db)) (filter (\<lambda>e. t \<le> ev_timestamp e) es)"
    using assms by (intro list_all2_filter_rows) (auto simp: log_rep_def row_rep_def)
  then show ?thesis using assms
    by (simp add: stream_from_def log_rep_def sort_rows sorted_wrt_filter_map mapE_decode list_all2_sql_limit)
qed

lemma replay_rep:
  assumes "log_rep db es"
  shows "replay uid now rid db = Inr (filter (\<lambda>e. ev_runtime_id e = rid) es)"
proof -
  have "list_all2 row_rep (filter (\<lambda>r. er_runtime_id r = rid) (db_events db)) (filter (\<lambda>e. ev_runtime_id e = rid) es)"
    using assms by (intro list_all2_filter_rows) (auto simp: log_rep_def row_rep_def)
  then show ?thesis using assms
    by (simp add: replay_def log_rep_def sort_rows sorted_wrt_filter_map mapE_decode)
qed

lemma store_load_rep:
  assumes "log_rep db es"
  shows "store_load uid now i db = Inr (List.find (\<lambda>e. ev_id e = i) es)"
proof -
  from assms have "list_all2 row_rep (db_events db) es" by (simp add: log_rep_def)
  then have "(case List.find (\<lambda>r. er_event_id r = i) (db_events db) of None \<Rightarrow> Inr None
      | Some row \<Rightarrow> bindE (decode_event uid now row) (\<lambda>e. Inr (Some e))) = Inr (List.find (\<lambda>e. ev_id e = i) es)"
    by (induction rule: list_all2_induct) (auto simp: decode_row_rep, auto simp: row_rep_def)
  then show ?thesis by (simp add: store_load_def)
qed

lemma count_events_rep: "log_rep db es \<Longrightarrow> count_events db = int (length es)"
  by (auto simp: count_events_def log_rep_def dest: list_all2_lengthD)

lemma log_rep_init: "log_rep initialize_schema []"
  by (simp add: log_rep_def initialize_schema_def)

lemma truncate_rep: "log_rep db es \<Longrightarrow> log_rep (truncate_events db) []"
  by (simp add: log_rep_def truncate_events_def)

interpretation sq: event_log log_rep store_append "stream uid now" "stream_from uid now" truncate_events
  for uid now
  by unfold_locales
    (rule store_append_new store_append_duplicate stream_rep stream_from_rep truncate_rep; assumption)+

text \<open>A batch is appended as a whole or not at all.\<close>

lemma forS_insert:
  "log_rep db es \<Longrightarrow> list_all wf_event fs \<Longrightarrow>
   (if distinct (map ev_id (es @ fs)) then \<exists>db'. forS insert_event fs db = (Inr (), db') \<and> log_rep db' (es @ fs)
    else \<exists>err db'. forS insert_event fs db = (Inl err, db'))"
proof (induction fs arbitrary: db es)
  case (Cons f fs)
  show ?case
  proof (cases "ev_id f \<in> set (map ev_id es)")
    case True
    with Cons.prems insert_event_duplicate [of db es f] show ?thesis by (auto simp: bindS_def)
  next
    case False
    with Cons.prems insert_event_new [of db es f] obtain db1 where
      "insert_event f db = (Inr (), db1)" "log_rep db1 (es @ [f])" by auto
    with Cons.IH [of db1 "es @ [f]"] Cons.prems show ?thesis by (auto simp: bindS_def split: if_splits)
  qed
qed (auto simp: log_rep_def)

lemma append_batch_atomic:
  assumes "log_rep db es" and "list_all wf_event fs"
  shows "if distinct (map ev_id (es @ fs))
         then \<exists>db'. append_batch fs db = (Inr (), db') \<and> log_rep db' (es @ fs)
         else \<exists>err. append_batch fs db = (Inl err, db)"
  using forS_insert [OF assms] by (auto simp: append_batch_def transaction_def split: if_splits)

section \<open>What is saved is loaded\<close>

definition task_row_of :: "task_state \<Rightarrow> task_row" where
  "task_row_of s =
     \<lparr>tr_task_id = ts_task_id s, tr_title = ts_title s, tr_task_type = ts_task_type s,
      tr_status = ts_status s, tr_created_at = ts_created_at s, tr_started_at = ts_started_at s,
      tr_completed_at = ts_completed_at s, tr_retry_count = ts_retry_count s,
      tr_metadata = JText (PDict (ts_metadata s)), tr_error_message = ts_error_message s,
      tr_version = ts_version s\<rparr>"

lemma task_row_roundtrip: "task_state_from_dict (task_row_data (task_row_of s)) = Inr s"
  by (simp add: task_state_from_dict_def task_row_data_def task_row_of_def field_defs)

lemma task_repo_save_ok:
  "task_state_ok s \<Longrightarrow> task_repo_save s db =
     (Inr (), db\<lparr>db_tasks := insert_or_replace (ts_task_id s) (task_row_of s) (db_tasks db)\<rparr>)"
  by (simp add: task_repo_save_def task_state_ok_def json_dumps_def task_row_of_def)

lemma insert_fresh: "k \<notin> set (dkeys t) \<Longrightarrow> insert_or_replace k r t = t @ [(k, r)]"
  by (simp add: insert_or_replace_def delete_id)

lemma save_tasks:
  "list_all task_state_ok ts \<Longrightarrow> distinct (dkeys (db_tasks db) @ map ts_task_id ts) \<Longrightarrow>
   forS task_repo_save ts db =
     (Inr (), db\<lparr>db_tasks := db_tasks db @ map (\<lambda>t. (ts_task_id t, task_row_of t)) ts\<rparr>)"
  by (induction ts arbitrary: db) (auto simp: bindS_def task_repo_save_ok insert_fresh)

lemma save_workers:
  "distinct (dkeys (db_workers db) @ map ws_worker_id ws) \<Longrightarrow>
   forS worker_repo_save ws db =
     (Inr (), db\<lparr>db_workers := db_workers db @ map (\<lambda>w. (ws_worker_id w, w)) ws\<rparr>)"
  by (induction ws arbitrary: db) (auto simp: bindS_def worker_repo_save_def insert_fresh)

text \<open>A state whose dictionaries are keyed by the ids of their values.\<close>

definition keyed_state :: "runtime_state \<Rightarrow> bool" where
  "keyed_state s \<longleftrightarrow>
     list_all (\<lambda>kv. ts_task_id (snd kv) = fst kv) (rs_tasks s) \<and> wf_dict (rs_tasks s) \<and>
     list_all (\<lambda>kv. ws_worker_id (snd kv) = fst kv) (rs_workers s) \<and> wf_dict (rs_workers s)"

lemma keyed_dict: "list_all (\<lambda>kv. key (snd kv) = fst kv) d \<Longrightarrow> map (\<lambda>x. (key x, x)) (dvalues d) = d"
  by (induction d) auto

lemma dict_by_distinct:
  "distinct (map key xs) \<Longrightarrow> dict_by key xs = map (\<lambda>x. (key x, x)) xs"
proof -
  have "distinct (dkeys d @ map key xs) \<Longrightarrow> fold (\<lambda>x. dset (key x) x) xs d = d @ map (\<lambda>x. (key x, x)) xs" for d
    by (induction xs arbitrary: d) (auto simp: update_fresh_append)
  from this [of "[]"] show "distinct (map key xs) \<Longrightarrow> dict_by key xs = map (\<lambda>x. (key x, x)) xs"
    by (simp add: dict_by_def)
qed

lemma queue_row_roundtrip:
  "queue_state_from_dict (queue_row_data \<lparr>qr_queued_task_ids = JText (PList (map PStr (qs_queued_task_ids q))),
     qr_size = qs_size q, qr_capacity = qs_capacity q, qr_policy_type = qs_policy_type q,
     qr_version = qs_version q\<rparr>) = Inr q"
  by (simp add: queue_state_from_dict_def queue_row_data_def field_defs)

lemma scheduler_row_roundtrip:
  "scheduler_state_from_dict (scheduler_row_data
     \<lparr>sr_started = (if ss_started s then 1 else 0), sr_uptime_seconds = ss_uptime_seconds s,
      sr_delayed_task_ids = JText (PList (map PStr (ss_delayed_task_ids s))),
      sr_active_timeouts = JText (PDict (dmap PFloat (ss_active_timeouts s))), sr_timestamp = t,
      sr_version = ss_version s\<rparr>) = Inr s"
  by (simp add: scheduler_state_from_dict_def scheduler_row_data_def field_defs dmapE_dmap)

lemma distinct_ids:
  "list_all (\<lambda>kv. key (snd kv) = fst kv) d \<Longrightarrow> wf_dict d \<Longrightarrow> distinct (map key (dvalues d))"
proof -
  assume "list_all (\<lambda>kv. key (snd kv) = fst kv) d" and "wf_dict d"
  moreover from this(1) have "map key (dvalues d) = dkeys d" by (induction d) auto
  ultimately show "distinct (map key (dvalues d))" by (simp only: wf_dict_def)
qed

lemma save_runtime_state_ok:
  assumes "runtime_state_ok s" and "keyed_state s"
  shows "save_runtime_state s db = (Inr (), db
    \<lparr>db_tasks := map (\<lambda>t. (ts_task_id t, task_row_of t)) (dvalues (rs_tasks s)),
     db_workers := rs_workers s,
     db_queue_state := Some
       \<lparr>qr_queued_task_ids = JText (PList (map PStr (qs_queued_task_ids (rs_queue s)))),
        qr_size = qs_size (rs_queue s), qr_capacity = qs_capacity (rs_queue s),
        qr_policy_type = qs_policy_type (rs_queue s), qr_version = qs_version (rs_queue s)\<rparr>,
     db_scheduler_state := Some
       \<lparr>sr_started = (if ss_started (rs_scheduler s) then 1 else 0),
        sr_uptime_seconds = ss_uptime_seconds (rs_scheduler s),
        sr_delayed_task_ids = JText (PList (map PStr (ss_delayed_task_ids (rs_scheduler s)))),
        sr_active_timeouts = JText (PDict (dmap PFloat (ss_active_timeouts (rs_scheduler s)))),
        sr_timestamp = rs_timestamp s, sr_version = ss_version (rs_scheduler s)\<rparr>\<rparr>)"
proof -
  from assms have k: "list_all task_state_ok (dvalues (rs_tasks s))"
      "distinct (map ts_task_id (dvalues (rs_tasks s)))"
      "distinct (map ws_worker_id (dvalues (rs_workers s)))"
      "map (\<lambda>w. (ws_worker_id w, w)) (dvalues (rs_workers s)) = rs_workers s"
    using distinct_ids [of ts_task_id "rs_tasks s"] distinct_ids [of ws_worker_id "rs_workers s"]
      keyed_dict [of ws_worker_id "rs_workers s"]
    by (simp_all add: runtime_state_ok_def keyed_state_def list_all_iff)
  let ?db = "db\<lparr>db_tasks := [], db_workers := []\<rparr>"
  let ?db1 = "?db\<lparr>db_tasks := map (\<lambda>t. (ts_task_id t, task_row_of t)) (dvalues (rs_tasks s))\<rparr>"
  have "forS task_repo_save (dvalues (rs_tasks s)) ?db = (Inr (), ?db1)"
    using save_tasks [of "dvalues (rs_tasks s)" ?db] k(1,2) by simp
  moreover have "forS worker_repo_save (dvalues (rs_workers s)) ?db1 = (Inr (), ?db1\<lparr>db_workers := rs_workers s\<rparr>)"
    using save_workers [of ?db1 "dvalues (rs_workers s)"] k(3,4) by simp
  moreover have "json_ok (PDict (dmap PFloat (ss_active_timeouts (rs_scheduler s))))"
    by (auto simp: dmap_def)
  ultimately show ?thesis
    by (simp add: save_runtime_state_def transaction_def bindS_def clear_components_def
        save_queue_state_def save_scheduler_state_def json_dumps_def del: json_ok.simps)
qed

lemma mapE_ident: "mapE Inr xs = Inr xs"
  by (induction xs) auto

lemma load_saved_state:
  assumes "runtime_state_ok s" and "keyed_state s"
  shows "\<exists>db'. save_runtime_state s db = (Inr (), db') \<and> db_events db' = db_events db \<and>
     load_runtime_state now db' =
       Inr (Some (s\<lparr>rs_timestamp := (if rs_timestamp s = [] then now else rs_timestamp s),
                    rs_schema_version := 1\<rparr>))"
proof -
  from assms(2) have k: "distinct (map ts_task_id (dvalues (rs_tasks s)))"
      "distinct (map ws_worker_id (dvalues (rs_workers s)))"
      "map (\<lambda>t. (ts_task_id t, t)) (dvalues (rs_tasks s)) = rs_tasks s"
      "map (\<lambda>w. (ws_worker_id w, w)) (dvalues (rs_workers s)) = rs_workers s"
    unfolding keyed_state_def by (blast intro: distinct_ids keyed_dict)+
  have "mapE (\<lambda>r. task_state_from_dict (task_row_data r)) (map task_row_of (dvalues (rs_tasks s)))
      = Inr (dvalues (rs_tasks s))"
    by (rule mapE_map) (rule task_row_roundtrip)
  moreover have "mapE (\<lambda>r. worker_state_from_dict (worker_state_to_dict r)) (dvalues (rs_workers s))
      = Inr (dvalues (rs_workers s))"
    by (simp add: mapE_ident)
  ultimately show ?thesis
    using k by (simp add: save_runtime_state_ok [OF assms] load_runtime_state_def queue_row_roundtrip
        scheduler_row_roundtrip task_repo_list_all_def worker_repo_list_all_def dict_by_distinct comp_def)
qed

lemma transaction_rollback: "transaction m db = (Inl e, db') \<Longrightarrow> db' = db"
  by (auto simp: transaction_def split: prod.splits sum.splits)

lemma snapshot_roundtrip_aux:
  assumes "runtime_state_ok s"
  shows "\<exists>db'. save_snapshot i s db = (Inr (), db') \<and> load_snapshot i db' = Inr (Some s) \<and>
           (\<forall>j. j \<noteq> i \<longrightarrow> load_snapshot j db' = load_snapshot j db)"
proof -
  have "dget (dpop i t @ [(i, r)]) j = (if j = i then Some r else dget t j)" for t :: "(string \<times> snapshot_row) list" and r j
    by (simp add: dget_delete map_add_def split: option.split)
  with json_ok_runtime_state [OF assms] runtime_state_roundtrip_aux [OF assms] show ?thesis
    by (simp add: save_snapshot_def load_snapshot_def json_dumps_def transaction_def insert_or_replace_def
        del: json_ok.simps map_of_append)
qed

section \<open>The connection\<close>

text \<open>
  The state store with its connection, which a client may close: from then on \<open>BEGIN\<close> raises in every
  transaction, before the lock is kept. Closing twice is allowed.
\<close>

record sqlite_store =
  st_db :: database
  st_closed :: bool

definition sqlite_store_init :: sqlite_store where
  "sqlite_store_init = \<lparr>st_db = initialize_schema, st_closed = False\<rparr>"

definition in_transaction :: "'a sql \<Rightarrow> sqlite_store \<Rightarrow> (py_error + 'a) \<times> sqlite_store" where
  "in_transaction m s =
     (if st_closed s then (Inl (ProgrammingError ''Cannot operate on a closed database.''), s)
      else case transaction m (st_db s) of (res, db) \<Rightarrow> (res, s\<lparr>st_db := db\<rparr>))"

definition health_check :: "sqlite_store \<Rightarrow> bool" where
  "health_check s =
     (case in_transaction (\<lambda>db. (Inr (1 :: int), db)) s of (Inl e, _) \<Rightarrow> False | (Inr n, _) \<Rightarrow> n = 1)"

definition store_close :: "sqlite_store \<Rightarrow> sqlite_store" where
  "store_close s = s\<lparr>st_closed := True\<rparr>"

lemma health_check_iff: "health_check s \<longleftrightarrow> \<not> st_closed s"
  by (simp add: health_check_def in_transaction_def transaction_def)

lemma closed_store_refuses: "\<exists>e. in_transaction m (store_close s) = (Inl e, store_close s)"
  by (simp add: in_transaction_def store_close_def)

lemma failed_transaction_keeps_store: "in_transaction m s = (Inl e, s') \<Longrightarrow> s' = s"
  by (auto simp: in_transaction_def split: if_splits prod.splits dest: transaction_rollback)

end
