(* ===== verification/Persistence_Ports.thy ===== *)
theory Persistence_Ports
  imports SQLite_Store
begin

text \<open>
  The ports of the persistence layer, \<^verbatim>\<open>persistence/domain/ports.py\<close>: each abstract class is the record of
  its operations on the state \<open>'d\<close> of whoever implements it, and the SQLite adapter is a value of each.
  What an event store promises is the locale \<open>event_log\<close>; clients that go through the ports, the recovery
  manager for one, take the record.
\<close>

section \<open>The ports\<close>

record 'd task_state_repository =
  tsr_save :: "task_state \<Rightarrow> 'd \<Rightarrow> (py_error + unit) \<times> 'd"
  tsr_get :: "string \<Rightarrow> 'd \<Rightarrow> py_error + task_state option"
  tsr_list_all :: "'d \<Rightarrow> py_error + task_state list"
  tsr_delete :: "string \<Rightarrow> 'd \<Rightarrow> 'd"

record 'd worker_state_repository =
  wsr_save :: "worker_state \<Rightarrow> 'd \<Rightarrow> (py_error + unit) \<times> 'd"
  wsr_get :: "string \<Rightarrow> 'd \<Rightarrow> py_error + worker_state option"
  wsr_list_all :: "'d \<Rightarrow> py_error + worker_state list"

record 'd event_store =
  es_append :: "runtime_event \<Rightarrow> 'd \<Rightarrow> (py_error + unit) \<times> 'd"
  es_append_batch :: "runtime_event list \<Rightarrow> 'd \<Rightarrow> (py_error + unit) \<times> 'd"
  es_load :: "string \<Rightarrow> 'd \<Rightarrow> py_error + runtime_event option"
  es_stream :: "int \<Rightarrow> int \<Rightarrow> 'd \<Rightarrow> py_error + runtime_event list"
  es_stream_from :: "string \<Rightarrow> int \<Rightarrow> int \<Rightarrow> 'd \<Rightarrow> py_error + runtime_event list"
  es_replay :: "string \<Rightarrow> 'd \<Rightarrow> py_error + runtime_event list"
  es_count :: "'d \<Rightarrow> int"
  es_truncate :: "'d \<Rightarrow> 'd"

text \<open>
  A state store may carry an event store, which clients look for with \<open>getattr\<close>; \<open>bss_transaction\<close> runs a
  block of operations inside a transaction. The adapter is the one of an open connection.
\<close>

record 'd base_state_store =
  bss_transaction :: "('d \<Rightarrow> (py_error + unit) \<times> 'd) \<Rightarrow> 'd \<Rightarrow> (py_error + unit) \<times> 'd"
  bss_save_runtime_state :: "runtime_state \<Rightarrow> 'd \<Rightarrow> (py_error + unit) \<times> 'd"
  bss_load_runtime_state :: "'d \<Rightarrow> py_error + runtime_state option"
  bss_save_snapshot :: "string \<Rightarrow> runtime_state \<Rightarrow> 'd \<Rightarrow> (py_error + unit) \<times> 'd"
  bss_load_snapshot :: "string \<Rightarrow> 'd \<Rightarrow> py_error + runtime_state option"
  bss_list_snapshots :: "'d \<Rightarrow> string list"
  bss_delete_snapshot :: "string \<Rightarrow> 'd \<Rightarrow> 'd"
  bss_health_check :: "'d \<Rightarrow> bool"
  bss_event_store :: "'d event_store option"

section \<open>The SQLite adapter behind the ports\<close>

definition sqlite_task_repository :: "database task_state_repository" where
  "sqlite_task_repository =
     \<lparr>tsr_save = task_repo_save, tsr_get = task_repo_get, tsr_list_all = task_repo_list_all,
      tsr_delete = task_repo_delete\<rparr>"

definition sqlite_worker_repository :: "database worker_state_repository" where
  "sqlite_worker_repository =
     \<lparr>wsr_save = worker_repo_save, wsr_get = worker_repo_get, wsr_list_all = worker_repo_list_all\<rparr>"

definition sqlite_event_store :: "string \<Rightarrow> string \<Rightarrow> database event_store" where
  "sqlite_event_store uid now =
     \<lparr>es_append = store_append, es_append_batch = append_batch, es_load = store_load uid now,
      es_stream = stream uid now, es_stream_from = stream_from uid now, es_replay = replay uid now,
      es_count = count_events, es_truncate = truncate_events\<rparr>"

definition sqlite_state_store :: "string \<Rightarrow> string \<Rightarrow> database base_state_store" where
  "sqlite_state_store uid now =
     \<lparr>bss_transaction = transaction, bss_save_runtime_state = save_runtime_state,
      bss_load_runtime_state = load_runtime_state now, bss_save_snapshot = save_snapshot,
      bss_load_snapshot = load_snapshot, bss_list_snapshots = list_snapshots,
      bss_delete_snapshot = delete_snapshot, bss_health_check = (\<lambda>db. health_check \<lparr>st_db = db, st_closed = False\<rparr>),
      bss_event_store = Some (sqlite_event_store uid now)\<rparr>"

lemma sqlite_ports_simps [simp]:
  "bss_load_runtime_state (sqlite_state_store uid now) = load_runtime_state now"
  "bss_event_store (sqlite_state_store uid now) = Some (sqlite_event_store uid now)"
  "es_stream (sqlite_event_store uid now) = stream uid now"
  "es_stream_from (sqlite_event_store uid now) = stream_from uid now"
  by (simp_all add: sqlite_state_store_def sqlite_event_store_def)

end
