(* ===== verification/Recovery.thy ===== *)
theory Recovery
  imports Persistence_Ports
begin

text \<open>
  State recovery: \<^verbatim>\<open>persistence/recovery/manager.py\<close>. The local variables of the replay loop are the
  record \<open>replay_state\<close>; one event is one application of \<open>apply_event\<close>.
\<close>

section \<open>Replaying events\<close>

datatype recovery_policy = FROM_LATEST_SNAPSHOT | FROM_GENESIS

fun policy_value :: "recovery_policy \<Rightarrow> string" where
  "policy_value FROM_LATEST_SNAPSHOT = ''FROM_LATEST_SNAPSHOT''"
| "policy_value FROM_GENESIS = ''FROM_GENESIS''"

record recovery_report =
  rr_success :: bool
  rr_policy_applied :: string
  rr_snapshot_loaded :: bool
  rr_snapshot_timestamp :: "string option"
  rr_events_replayed_count :: nat
  rr_tasks_recovered_count :: nat
  rr_workers_recovered_count :: nat
  rr_duration_seconds :: rat

record replay_state =
  rv_tasks :: "(string \<times> task_state) list"
  rv_workers :: "(string \<times> worker_state) list"
  rv_queued_task_ids :: "string list"
  rv_queue_size :: int
  rv_sched_started :: bool
  rv_delayed_ids :: "string list"
  rv_active_timeouts :: "(string \<times> rat) list"

text \<open>\<open>if k in d: d[k] = dataclass_replace(d[k], ...)\<close>.\<close>

definition dupdate :: "string \<Rightarrow> ('a \<Rightarrow> 'a) \<Rightarrow> (string \<times> 'a) list \<Rightarrow> (string \<times> 'a) list" where
  "dupdate k f d = (case dget d k of None \<Rightarrow> d | Some x \<Rightarrow> dset k (f x) d)"

definition set_queue :: "string list \<Rightarrow> replay_state \<Rightarrow> replay_state" where
  "set_queue ids s = s\<lparr>rv_queued_task_ids := ids, rv_queue_size := int (length ids)\<rparr>"

text \<open>The branches of \<open>TaskCompleted\<close>, \<open>TaskFailed\<close>, \<open>TaskCancelled\<close> and \<open>TaskTimedOut\<close>.\<close>

definition end_task :: "string \<Rightarrow> (task_state \<Rightarrow> task_state) \<Rightarrow> replay_state \<Rightarrow> replay_state" where
  "end_task i f s =
     set_queue (remove1 i (rv_queued_task_ids s)) (s\<lparr>rv_tasks := dupdate i f (rv_tasks s)\<rparr>)"

fun apply_kind :: "string \<Rightarrow> pydict \<Rightarrow> event_kind \<Rightarrow> replay_state \<Rightarrow> replay_state" where
  "apply_kind t md (TaskSubmitted i title ty) s =
     s\<lparr>rv_tasks := dset i
        \<lparr>ts_task_id = i, ts_title = title, ts_task_type = ty, ts_status = ''Pending'',
         ts_created_at = t, ts_started_at = None, ts_completed_at = None, ts_retry_count = 0,
         ts_metadata = md, ts_error_message = None, ts_version = 1\<rparr> (rv_tasks s)\<rparr>"
| "apply_kind t md (TaskQueued i) s =
     (let ids = rv_queued_task_ids s
      in (set_queue (if i \<in> set ids then ids else ids @ [i]) s)
           \<lparr>rv_tasks := dupdate i (ts_status_update (\<lambda>_. ''Pending'')) (rv_tasks s)\<rparr>)"
| "apply_kind t md (TaskDequeued i) s = set_queue (remove1 i (rv_queued_task_ids s)) s"
| "apply_kind t md (TaskStarted i) s =
     s\<lparr>rv_tasks := dupdate i (\<lambda>x. x\<lparr>ts_status := ''Running'', ts_started_at := Some t\<rparr>) (rv_tasks s)\<rparr>"
| "apply_kind t md (TaskCompleted i) s =
     end_task i (\<lambda>x. x\<lparr>ts_status := ''Completed'', ts_completed_at := Some t\<rparr>) s"
| "apply_kind t md (TaskFailed i m) s =
     end_task i (\<lambda>x. x\<lparr>ts_status := ''Failed'', ts_completed_at := Some t, ts_error_message := Some m\<rparr>) s"
| "apply_kind t md (TaskCancelled i) s =
     end_task i (\<lambda>x. x\<lparr>ts_status := ''Failed'', ts_completed_at := Some t,
                      ts_error_message := Some ''Task cancelled.''\<rparr>) s"
| "apply_kind t md (TaskTimedOut i) s =
     end_task i (\<lambda>x. x\<lparr>ts_status := ''Failed'', ts_completed_at := Some t,
                      ts_error_message := Some ''Task timed out.''\<rparr>) s"
| "apply_kind t md (TaskRetried i n) s =
     s\<lparr>rv_tasks := dupdate i (\<lambda>x. x\<lparr>ts_status := ''Pending'', ts_retry_count := n\<rparr>) (rv_tasks s)\<rparr>"
| "apply_kind t md (WorkerStarted w) s =
     s\<lparr>rv_workers := dset w
        \<lparr>ws_worker_id = w, ws_state = ''idle'', ws_current_task_id = None, ws_heartbeat_time = t,
         ws_tasks_processed = 0, ws_failures = 0, ws_start_time = t, ws_version = 1\<rparr> (rv_workers s)\<rparr>"
| "apply_kind t md (WorkerStopped w) s =
     s\<lparr>rv_workers := dupdate w (ws_state_update (\<lambda>_. ''stopped'')) (rv_workers s)\<rparr>"
| "apply_kind t md (WorkerHeartbeat w h) s =
     s\<lparr>rv_workers := dupdate w (ws_heartbeat_time_update (\<lambda>_. h)) (rv_workers s)\<rparr>"
| "apply_kind t md (WorkerFailed w m) s =
     s\<lparr>rv_workers := dupdate w (\<lambda>x. x\<lparr>ws_state := ''failed'', ws_failures := ws_failures x + 1\<rparr>)
        (rv_workers s)\<rparr>"
| "apply_kind t md (WorkerRecovered w) s =
     s\<lparr>rv_workers := dupdate w (ws_state_update (\<lambda>_. ''idle'')) (rv_workers s)\<rparr>"
| "apply_kind t md SchedulerStarted s = s\<lparr>rv_sched_started := True\<rparr>"
| "apply_kind t md SchedulerStopped s = s\<lparr>rv_sched_started := False\<rparr>"
| "apply_kind t md (RetryScheduled i d) s =
     (if i \<in> set (rv_delayed_ids s) then s else s\<lparr>rv_delayed_ids := rv_delayed_ids s @ [i]\<rparr>)"
| "apply_kind t md (TimeoutTriggered i d) s =
     s\<lparr>rv_active_timeouts := dset i d (rv_active_timeouts s)\<rparr>"
| "apply_kind t md (DelayedTaskReleased i) s = s\<lparr>rv_delayed_ids := remove1 i (rv_delayed_ids s)\<rparr>"
| "apply_kind t md _ s = s"

definition apply_event :: "runtime_event \<Rightarrow> replay_state \<Rightarrow> replay_state" where
  "apply_event e = apply_kind (ev_timestamp e) (ev_metadata e) (ev_kind e)"

definition apply_events :: "runtime_event list \<Rightarrow> replay_state \<Rightarrow> replay_state" where
  "apply_events es s = fold apply_event es s"

section \<open>Recovery\<close>

definition genesis_state :: "string \<Rightarrow> runtime_state" where
  "genesis_state now =
     \<lparr>rs_timestamp = now, rs_tasks = [], rs_workers = [],
      rs_queue = \<lparr>qs_queued_task_ids = [], qs_size = 0, qs_capacity = None, qs_policy_type = ''FIFO'',
                  qs_version = 1\<rparr>,
      rs_scheduler = \<lparr>ss_started = False, ss_uptime_seconds = 0, ss_delayed_task_ids = [],
                      ss_active_timeouts = [], ss_version = 1\<rparr>,
      rs_schema_version = 1\<rparr>"

definition unpack_state :: "runtime_state \<Rightarrow> replay_state" where
  "unpack_state b =
     \<lparr>rv_tasks = rs_tasks b, rv_workers = rs_workers b,
      rv_queued_task_ids = qs_queued_task_ids (rs_queue b), rv_queue_size = qs_size (rs_queue b),
      rv_sched_started = ss_started (rs_scheduler b),
      rv_delayed_ids = ss_delayed_task_ids (rs_scheduler b),
      rv_active_timeouts = ss_active_timeouts (rs_scheduler b)\<rparr>"

definition pack_state :: "string \<Rightarrow> runtime_state \<Rightarrow> replay_state \<Rightarrow> runtime_state" where
  "pack_state now b s =
     \<lparr>rs_timestamp = now, rs_tasks = rv_tasks s, rs_workers = rv_workers s,
      rs_queue = \<lparr>qs_queued_task_ids = rv_queued_task_ids s, qs_size = rv_queue_size s,
                  qs_capacity = qs_capacity (rs_queue b), qs_policy_type = qs_policy_type (rs_queue b),
                  qs_version = qs_version (rs_queue b)\<rparr>,
      rs_scheduler = \<lparr>ss_started = rv_sched_started s,
                      ss_uptime_seconds = ss_uptime_seconds (rs_scheduler b),
                      ss_delayed_task_ids = rv_delayed_ids s,
                      ss_active_timeouts = rv_active_timeouts s,
                      ss_version = ss_version (rs_scheduler b)\<rparr>,
      rs_schema_version = 1\<rparr>"

text \<open>
  \<open>recover\<close> on any state store, with or without an event store; \<open>now\<close> is the clock and \<open>dur\<close> the time the
  call took.
\<close>

definition recover_on ::
  "'db base_state_store \<Rightarrow> string \<Rightarrow> rat \<Rightarrow> recovery_policy \<Rightarrow> 'db \<Rightarrow> py_error + runtime_state \<times> recovery_report" where
  "recover_on store now dur policy db =
     bindE (if policy = FROM_LATEST_SNAPSHOT then bss_load_runtime_state store db else Inr None) (\<lambda>loaded.
     let base_state = (case loaded of Some s \<Rightarrow> s | None \<Rightarrow> genesis_state now);
         snapshot_timestamp = map_option rs_timestamp loaded
     in bindE (case bss_event_store store of
                 None \<Rightarrow> Inr []
               | Some event_store \<Rightarrow>
                   (case snapshot_timestamp of
                      Some t \<Rightarrow> if t \<noteq> [] then es_stream_from event_store t 100 0 db
                                else es_stream event_store 100000 0 db
                    | None \<Rightarrow> es_stream event_store 100000 0 db)) (\<lambda>events.
        let s = apply_events events (unpack_state base_state)
        in Inr (pack_state now base_state s,
             \<lparr>rr_success = True, rr_policy_applied = policy_value policy,
              rr_snapshot_loaded = (loaded \<noteq> None), rr_snapshot_timestamp = snapshot_timestamp,
              rr_events_replayed_count = length events,
              rr_tasks_recovered_count = length (rv_tasks s),
              rr_workers_recovered_count = length (rv_workers s), rr_duration_seconds = dur\<rparr>)))"

text \<open>On the SQLite store; \<open>uid\<close> is the id generator.\<close>

definition recover ::
  "string \<Rightarrow> string \<Rightarrow> rat \<Rightarrow> recovery_policy \<Rightarrow> database \<Rightarrow> py_error + runtime_state \<times> recovery_report" where
  "recover uid now dur policy db = recover_on (sqlite_state_store uid now) now dur policy db"

section \<open>Invariants of the replay\<close>

lemma apply_events_append: "apply_events (es @ fs) s = apply_events fs (apply_events es s)"
  by (simp add: apply_events_def)

lemma apply_events_Nil [simp]: "apply_events [] s = s"
  by (simp add: apply_events_def)

lemma apply_events_snoc [simp]: "apply_events (es @ [e]) s = apply_event e (apply_events es s)"
  by (simp add: apply_events_def)

lemma dupdate_keys [simp]: "dkeys (dupdate k f d) = dkeys d"
  by (auto simp: dupdate_def dkeys_update_present dest: dget_Some_key split: option.splits)

lemma wf_dict_dupdate [simp]: "wf_dict (dupdate k f d) = wf_dict d"
  by (simp add: wf_dict_def)

lemma list_all_dset:
  "list_all P d \<Longrightarrow> P (k, v) \<Longrightarrow> list_all P (dset k v d)"
  by (induction d) auto

lemma list_all_dupdate:
  "list_all P d \<Longrightarrow> (\<And>x. P (k, x) \<Longrightarrow> P (k, f x)) \<Longrightarrow> list_all P (dupdate k f d)"
proof (cases "dget d k")
  case (Some x)
  assume d: "list_all P d" and f: "\<And>x. P (k, x) \<Longrightarrow> P (k, f x)"
  from d Some have "P (k, x)" by (auto simp: list_all_iff dest: map_of_SomeD)
  with d f Some show ?thesis by (simp add: dupdate_def list_all_dset)
qed (simp add: dupdate_def)

text \<open>
  What the replay keeps: every collection is keyed and free of duplicates, the queue's size is the
  number of its ids, and the metadata of tasks can be encoded.
\<close>

definition replay_inv :: "replay_state \<Rightarrow> bool" where
  "replay_inv s \<longleftrightarrow>
     distinct (rv_queued_task_ids s) \<and> rv_queue_size s = int (length (rv_queued_task_ids s)) \<and>
     distinct (rv_delayed_ids s) \<and> wf_dict (rv_tasks s) \<and> wf_dict (rv_workers s) \<and>
     list_all (\<lambda>kv. ts_task_id (snd kv) = fst kv \<and> task_state_ok (snd kv)) (rv_tasks s) \<and>
     list_all (\<lambda>kv. ws_worker_id (snd kv) = fst kv) (rv_workers s)"

lemma apply_kind_inv:
  assumes "replay_inv s" and "json_ok (PDict md)"
  shows "replay_inv (apply_kind t md k s)"
  using assms
  by (cases k) (auto simp: replay_inv_def set_queue_def end_task_def Let_def task_state_ok_def
      intro!: list_all_dset list_all_dupdate)

lemma apply_events_inv:
  "replay_inv s \<Longrightarrow> list_all wf_event es \<Longrightarrow> replay_inv (apply_events es s)"
proof (induction es rule: rev_induct)
  case (snoc e es)
  then show ?case by (auto simp: apply_event_def wf_event_def intro: apply_kind_inv)
qed simp

lemma replay_inv_genesis: "replay_inv (unpack_state (genesis_state now))"
  by (simp add: replay_inv_def unpack_state_def genesis_state_def)

lemma unpack_pack [simp]: "unpack_state (pack_state now b s) = s"
  by (simp add: unpack_state_def pack_state_def)

lemma replay_inv_ok: "replay_inv s \<Longrightarrow> runtime_state_ok (pack_state t b s) \<and> keyed_state (pack_state t b s)"
  by (auto simp: replay_inv_def runtime_state_ok_def keyed_state_def pack_state_def list_all_iff)

section \<open>Recovery from a log\<close>

text \<open>What recovery does on any event store that keeps the contract of a log.\<close>

context event_log begin

lemma recover_on_genesis:
  assumes "represents db es" and "length es \<le> 100000"
    and "bss_event_store store = Some p" and "es_stream p = read_all"
  shows "\<exists>report. recover_on store now dur FROM_GENESIS db =
     Inr (pack_state now (genesis_state now) (apply_events es (unpack_state (genesis_state now))), report) \<and>
     rr_events_replayed_count report = length es"
  using assms sql_limit_all [of es 100000] by (simp add: recover_on_def read_all [OF assms(1)] Let_def)

text \<open>With a stored state the log is read from its timestamp on, at most a hundred events of it.\<close>

lemma recover_on_snapshot:
  assumes "represents db es" and "bss_load_runtime_state store db = Inr (Some b)" and "rs_timestamp b \<noteq> []"
    and "bss_event_store store = Some p" and "es_stream_from p = read_from"
  shows "\<exists>report. recover_on store now dur FROM_LATEST_SNAPSHOT db =
     Inr (pack_state now b (apply_events
            (take 100 (filter (\<lambda>e. rs_timestamp b \<le> ev_timestamp e) es)) (unpack_state b)), report) \<and>
     rr_snapshot_loaded report"
  using assms by (simp add: recover_on_def read_from [OF assms(1)] sql_limit_def Let_def)

end

text \<open>A store without an event store: what was saved is all there is.\<close>

lemma recover_on_without_events:
  assumes "bss_event_store store = None" and "bss_load_runtime_state store db = Inr (Some b)"
  shows "\<exists>report. recover_on store now dur FROM_LATEST_SNAPSHOT db = Inr (pack_state now b (unpack_state b), report) \<and>
     rr_events_replayed_count report = 0"
  using assms by (simp add: recover_on_def Let_def)

lemma recover_genesis:
  assumes "log_rep db es" and "length es \<le> 100000"
  shows "\<exists>report. recover uid now dur FROM_GENESIS db =
     Inr (pack_state now (genesis_state now) (apply_events es (unpack_state (genesis_state now))), report) \<and>
     rr_events_replayed_count report = length es"
  unfolding recover_def using assms by (rule sq.recover_on_genesis [where p = "sqlite_event_store uid now"]) simp_all

lemma recover_snapshot:
  assumes "log_rep db es" and "load_runtime_state now db = Inr (Some b)" and "rs_timestamp b \<noteq> []"
  shows "\<exists>report. recover uid now dur FROM_LATEST_SNAPSHOT db =
     Inr (pack_state now b (apply_events
            (take 100 (filter (\<lambda>e. rs_timestamp b \<le> ev_timestamp e) es)) (unpack_state b)), report) \<and>
     rr_snapshot_loaded report"
  unfolding recover_def using assms
  by (intro sq.recover_on_snapshot [where p = "sqlite_event_store uid now"]) simp_all

lemma log_rep_cong: "log_rep db es \<Longrightarrow> db_events db' = db_events db \<Longrightarrow>
    db_last_sequence db' = db_last_sequence db \<Longrightarrow> log_rep db' es"
  by (simp add: log_rep_def)

lemma save_keeps_log:
  "runtime_state_ok s \<Longrightarrow> keyed_state s \<Longrightarrow> save_runtime_state s db = (Inr (), db') \<Longrightarrow>
   log_rep db es \<Longrightarrow> log_rep db' es"
  by (auto simp: save_runtime_state_ok intro: log_rep_cong)

lemma load_runtime_state_cong:
  "db_tasks db' = db_tasks db \<Longrightarrow> db_workers db' = db_workers db \<Longrightarrow>
   db_queue_state db' = db_queue_state db \<Longrightarrow> db_scheduler_state db' = db_scheduler_state db \<Longrightarrow>
   load_runtime_state now db' = load_runtime_state now db"
  by (simp add: load_runtime_state_def task_repo_list_all_def worker_repo_list_all_def
      cong: option.case_cong)

lemma store_append_frame:
  "store_append e db = (res, db') \<Longrightarrow> load_runtime_state now db' = load_runtime_state now db"
  by (rule load_runtime_state_cong)
    (auto simp: store_append_def transaction_def insert_event_def Let_def
      split: sum.splits prod.splits if_splits)

lemma append_all_forS: "sq.append_all fs db = forS store_append fs db"
  by (induction fs arbitrary: db) (auto simp: bindS_def split: prod.split sum.split)

lemma append_all_frame:
  "forS store_append fs db = (res, db') \<Longrightarrow> load_runtime_state now db' = load_runtime_state now db"
proof (induction fs arbitrary: db)
  case (Cons f fs)
  from Cons.prems Cons.IH show ?case
    using store_append_frame [of f db] by (force simp: bindS_def split: prod.splits sum.splits)
qed simp

text \<open>
  Saving the state recovered from the log and replaying the later events gives the same state as
  replaying the whole log, as long as no more than a hundred events follow.
\<close>

lemma pack_genesis_again:
  "pack_state now (pack_state t (genesis_state t0) s) s' = pack_state now (genesis_state now) s'"
  by (simp add: pack_state_def genesis_state_def)

lemma unpack_genesis: "unpack_state (genesis_state t) = unpack_state (genesis_state t')"
  by (simp add: unpack_state_def genesis_state_def)

lemma filter_split:
  assumes "\<forall>e \<in> set es. ev_timestamp e < t" and "\<forall>e \<in> set fs. t \<le> ev_timestamp e"
  shows "filter (\<lambda>e. t \<le> ev_timestamp e) (es @ fs) = fs"
proof -
  have "filter (\<lambda>e. t \<le> ev_timestamp e) es = []" using assms(1) by (auto simp: filter_empty_conv)
  moreover have "filter (\<lambda>e. t \<le> ev_timestamp e) fs = fs" using assms(2) by (auto simp: filter_id_conv)
  ultimately show ?thesis by simp
qed

lemma log_rep_wf: "log_rep db es \<Longrightarrow> list_all wf_event es"
proof -
  assume "log_rep db es"
  then have "list_all2 row_rep (db_events db) es" by (simp add: log_rep_def)
  then show ?thesis by (induction rule: list_all2_induct) (auto simp: row_rep_def)
qed

lemma recover_after_save:
  assumes log: "log_rep db es"
    and s: "s = pack_state t (genesis_state t0) (apply_events es (unpack_state (genesis_state t0)))"
    and save: "save_runtime_state s db = (Inr (), db1)"
    and app: "forS store_append fs db1 = (Inr (), db2)"
    and new: "list_all wf_event fs" "distinct (map ev_id (es @ fs))"
    and t: "t \<noteq> []" "\<forall>e \<in> set es. ev_timestamp e < t" "\<forall>e \<in> set fs. t \<le> ev_timestamp e"
  shows "\<exists>report. recover uid now dur FROM_LATEST_SNAPSHOT db2 =
     Inr (pack_state now (genesis_state now) (apply_events (es @ take 100 fs) (unpack_state (genesis_state t0))), report)"
    and "log_rep db2 (es @ fs)"
proof -
  have inv: "replay_inv (apply_events es (unpack_state (genesis_state t0)))"
    using apply_events_inv [OF replay_inv_genesis log_rep_wf [OF log]] .
  then have ok: "runtime_state_ok s" "keyed_state s" using s replay_inv_ok by blast+
  from load_saved_state [OF ok, of db now] save
  have "load_runtime_state now db1 = Inr (Some (s\<lparr>rs_timestamp := t, rs_schema_version := 1\<rparr>))"
    using t(1) s by (auto simp: pack_state_def)
  then have ld: "load_runtime_state now db2 = Inr (Some s)"
    using append_all_frame [OF app, of now] s by (simp add: pack_state_def)
  from sq.append_all_new [OF save_keeps_log [OF ok save log] new] app
  show rep: "log_rep db2 (es @ fs)" by (auto simp: append_all_forS)
  have ts: "rs_timestamp s = t" using s by (simp add: pack_state_def)
  from recover_snapshot [OF rep ld, of uid dur] obtain report where
    "recover uid now dur FROM_LATEST_SNAPSHOT db2 =
       Inr (pack_state now s (apply_events (take 100 fs) (unpack_state s)), report)"
    using t(1) unfolding ts filter_split [OF t(2,3)] by blast
  then show "\<exists>report. recover uid now dur FROM_LATEST_SNAPSHOT db2 =
     Inr (pack_state now (genesis_state now) (apply_events (es @ take 100 fs) (unpack_state (genesis_state t0))), report)"
    unfolding s unpack_pack pack_genesis_again apply_events_append by blast
qed

end
