(* ===== verification/Snapshot_Manager.thy ===== *)
theory Snapshot_Manager
  imports SQLite_Store
begin

text \<open>
  The snapshot manager: \<^verbatim>\<open>persistence/snapshots/manager.py\<close>. Compression to text (\<open>zlib\<close> and \<open>base64\<close>) is
  a pair of parameters on the JSON text; a serialised snapshot is the text itself or its compression
  behind the prefix \<open>zlib:\<close>, which no JSON text of a dictionary starts with.
\<close>

record snapshot_metadata =
  sm_snapshot_id :: string
  sm_timestamp :: string
  sm_schema_version :: int
  sm_tasks_count :: int
  sm_workers_count :: int
  sm_compressed :: bool

datatype 'b raw_snapshot = Raw_json json_text | Raw_zlib 'b

definition serialize :: "(json_text \<Rightarrow> 'b) \<Rightarrow> runtime_state \<Rightarrow> bool \<Rightarrow> py_error + 'b raw_snapshot" where
  "serialize pack state compress =
     bindE (json_dumps (PDict (runtime_state_to_dict state))) (\<lambda>payload.
       Inr (if compress then Raw_zlib (pack payload) else Raw_json payload))"

definition deserialize :: "('b \<Rightarrow> py_error + json_text) \<Rightarrow> 'b raw_snapshot \<Rightarrow> py_error + runtime_state" where
  "deserialize unpack raw =
     bindE (case raw of Raw_zlib b \<Rightarrow> unpack b | Raw_json t \<Rightarrow> Inr t) (\<lambda>t.
     bindE (as_dict (json_loads t)) runtime_state_from_dict)"

text \<open>The serialised text is not used: the store encodes the state once more, uncompressed.\<close>

definition create_snapshot :: "(json_text \<Rightarrow> 'b) \<Rightarrow> string \<Rightarrow> runtime_state \<Rightarrow> bool \<Rightarrow> snapshot_metadata sql" where
  "create_snapshot pack snapshot_id state compress db =
     (case serialize pack state compress of
        Inl e \<Rightarrow> (Inl e, db)
      | Inr _ \<Rightarrow>
          (case save_snapshot snapshot_id state db of
             (Inl e, db1) \<Rightarrow> (Inl e, db1)
           | (Inr _, db1) \<Rightarrow>
               (Inr \<lparr>sm_snapshot_id = snapshot_id, sm_timestamp = rs_timestamp state,
                     sm_schema_version = rs_schema_version state, sm_tasks_count = int (length (rs_tasks state)),
                     sm_workers_count = int (length (rs_workers state)), sm_compressed = compress\<rparr>, db1)))"

definition manager_load_snapshot :: "string \<Rightarrow> database \<Rightarrow> py_error + runtime_state option" where
  "manager_load_snapshot snapshot_id db = load_snapshot snapshot_id db"

definition manager_list_snapshots :: "database \<Rightarrow> string list" where
  "manager_list_snapshots db = list_snapshots db"

definition manager_delete_snapshot :: "string \<Rightarrow> database \<Rightarrow> database" where
  "manager_delete_snapshot snapshot_id db = delete_snapshot snapshot_id db"

lemma serialize_ok:
  assumes "runtime_state_ok s"
  shows "serialize pack s c =
    Inr (let t = JText (PDict (runtime_state_to_dict s)) in if c then Raw_zlib (pack t) else Raw_json t)"
  using json_ok_runtime_state [OF assms] by (simp add: serialize_def json_dumps_def Let_def del: json_ok.simps)

lemma create_snapshot_ok:
  assumes "runtime_state_ok s"
  shows "\<exists>db' md. create_snapshot pack i s c db = (Inr md, db') \<and> save_snapshot i s db = (Inr (), db') \<and>
    md = \<lparr>sm_snapshot_id = i, sm_timestamp = rs_timestamp s, sm_schema_version = rs_schema_version s,
          sm_tasks_count = int (length (rs_tasks s)), sm_workers_count = int (length (rs_workers s)),
          sm_compressed = c\<rparr>"
  using snapshot_roundtrip_aux [OF assms, of i db]
  by (auto simp: create_snapshot_def serialize_ok [OF assms])

lemma saved_snapshot_listed:
  assumes "runtime_state_ok s" and "save_snapshot i s db = (Inr (), db')"
  shows "set (list_snapshots db') = insert i (set (list_snapshots db))"
proof -
  have keys: "set (list_snapshots d) = fst ` set (db_snapshots d)" for d by (simp add: list_snapshots_def)
  from assms(2) json_ok_runtime_state [OF assms(1)] obtain row where
    "db_snapshots db' = dpop i (db_snapshots db) @ [(i, row)]"
    by (auto simp: save_snapshot_def json_dumps_def transaction_def insert_or_replace_def simp del: json_ok.simps)
  then have "fst ` set (db_snapshots db') = insert i (fst ` set (db_snapshots db))"
    by (simp only: set_append image_Un fst_set_delete) auto
  then show ?thesis by (simp only: keys)
qed

end
