(* ===== verification/Persistence_Properties.thy ===== *)
theory Persistence_Properties
  imports Recovery Snapshot_Manager
begin

text \<open>
  What the persistence layer promises: events, states and snapshots are read back as they were
  written, a failed write leaves no trace, and recovery rebuilds the state from a stored state and
  the log, up to the limit on the events it reads.
\<close>

section \<open>Events\<close>

definition sample_event :: "string \<Rightarrow> event_kind \<Rightarrow> runtime_event" where
  "sample_event i k = mk_event i ''2026-01-01T00:00:00'' k"

lemma wf_sample_event [simp]: "wf_event (sample_event i k)"
  by (simp add: sample_event_def)

lemma sample_event_fields [simp]:
  "ev_id (sample_event i k) = i" "ev_kind (sample_event i k) = k" "ev_metadata (sample_event i k) = []"
  "ev_timestamp (sample_event i k) = ''2026-01-01T00:00:00''"
  by (simp_all add: sample_event_def mk_event_def)

text \<open>
  Every kind of domain event survives serialisation: \<open>RuntimeEvent.from_dict\<close> applied to the
  dictionary \<open>to_dict\<close> produces rebuilds the same event of the same class, provided its type field
  is the one its class sets and its metadata is a JSON value.
\<close>

theorem event_roundtrip:
  assumes "ev_type e = event_class (ev_kind e)" and "json_ok (PDict (ev_metadata e))"
  shows "event_from_dict uid now (event_to_dict e) = Inr e"
  using assms by (intro event_dict_roundtrip) (simp only: wf_event_def)

theorem event_roundtrip_witness:
  "event_from_dict '''' '''' (event_to_dict (sample_event ''1'' (TaskFailed ''a'' ''boom''))) =
     Inr (sample_event ''1'' (TaskFailed ''a'' ''boom''))"
  by (rule event_roundtrip) (simp_all add: sample_event_def mk_event_def)

text \<open>
  C19. The event store is an append-only log that can be read page by page: after appending events
  with different ids to a new store, one transaction each, reading pages of any size \<open>n\<close> and
  joining them returns exactly these events in the order they were appended, the count is their
  number, and \<open>replay\<close> returns those of one runtime.
\<close>

theorem event_store_is_a_log:
  assumes "list_all wf_event es" and "distinct (map ev_id es)" and "0 < n" and "length es \<le> m * n"
  shows "\<exists>db pages. forS store_append es initialize_schema = (Inr (), db) \<and>
    mapE (\<lambda>k. stream uid now (int n) (int (k * n)) db) [0..<m] = Inr pages \<and> concat pages = es \<and>
    count_events db = int (length es) \<and>
    replay uid now rid db = Inr (filter (\<lambda>e. ev_runtime_id e = rid) es)"
proof -
  from sq.append_all_new [OF log_rep_init assms(1)] assms(2) obtain db where
    db: "forS store_append es initialize_schema = (Inr (), db)" "log_rep db es"
    by (auto simp: append_all_forS)
  have "take (m * n) es = es" using assms(4) by simp
  with sq.pages [OF db(2) assms(3)] sq.concat_pages [of n es m] db count_events_rep [OF db(2)]
    replay_rep [OF db(2)] show ?thesis by metis
qed

theorem event_store_is_a_log_witness:
  "\<exists>db pages. forS store_append [sample_event ''1'' SchedulerStarted, sample_event ''2'' (TaskQueued ''a'')]
      initialize_schema = (Inr (), db) \<and>
    mapE (\<lambda>k. stream '''' '''' (int 1) (int (k * 1)) db) [0..<2] = Inr pages \<and>
    concat pages = [sample_event ''1'' SchedulerStarted, sample_event ''2'' (TaskQueued ''a'')] \<and>
    count_events db = 2"
proof -
  have "list_all wf_event [sample_event ''1'' SchedulerStarted, sample_event ''2'' (TaskQueued ''a'')]"
    and "distinct (map ev_id [sample_event ''1'' SchedulerStarted, sample_event ''2'' (TaskQueued ''a'')])"
    by simp_all
  from event_store_is_a_log [OF this, of 1 2 "''''" "''''" "''''"] show ?thesis by auto
qed

text \<open>
  A batch of events is appended atomically: on a store that holds the log \<open>es\<close>, a batch of
  well-formed events is appended in full when no event id repeats within the batch or the log, and
  otherwise the call raises and leaves the database exactly as it was.
\<close>

theorem batch_append_atomic:
  assumes "log_rep db es" and "list_all wf_event fs"
  shows "if distinct (map ev_id (es @ fs))
         then \<exists>db'. append_batch fs db = (Inr (), db') \<and> log_rep db' (es @ fs)
         else \<exists>err. append_batch fs db = (Inl err, db)"
  using assms by (rule append_batch_atomic)

theorem batch_append_atomic_witness:
  "\<exists>err. append_batch [sample_event ''1'' SchedulerStarted, sample_event ''1'' SchedulerStopped]
           initialize_schema = (Inl err, initialize_schema)"
  using batch_append_atomic [OF log_rep_init,
      of "[sample_event ''1'' SchedulerStarted, sample_event ''1'' SchedulerStopped]"]
  by simp

section \<open>States and snapshots\<close>

definition sample_state :: runtime_state where
  "sample_state = pack_state ''t1'' (genesis_state ''t0'')
     (apply_events [sample_event ''1'' (TaskSubmitted ''a'' ''job'' ''PYTHON''),
                    sample_event ''2'' (TaskQueued ''a''), sample_event ''3'' (WorkerStarted ''w'')]
        (unpack_state (genesis_state ''t0'')))"

lemma sample_state_ok: "runtime_state_ok sample_state" "keyed_state sample_state"
  using replay_inv_ok [OF apply_events_inv [OF replay_inv_genesis]]
  by (simp_all add: sample_state_def)

text \<open>
  The stored runtime state is the saved one: after \<open>save_runtime_state\<close>, \<open>load_runtime_state\<close>
  returns the same tasks, workers, queue and scheduler, whatever the database held before, and the
  event log is untouched. Only two fields are not kept: the schema version is reset to one, and an
  empty time stamp is replaced by the current time. The state's dictionaries must be keyed by the
  ids of their values and the metadata of tasks must be JSON values.
\<close>

theorem saved_state_is_loaded:
  assumes "runtime_state_ok s" and "keyed_state s"
  shows "\<exists>db'. save_runtime_state s db = (Inr (), db') \<and> db_events db' = db_events db \<and>
     load_runtime_state now db' =
       Inr (Some (s\<lparr>rs_timestamp := (if rs_timestamp s = [] then now else rs_timestamp s),
                    rs_schema_version := 1\<rparr>))"
  using assms by (rule load_saved_state)

theorem saved_state_is_loaded_witness:
  "\<exists>db'. save_runtime_state sample_state initialize_schema = (Inr (), db') \<and>
     load_runtime_state ''now'' db' = Inr (Some sample_state)"
  using saved_state_is_loaded [OF sample_state_ok, of initialize_schema "''now''"]
  by (auto simp: sample_state_def pack_state_def)

lemma forS_task_error:
  "\<not> list_all task_state_ok ts \<Longrightarrow> \<exists>e db'. forS task_repo_save ts db = (Inl e, db')"
proof (induction ts arbitrary: db)
  case (Cons t ts)
  show ?case
  proof (cases "task_state_ok t")
    case True
    with Cons show ?thesis by (simp add: bindS_def task_repo_save_ok)
  next
    case False
    then have "task_repo_save t db = (Inl (TypeError ''not JSON serializable''), db)"
      by (simp add: task_repo_save_def task_state_ok_def json_dumps_def del: json_ok.simps)
    then show ?thesis by (simp add: bindS_def)
  qed
qed simp

text \<open>
  Saving a state whose task metadata the JSON encoder rejects raises and rolls back: the tables
  of tasks and workers, which the transaction had already cleared, are as they were.
\<close>

theorem failed_save_rolls_back:
  assumes "\<not> runtime_state_ok s"
  shows "\<exists>e. save_runtime_state s db = (Inl e, db)"
proof -
  from assms have "\<not> list_all task_state_ok (dvalues (rs_tasks s))"
    by (simp add: runtime_state_ok_def list_all_iff)
  from forS_task_error [OF this] show ?thesis
    by (auto simp: save_runtime_state_def transaction_def bindS_def clear_components_def
        split: prod.split sum.split) (metis old.prod.inject sum.distinct(1))
qed

theorem failed_save_rolls_back_witness:
  "\<exists>e. save_runtime_state (sample_state\<lparr>rs_tasks := [(''a'',
        (snd (hd (rs_tasks sample_state)))\<lparr>ts_metadata := [(''retry_policy'', PEnum ''X'' ''y'')]\<rparr>)]\<rparr>)
      initialize_schema = (Inl e, initialize_schema)"
  by (rule failed_save_rolls_back) (simp add: runtime_state_ok_def task_state_ok_def)

text \<open>
  A named snapshot is read back exactly as it was saved, and saving one snapshot does not change
  any other.
\<close>

theorem snapshot_roundtrip:
  assumes "runtime_state_ok s"
  shows "\<exists>db'. save_snapshot i s db = (Inr (), db') \<and> load_snapshot i db' = Inr (Some s) \<and>
           (\<forall>j. j \<noteq> i \<longrightarrow> load_snapshot j db' = load_snapshot j db)"
  using assms by (rule snapshot_roundtrip_aux)

theorem snapshot_roundtrip_witness:
  "\<exists>db'. save_snapshot ''s1'' sample_state initialize_schema = (Inr (), db') \<and>
     load_snapshot ''s1'' db' = Inr (Some sample_state) \<and> load_snapshot ''s2'' db' = Inr None"
proof -
  from snapshot_roundtrip [OF sample_state_ok(1), of "''s1''" initialize_schema] obtain db' where
    "save_snapshot ''s1'' sample_state initialize_schema = (Inr (), db')"
    "load_snapshot ''s1'' db' = Inr (Some sample_state)"
    "load_snapshot ''s2'' db' = load_snapshot ''s2'' initialize_schema" by auto
  moreover have "load_snapshot ''s2'' initialize_schema = Inr None"
    by (simp add: load_snapshot_def initialize_schema_def)
  ultimately show ?thesis by metis
qed



section \<open>Recovery\<close>

text \<open>
  C32. Recovery from a log that holds only well-formed events always produces a consistent state,
  whatever the events are: the queued ids are distinct and their number is the queue's size, the
  delayed ids are distinct, and every recovered task and worker is filed once under its own id.
\<close>

theorem recovered_state_consistent:
  assumes "log_rep db es" and "length es \<le> 100000"
  shows "\<exists>s report. recover uid now dur FROM_GENESIS db = Inr (s, report) \<and>
    distinct (qs_queued_task_ids (rs_queue s)) \<and>
    qs_size (rs_queue s) = int (length (qs_queued_task_ids (rs_queue s))) \<and>
    distinct (ss_delayed_task_ids (rs_scheduler s)) \<and> keyed_state s \<and> runtime_state_ok s \<and>
    rr_events_replayed_count report = length es"
proof -
  have "replay_inv (apply_events es (unpack_state (genesis_state now)))"
    using apply_events_inv [OF replay_inv_genesis log_rep_wf [OF assms(1)]] .
  moreover from recover_genesis [OF assms] obtain report where
    "recover uid now dur FROM_GENESIS db =
       Inr (pack_state now (genesis_state now) (apply_events es (unpack_state (genesis_state now))), report)"
    "rr_events_replayed_count report = length es" by blast
  ultimately show ?thesis
    using replay_inv_ok by (fastforce simp: pack_state_def replay_inv_def)
qed

theorem recovered_state_consistent_witness:
  "\<exists>s report. recover '''' ''now'' 0 FROM_GENESIS initialize_schema = Inr (s, report) \<and>
    rr_events_replayed_count report = 0"
  using recovered_state_consistent [OF log_rep_init, of "''''" "''now''" 0] by auto


definition late_event :: "nat \<Rightarrow> runtime_event" where
  "late_event n = mk_event (replicate n CHR ''x'') ''2027'' (TaskQueued (replicate n CHR ''x''))"

lemma late_event_fields [simp]:
  "wf_event (late_event n)" "ev_id (late_event n) = replicate n CHR ''x''"
  "ev_timestamp (late_event n) = ''2027''" "ev_kind (late_event n) = TaskQueued (replicate n CHR ''x'')"
  by (simp_all add: late_event_def mk_event_def wf_event_def)

lemma distinct_late: "distinct (map (\<lambda>n. ev_id (late_event n)) [0..<m])"
  by (auto simp: distinct_map inj_on_def)

text \<open>A store with the empty history saved in 2026 and \<open>m\<close> later events.\<close>

lemma late_store:
  "\<exists>s report db1 db2. recover '''' ''2026'' 0 FROM_GENESIS initialize_schema = Inr (s, report) \<and>
     s = pack_state ''2026'' (genesis_state ''2026'') (apply_events [] (unpack_state (genesis_state ''2026''))) \<and>
     save_runtime_state s initialize_schema = (Inr (), db1) \<and>
     forS store_append (map late_event [0..<m]) db1 = (Inr (), db2)"
proof -
  let ?s = "pack_state ''2026'' (genesis_state ''2026'') (apply_events [] (unpack_state (genesis_state ''2026'')))"
  have ok: "runtime_state_ok ?s" "keyed_state ?s"
    using replay_inv_ok [OF replay_inv_genesis] by simp_all
  from load_saved_state [OF ok] obtain db1 where db1: "save_runtime_state ?s initialize_schema = (Inr (), db1)" by blast
  from save_keeps_log [OF ok db1 log_rep_init] have "log_rep db1 []" .
  from sq.append_all_new [OF this, of "map late_event [0..<m]"] obtain db2 where
    "forS store_append (map late_event [0..<m]) db1 = (Inr (), db2)"
    using distinct_late [of m] by (auto simp: append_all_forS list_all_iff comp_def)
  with db1 recover_genesis [OF log_rep_init, of "''''" "''2026''" 0] show ?thesis by auto
qed


lemma replay_late:
  "rv_queued_task_ids (apply_events (map late_event [0..<m]) (unpack_state (genesis_state t))) =
     map (\<lambda>n. replicate n CHR ''x'') [0..<m]"
proof (induction m)
  case (Suc m)
  have "replicate m CHR ''x'' \<notin> set (map (\<lambda>n. replicate n CHR ''x'') [0..<m])"
    by auto
  with Suc show ?case by (simp add: apply_event_def set_queue_def Let_def)
qed (simp add: unpack_state_def genesis_state_def)

text \<open>
  The bound of a hundred events in the previous property is sharp: there is a store for which
  recovery from the latest snapshot, the default policy, silently drops an event. It returns a
  queue of one hundred tasks and reports success, while the log and recovery from genesis have one
  hundred and one.
\<close>

theorem snapshot_recovery_drops_events:
  "\<exists>db s1 r1 s2 r2. recover '''' ''2028'' 0 FROM_LATEST_SNAPSHOT db = Inr (s1, r1) \<and>
     rr_success r1 \<and> length (qs_queued_task_ids (rs_queue s1)) = 100 \<and>
     recover '''' ''2028'' 0 FROM_GENESIS db = Inr (s2, r2) \<and>
     length (qs_queued_task_ids (rs_queue s2)) = 101"
proof -
  let ?fs = "map late_event [0..<101]"
  from late_store [of 101] obtain s db1 db2 where
    s: "s = pack_state ''2026'' (genesis_state ''2026'') (apply_events [] (unpack_state (genesis_state ''2026'')))"
    and l: "save_runtime_state s initialize_schema = (Inr (), db1)"
       "forS store_append ?fs db1 = (Inr (), db2)" by blast
  have f: "list_all wf_event ?fs" "distinct (map ev_id ([] @ ?fs))"
    "\<forall>e \<in> set ?fs. ''2026'' \<le> ev_timestamp e"
    using distinct_late [of 101] by (simp_all add: list_all_iff comp_def del: upt_rec_numeral)
  note r = recover_after_save [OF log_rep_init s l f(1,2) _ _ f(3), simplified append_Nil]
  have tk: "take 100 ?fs = map late_event [0..<100]" by (simp add: take_map del: upt_rec_numeral)
  from r(1) [of "''''" "''2028''" 0] tk obtain r1 where
    1: "recover '''' ''2028'' 0 FROM_LATEST_SNAPSHOT db2 = Inr (pack_state ''2028'' (genesis_state ''2028'')
         (apply_events (map late_event [0..<100]) (unpack_state (genesis_state ''2026''))), r1)"
    by (auto simp del: upt_rec_numeral)
  then have "rr_success r1" by (auto simp: recover_def recover_on_def Let_def bindE_def split: sum.splits)
  moreover have "log_rep db2 ?fs" using r(2) by (simp del: upt_rec_numeral)
  from recover_genesis [OF this, of "''''" "''2028''" 0] obtain r2 where
    2: "recover '''' ''2028'' 0 FROM_GENESIS db2 = Inr (pack_state ''2028'' (genesis_state ''2028'')
         (apply_events ?fs (unpack_state (genesis_state ''2028''))), r2)" by (auto simp del: upt_rec_numeral)
  moreover have "length (rv_queued_task_ids (apply_events (map late_event [0..<m]) (unpack_state (genesis_state t)))) = m" for m t
    by (simp add: replay_late)
  ultimately show ?thesis using 1
    by (intro exI [of _ db2]) (simp add: pack_state_def del: upt_rec_numeral)
qed

end
