(* ===== verification/Store_Locking.thy ===== *)
theory Store_Locking
  imports Locking SQLite_Store
begin

text \<open>
  The SQLite state store as threads share it: \<^verbatim>\<open>persistence/adapters/sqlite/store.py\<close> and
  \<^verbatim>\<open>event_store.py\<close> statement by statement. All threads use one connection, so that a statement of one
  thread would see the uncommitted changes of another; what keeps them apart is the lock, which a
  \<^verbatim>\<open>SQLiteTransaction\<close> holds from its \<open>BEGIN\<close> to its \<open>COMMIT\<close> or \<open>ROLLBACK\<close>. \<open>SQLite_Store\<close> takes every method
  as one step; here this is proved of the statements.
\<close>

section \<open>The connection and its transactions\<close>

text \<open>The tables as the connection sees them, and while a transaction is open what to roll back to.\<close>

record connection =
  cn_db :: database
  cn_rollback :: "database option"

definition open_connection :: "database \<Rightarrow> connection" where
  "open_connection db = \<lparr>cn_db = db, cn_rollback = None\<rparr>"

definition begin_immediate :: "connection \<Rightarrow> (py_error + unit) \<times> connection" where
  "begin_immediate c =
     (case cn_rollback c of
        None \<Rightarrow> (Inr (), c\<lparr>cn_rollback := Some (cn_db c)\<rparr>)
      | Some _ \<Rightarrow> (Inl (OperationalError ''cannot start a transaction within a transaction''), c))"

text \<open>An \<open>INSERT\<close> or \<open>DELETE\<close> opens a transaction by itself when none is open.\<close>

definition begin_implicit :: "connection \<Rightarrow> connection" where
  "begin_implicit c = (case cn_rollback c of None \<Rightarrow> c\<lparr>cn_rollback := Some (cn_db c)\<rparr> | Some _ \<Rightarrow> c)"

definition conn_commit :: "connection \<Rightarrow> connection" where
  "conn_commit c = c\<lparr>cn_rollback := None\<rparr>"

definition conn_rollback :: "connection \<Rightarrow> connection" where
  "conn_rollback c = (case cn_rollback c of None \<Rightarrow> c | Some db \<Rightarrow> c\<lparr>cn_db := db, cn_rollback := None\<rparr>)"

text \<open>\<^verbatim>\<open>SQLiteTransaction\<close>: its flag, and its methods on the flag and the connection.\<close>

definition tx_commit :: "bool \<Rightarrow> connection \<Rightarrow> bool \<times> connection" where
  "tx_commit active c = (if active then (False, conn_commit c) else (active, c))"

definition tx_rollback :: "bool \<Rightarrow> connection \<Rightarrow> bool \<times> connection" where
  "tx_rollback active c = (if active then (False, conn_rollback c) else (active, c))"

fun tx_exit :: "bool \<Rightarrow> py_error + 'r \<Rightarrow> connection \<Rightarrow> bool \<times> connection" where
  "tx_exit active (Inl e) c = tx_rollback active c"
| "tx_exit active (Inr x) c = tx_commit active c"

section \<open>Blocks of statements\<close>

text \<open>The block of a \<open>with\<close>: it returns, raises, or executes a statement and goes on with what that gave.\<close>

datatype 'r program =
    Return 'r
  | Raise py_error
  | Statement "database \<Rightarrow> 'r program \<times> database"

primrec run_program :: "'r program \<Rightarrow> 'r sql" where
  "run_program (Return x) = (\<lambda>db. (Inr x, db))"
| "run_program (Raise e) = (\<lambda>db. (Inl e, db))"
| "run_program (Statement f) = (\<lambda>db. (\<lambda>(m, db'). m db') (map_prod run_program id (f db)))"

definition statement :: "'a sql \<Rightarrow> ('a \<Rightarrow> 'r program) \<Rightarrow> 'r program" where
  "statement m k = Statement (\<lambda>db. case m db of (Inl e, db') \<Rightarrow> (Raise e, db') | (Inr x, db') \<Rightarrow> (k x, db'))"

definition query :: "(database \<Rightarrow> py_error + 'a) \<Rightarrow> ('a \<Rightarrow> 'r program) \<Rightarrow> 'r program" where
  "query f = statement (\<lambda>db. (f db, db))"

fun for_each :: "('a \<Rightarrow> unit sql) \<Rightarrow> 'a list \<Rightarrow> 'r program \<Rightarrow> 'r program" where
  "for_each f [] k = k"
| "for_each f (x # xs) k = statement (f x) (\<lambda>_. for_each f xs k)"

lemma run_statement: "run_program (statement m k) = bindS m (\<lambda>x. run_program (k x))"
  by (rule ext) (auto simp: statement_def bindS_def split: prod.splits sum.splits)

lemma run_for_each: "run_program (for_each f xs k) = bindS (forS f xs) (\<lambda>_. run_program k)"
  by (induction xs) (auto simp: run_statement bindS_def fun_eq_iff split: prod.splits sum.splits)

text \<open>At most \<open>n\<close> statements, whatever the tables hold.\<close>

fun limited :: "nat \<Rightarrow> 'r program \<Rightarrow> bool" where
  "limited n (Return x) = True"
| "limited n (Raise e) = True"
| "limited 0 (Statement f) = False"
| "limited (Suc n) (Statement f) = (\<forall>db. limited n (fst (f db)))"

lemma limited_mono: "limited n p \<Longrightarrow> n \<le> m \<Longrightarrow> limited m p"
proof (induction n p arbitrary: m rule: limited.induct)
  case (4 n f)
  then obtain m' where "m = Suc m'" "n \<le> m'" by (cases m) auto
  with 4 show ?case by simp
qed auto

lemma limited_statement: "(\<And>x. limited n (k x)) \<Longrightarrow> limited (Suc n) (statement m k)"
  by (auto simp: statement_def split: prod.split sum.split)

lemma limited_for_each: "limited n k \<Longrightarrow> limited (length xs + n) (for_each f xs k)"
  by (induction xs) (auto intro: limited_statement)

section \<open>A block in a transaction, step by step\<close>

datatype 'r tx_pc =
    Tx_enter "'r program"
  | Tx_implicit "'r program"
  | Tx_block bool "'r program"
  | Tx_exit bool "py_error + 'r"
  | Tx_read "database \<Rightarrow> py_error + 'r"
  | Tx_left "py_error + 'r"

fun tx_step :: "'r tx_pc \<Rightarrow> connection \<Rightarrow> 'r tx_pc \<times> connection" where
  "tx_step (Tx_enter p) c =
     (case begin_immediate c of
        (Inl e, c') \<Rightarrow> (Tx_left (Inl e), c')
      | (Inr _, c') \<Rightarrow> (Tx_block True p, c'))"
| "tx_step (Tx_implicit p) c = (Tx_block True p, begin_implicit c)"
| "tx_step (Tx_block b (Return x)) c = (Tx_exit b (Inr x), c)"
| "tx_step (Tx_block b (Raise e)) c = (Tx_exit b (Inl e), c)"
| "tx_step (Tx_block b (Statement f)) c =
     (case f (cn_db c) of (p, db) \<Rightarrow> (Tx_block b p, c\<lparr>cn_db := db\<rparr>))"
| "tx_step (Tx_exit b res) c = (Tx_left res, snd (tx_exit b res c))"
| "tx_step (Tx_read f) c = (Tx_left (f (cn_db c)), c)"
| "tx_step (Tx_left res) c = (Tx_left res, c)"

fun tx_result :: "'r tx_pc \<Rightarrow> (py_error + 'r) option" where
  "tx_result (Tx_left res) = Some res"
| "tx_result _ = None"

text \<open>What the whole of it comes to, from the moment the lock is held.\<close>

definition committed :: "connection \<Rightarrow> database" where
  "committed c = (case cn_rollback c of None \<Rightarrow> cn_db c | Some db \<Rightarrow> db)"

fun settle :: "connection \<Rightarrow> (py_error + 'r) \<times> database \<Rightarrow> (py_error + 'r) \<times> connection" where
  "settle c (Inl e, db) = (Inl e, open_connection (committed c))"
| "settle c (Inr x, db) = (Inr x, open_connection db)"

fun tx_whole :: "'r tx_pc \<Rightarrow> connection \<Rightarrow> (py_error + 'r) \<times> connection" where
  "tx_whole (Tx_enter p) c =
     (case begin_immediate c of
        (Inl e, c') \<Rightarrow> (Inl e, c')
      | (Inr _, c') \<Rightarrow> settle c' (run_program p (cn_db c')))"
| "tx_whole (Tx_implicit p) c = (let c' = begin_implicit c in settle c' (run_program p (cn_db c')))"
| "tx_whole (Tx_read f) c = (f (cn_db c), c)"
| "tx_whole pc c = (case tx_result pc of Some res \<Rightarrow> (res, c) | None \<Rightarrow> (Inl RecursionError, c))"

lemma settle_db: "cn_rollback c \<noteq> None \<Longrightarrow> settle (c\<lparr>cn_db := db\<rparr>) x = settle c x"
  by (induction c x rule: settle.induct) (auto simp: committed_def)

definition tx_bodies :: "('c \<Rightarrow> 'r tx_pc) \<Rightarrow> ('c, 'r tx_pc, connection, py_error + 'r) method_bodies" where
  "tx_bodies start = \<lparr>mb_start = start, mb_step = tx_step, mb_result = tx_result\<rparr>"

lemma tx_bodies_simps [simp]:
  "mb_start (tx_bodies start) = start" "mb_step (tx_bodies start) = tx_step" "mb_result (tx_bodies start) = tx_result"
  by (simp_all add: tx_bodies_def)

lemma tx_block_runs:
  "limited n p \<Longrightarrow> cn_rollback c \<noteq> None \<Longrightarrow>
   body_run (tx_bodies start) (n + 2) (Tx_block True p, c) =
   (case settle c (run_program p (cn_db c)) of (res, c') \<Rightarrow> (Tx_left res, c'))"
proof (induction n p arbitrary: c rule: limited.induct)
  case (1 n x)
  then show ?case
    by (cases n) (auto simp: tx_commit_def conn_commit_def open_connection_def eval_nat_numeral)
next
  case (2 n e)
  then show ?case
    by (cases n) (auto simp: tx_rollback_def conn_rollback_def open_connection_def committed_def eval_nat_numeral)
next
  case (4 n f)
  obtain p db where f: "f (cn_db c) = (p, db)" by fastforce
  have "limited n p" using 4(2) f by (metis fst_conv limited.simps(4))
  from 4(1) [of "cn_db c" "c\<lparr>cn_db := db\<rparr>"] 4(2,3) this f
  have "body_run (tx_bodies start) (n + 2) (Tx_block True p, c\<lparr>cn_db := db\<rparr>) =
      (case settle (c\<lparr>cn_db := db\<rparr>) (run_program p db) of (res, c') \<Rightarrow> (Tx_left res, c'))" by simp
  with f show ?case by (simp add: settle_db [OF 4(3)])
qed auto

text \<open>The statements of a call: the ones of its block, and those that enter and leave it.\<close>

fun tx_limit :: "nat \<Rightarrow> 'r tx_pc \<Rightarrow> bool" where
  "tx_limit n (Tx_enter p) \<longleftrightarrow> limited n p"
| "tx_limit n (Tx_implicit p) \<longleftrightarrow> limited n p"
| "tx_limit n (Tx_read f) \<longleftrightarrow> True"
| "tx_limit n pc \<longleftrightarrow> False"

lemma tx_body_whole:
  assumes "tx_limit n pc"
  shows "body_run (tx_bodies start) (n + 3) (pc, c) = (case tx_whole pc c of (res, c') \<Rightarrow> (Tx_left res, c'))"
proof (cases pc)
  case (Tx_enter p)
  with assms have p: "limited n p" by simp
  show ?thesis
  proof (cases "cn_rollback c")
    case None
    with tx_block_runs [OF p, of "c\<lparr>cn_rollback := Some (cn_db c)\<rparr>" start] show ?thesis
      by (simp add: Tx_enter begin_immediate_def eval_nat_numeral)
  next
    case (Some db)
    then show ?thesis by (simp add: Tx_enter begin_immediate_def body_run_final eval_nat_numeral)
  qed
next
  case (Tx_implicit p)
  with assms have p: "limited n p" by simp
  have "cn_rollback (begin_implicit c) \<noteq> None" by (simp add: begin_implicit_def split: option.split)
  from tx_block_runs [OF p this, of start] show ?thesis
    by (simp add: Tx_implicit eval_nat_numeral Let_def)
next
  case (Tx_read f)
  then show ?thesis by (simp add: body_run_final eval_nat_numeral)
qed (use assms in simp_all)

section \<open>The methods of the store\<close>

datatype store_call =
    Save_runtime_state runtime_state
  | Load_runtime_state
  | Save_snapshot string runtime_state
  | Load_snapshot string
  | List_snapshots
  | Delete_snapshot string
  | Append_event runtime_event
  | Append_events "runtime_event list"
  | Load_event string
  | Stream int int
  | Stream_from string int int
  | Replay_events string
  | Count_events
  | Truncate_events

datatype store_answer =
    Answers_None
  | Answers_State "runtime_state option"
  | Answers_Ids "string list"
  | Answers_Event "runtime_event option"
  | Answers_Events "runtime_event list"
  | Answers_Int int

definition delete_tasks :: "unit sql" where
  "delete_tasks db = (Inr (), db\<lparr>db_tasks := []\<rparr>)"

definition delete_workers :: "unit sql" where
  "delete_workers db = (Inr (), db\<lparr>db_workers := []\<rparr>)"

definition save_state_program :: "runtime_state \<Rightarrow> store_answer program" where
  "save_state_program state =
     statement delete_tasks (\<lambda>_. statement delete_workers (\<lambda>_.
       for_each task_repo_save (dvalues (rs_tasks state))
         (for_each worker_repo_save (dvalues (rs_workers state))
           (statement (save_queue_state (rs_queue state)) (\<lambda>_.
             statement (save_scheduler_state (rs_scheduler state) (rs_timestamp state)) (\<lambda>_.
               Return Answers_None))))))"

text \<open>The four queries of \<open>load_runtime_state\<close>, with the early returns between them.\<close>

definition select_queue :: "database \<Rightarrow> py_error + queue_state option" where
  "select_queue db =
     (case db_queue_state db of
        None \<Rightarrow> Inr None
      | Some row \<Rightarrow> bindE (queue_state_from_dict (queue_row_data row)) (\<lambda>x. Inr (Some x)))"

definition select_scheduler :: "database \<Rightarrow> py_error + (scheduler_row \<times> scheduler_state) option" where
  "select_scheduler db =
     (case db_scheduler_state db of
        None \<Rightarrow> Inr None
      | Some row \<Rightarrow> bindE (scheduler_state_from_dict (scheduler_row_data row)) (\<lambda>x. Inr (Some (row, x))))"

definition load_state_program :: "string \<Rightarrow> store_answer program" where
  "load_state_program now =
     query select_queue (\<lambda>q. case q of
        None \<Rightarrow> Return (Answers_State None)
      | Some queue_snapshot \<Rightarrow>
          query select_scheduler (\<lambda>s. case s of
             None \<Rightarrow> Return (Answers_State None)
           | Some (s_row, scheduler_snapshot) \<Rightarrow>
               query task_repo_list_all (\<lambda>tasks. query worker_repo_list_all (\<lambda>workers.
                 Return (Answers_State (Some
                   \<lparr>rs_timestamp = (if sr_timestamp s_row = [] then now else sr_timestamp s_row),
                    rs_tasks = dict_by ts_task_id tasks, rs_workers = dict_by ws_worker_id workers,
                    rs_queue = queue_snapshot, rs_scheduler = scheduler_snapshot,
                    rs_schema_version = 1\<rparr>))))))"

definition insert_snapshot :: "string \<Rightarrow> runtime_state \<Rightarrow> json_text \<Rightarrow> unit sql" where
  "insert_snapshot snapshot_id state state_json db =
     (Inr (), db\<lparr>db_snapshots := insert_or_replace snapshot_id
        \<lparr>sn_timestamp = rs_timestamp state, sn_state_data = state_json,
         sn_schema_version = rs_schema_version state\<rparr> (db_snapshots db)\<rparr>)"

text \<open>
  Where a call starts. \<open>save_snapshot\<close> encodes the state before it takes the lock, so that a call with a
  state that cannot be encoded has its result at once.
\<close>

fun store_start :: "string \<Rightarrow> string \<Rightarrow> store_call \<Rightarrow> store_answer tx_pc" where
  "store_start uid now (Save_runtime_state state) = Tx_enter (save_state_program state)"
| "store_start uid now Load_runtime_state = Tx_enter (load_state_program now)"
| "store_start uid now (Save_snapshot i state) =
     (case json_dumps (PDict (runtime_state_to_dict state)) of
        Inl e \<Rightarrow> Tx_read (\<lambda>db. Inl e)
      | Inr text \<Rightarrow> Tx_enter (statement (insert_snapshot i state text) (\<lambda>_. Return Answers_None)))"
| "store_start uid now (Load_snapshot i) =
     Tx_enter (query (load_snapshot i) (\<lambda>s. Return (Answers_State s)))"
| "store_start uid now List_snapshots =
     Tx_enter (query (\<lambda>db. Inr (list_snapshots db)) (\<lambda>ids. Return (Answers_Ids ids)))"
| "store_start uid now (Delete_snapshot i) =
     Tx_enter (statement (\<lambda>db. (Inr (), delete_snapshot i db)) (\<lambda>_. Return Answers_None))"
| "store_start uid now (Append_event e) =
     Tx_implicit (statement (insert_event e) (\<lambda>_. Return Answers_None))"
| "store_start uid now (Append_events es) = Tx_implicit (for_each insert_event es (Return Answers_None))"
| "store_start uid now (Load_event i) = Tx_read (\<lambda>db. map_sum id Answers_Event (store_load uid now i db))"
| "store_start uid now (Stream limit offset) =
     Tx_read (\<lambda>db. map_sum id Answers_Events (stream uid now limit offset db))"
| "store_start uid now (Stream_from t limit offset) =
     Tx_read (\<lambda>db. map_sum id Answers_Events (stream_from uid now t limit offset db))"
| "store_start uid now (Replay_events i) = Tx_read (\<lambda>db. map_sum id Answers_Events (replay uid now i db))"
| "store_start uid now Count_events = Tx_read (\<lambda>db. Inr (Answers_Int (count_events db)))"
| "store_start uid now Truncate_events =
     Tx_implicit (statement (\<lambda>db. (Inr (), truncate_events db)) (\<lambda>_. Return Answers_None))"

text \<open>The number of statements of the block of a call.\<close>

fun store_cost :: "store_call \<Rightarrow> nat" where
  "store_cost (Save_runtime_state state) = length (rs_tasks state) + length (rs_workers state) + 4"
| "store_cost (Append_events es) = length es"
| "store_cost _ = 4"

text \<open>Each method as one step, by the functions of \<open>SQLite_Store\<close>.\<close>

fun done_or_raise :: "(py_error + unit) \<times> database \<Rightarrow> (py_error + store_answer) \<times> database" where
  "done_or_raise (res, db) = (map_sum id (\<lambda>_. Answers_None) res, db)"

fun store_method :: "string \<Rightarrow> string \<Rightarrow> store_call \<Rightarrow> database \<Rightarrow> (py_error + store_answer) \<times> database" where
  "store_method uid now (Save_runtime_state state) db = done_or_raise (save_runtime_state state db)"
| "store_method uid now Load_runtime_state db = (map_sum id Answers_State (load_runtime_state now db), db)"
| "store_method uid now (Save_snapshot i state) db = done_or_raise (save_snapshot i state db)"
| "store_method uid now (Load_snapshot i) db = (map_sum id Answers_State (load_snapshot i db), db)"
| "store_method uid now List_snapshots db = (Inr (Answers_Ids (list_snapshots db)), db)"
| "store_method uid now (Delete_snapshot i) db = (Inr Answers_None, delete_snapshot i db)"
| "store_method uid now (Append_event e) db = done_or_raise (store_append e db)"
| "store_method uid now (Append_events es) db = done_or_raise (append_batch es db)"
| "store_method uid now (Load_event i) db = (map_sum id Answers_Event (store_load uid now i db), db)"
| "store_method uid now (Stream limit offset) db = (map_sum id Answers_Events (stream uid now limit offset db), db)"
| "store_method uid now (Stream_from t limit offset) db =
     (map_sum id Answers_Events (stream_from uid now t limit offset db), db)"
| "store_method uid now (Replay_events i) db = (map_sum id Answers_Events (replay uid now i db), db)"
| "store_method uid now Count_events db = (Inr (Answers_Int (count_events db)), db)"
| "store_method uid now Truncate_events db = (Inr Answers_None, truncate_events db)"

section \<open>The statements of a method make up the method\<close>

lemma limited_query: "(\<And>x. limited n (k x)) \<Longrightarrow> limited (Suc n) (query f k)"
  unfolding query_def by (rule limited_statement)

lemma store_start_limited: "tx_limit (store_cost c) (store_start uid now c)"
proof (cases c)
  case (Save_runtime_state state)
  have "limited (Suc (Suc (length (dvalues (rs_tasks state)) + (length (dvalues (rs_workers state)) + Suc (Suc 0)))))
      (save_state_program state)"
    unfolding save_state_program_def by (intro limited_statement limited_for_each) simp
  with Save_runtime_state show ?thesis by (simp add: eval_nat_numeral)
next
  case Load_runtime_state
  have "limited (Suc (Suc (Suc (Suc 0)))) (load_state_program now)"
    unfolding load_state_program_def
    by (intro limited_query) (auto split: option.split intro!: limited_query)
  with Load_runtime_state show ?thesis by (simp add: eval_nat_numeral)
next
  case (Append_events es)
  have "limited (length es + 0) (for_each insert_event es (Return Answers_None))"
    by (rule limited_for_each) simp
  with Append_events show ?thesis by simp
qed (auto simp: eval_nat_numeral split: sum.split intro!: limited_statement limited_query)

lemma begin_open [simp]:
  "begin_immediate (open_connection db) = (Inr (), \<lparr>cn_db = db, cn_rollback = Some db\<rparr>)"
  "begin_implicit (open_connection db) = \<lparr>cn_db = db, cn_rollback = Some db\<rparr>"
  "cn_db (open_connection db) = db"
  by (simp_all add: begin_immediate_def begin_implicit_def open_connection_def)

lemma settle_transaction:
  "settle \<lparr>cn_db = db, cn_rollback = Some db\<rparr> (m db) =
   (case transaction m db of (res, db') \<Rightarrow> (res, open_connection db'))"
  by (cases "m db"; cases "fst (m db)") (auto simp: transaction_def committed_def)

lemma bindS_assoc: "bindS (bindS m f) g = bindS m (\<lambda>x. bindS (f x) g)"
  by (rule ext) (auto simp: bindS_def split: prod.splits sum.splits)

lemma bindS_answer: "bindS m (\<lambda>_. run_program (Return Answers_None)) db = done_or_raise (m db)"
  by (auto simp: bindS_def split: prod.splits sum.splits)

lemma transaction_answer: "transaction (\<lambda>db. done_or_raise (m db)) db = done_or_raise (transaction m db)"
  by (auto simp: transaction_def split: prod.splits sum.splits)

lemma clear_components_statements: "clear_components = bindS delete_tasks (\<lambda>_. delete_workers)"
  by (rule ext) (simp add: clear_components_def bindS_def delete_tasks_def delete_workers_def)

lemma run_save_state: "transaction (run_program (save_state_program state)) db = done_or_raise (save_runtime_state state db)"
proof -
  have "run_program (save_state_program state) =
    (\<lambda>db. done_or_raise (bindS clear_components (\<lambda>_.
      bindS (forS task_repo_save (dvalues (rs_tasks state))) (\<lambda>_.
      bindS (forS worker_repo_save (dvalues (rs_workers state))) (\<lambda>_.
      bindS (save_queue_state (rs_queue state)) (\<lambda>_.
        save_scheduler_state (rs_scheduler state) (rs_timestamp state))))) db))"
    by (rule ext)
      (simp add: save_state_program_def run_statement run_for_each clear_components_statements bindS_assoc
        del: run_program.simps flip: bindS_answer)
  then show ?thesis by (simp add: save_runtime_state_def transaction_answer)
qed

lemma run_query: "run_program (query f k) db = (case f db of Inl e \<Rightarrow> (Inl e, db) | Inr x \<Rightarrow> run_program (k x) db)"
  by (simp add: query_def run_statement bindS_def split: sum.split)

lemma run_load_state: "run_program (load_state_program now) db = (map_sum id Answers_State (load_runtime_state now db), db)"
  by (auto simp: load_state_program_def run_query load_runtime_state_def select_queue_def select_scheduler_def bindE_def
      split: option.splits sum.splits)

lemma transaction_read: "transaction (\<lambda>db. (f db, db)) db = (f db, db)"
  by (simp add: transaction_def split: sum.split)

lemma store_start_method:
  "tx_whole (store_start uid now c) (open_connection db) = (case store_method uid now c db of (res, db') \<Rightarrow> (res, open_connection db'))"
proof (cases c)
  case (Save_runtime_state state)
  then show ?thesis
    by (simp add: settle_transaction [where m = "run_program (save_state_program state)"] run_save_state)
next
  case Load_runtime_state
  have "run_program (load_state_program now) = (\<lambda>db. (map_sum id Answers_State (load_runtime_state now db), db))"
    by (rule ext) (rule run_load_state)
  with Load_runtime_state settle_transaction [of db "run_program (load_state_program now)"] show ?thesis
    by (simp add: transaction_read)
next
  case (Append_events es)
  have "run_program (for_each insert_event es (Return Answers_None)) = (\<lambda>db. done_or_raise (forS insert_event es db))"
    by (rule ext) (simp only: run_for_each bindS_answer)
  with Append_events settle_transaction [of db "run_program (for_each insert_event es (Return Answers_None))"] show ?thesis
    by (simp add: transaction_answer append_batch_def)
next
  case (Append_event e)
  have "run_program (statement (insert_event e) (\<lambda>_. Return Answers_None)) = (\<lambda>db. done_or_raise (insert_event e db))"
    by (rule ext) (simp only: run_statement bindS_answer)
  with Append_event settle_transaction [of db "run_program (statement (insert_event e) (\<lambda>_. Return Answers_None))"]
  show ?thesis by (simp add: transaction_answer store_append_def)
next
  case (Save_snapshot i state)
  show ?thesis
  proof (cases "json_dumps (PDict (runtime_state_to_dict state))")
    case (Inl e)
    with Save_snapshot show ?thesis by (simp add: save_snapshot_def del: json_dumps_Inr_iff)
  next
    case (Inr js)
    with Save_snapshot show ?thesis
      by (simp add: save_snapshot_def run_statement bindS_def insert_snapshot_def transaction_def open_connection_def
          begin_immediate_def del: json_dumps_Inr_iff)
  qed
qed (auto simp: run_query run_statement bindS_def committed_def split: sum.split)

interpretation st: locked_object local_lock ltl_lock "tx_bodies (store_start uid now)"
    "\<lambda>c. tx_whole (store_start uid now c)" "\<lambda>c. store_cost c + 3"
  for uid now
proof unfold_locales
  fix c ob
  show "mb_result (tx_bodies (store_start uid now))
      (fst (body_run (tx_bodies (store_start uid now)) (store_cost c + 3) (mb_start (tx_bodies (store_start uid now)) c, ob))) =
      Some (fst (tx_whole (store_start uid now c) ob)) \<and>
    snd (body_run (tx_bodies (store_start uid now)) (store_cost c + 3) (mb_start (tx_bodies (store_start uid now)) c, ob)) =
      snd (tx_whole (store_start uid now c) ob)"
    using tx_body_whole [OF store_start_limited [of c uid now], where start = "store_start uid now" and c = ob] unfolding tx_bodies_simps
    by (simp add: case_prod_beta)
qed

lemma store_call_seq:
  "call_seq (\<lambda>c. tx_whole (store_start uid now c)) cs (open_connection db) =
   (case call_seq (store_method uid now) cs db of (rs, db') \<Rightarrow> (rs, open_connection db'))"
  by (induction cs arbitrary: db) (simp_all add: store_start_method split: prod.split)

section \<open>Properties\<close>

text \<open>
  Threads that share the store, their statements interleaved in any way the lock admits, get the answers
  and leave the tables that whole calls give in the order in which they entered the lock, and no
  transaction is left open.
\<close>

lemma concurrent_store_linearizable:
  assumes "locked_run local_lock (tx_bodies (store_start uid now))
      (lock_system_init local_lock_init (open_connection db) progs) tr s"
    and "ltl_lock (ls_lock s) = None"
  shows "call_seq (store_method uid now) (map snd (entered tr)) db = (map snd (returned tr), cn_db (ls_object s)) \<and>
    cn_rollback (ls_object s) = None \<and> map fst (entered tr) = map fst (returned tr)"
proof -
  have free: "ltl_lock local_lock_init = None" by (simp add: local_lock_init_def)
  obtain rs db' where seq: "call_seq (store_method uid now) (map snd (entered tr)) db = (rs, db')" by fastforce
  from st.linearizable [OF assms(1) free assms(2)] have
    "rs = map snd (returned tr)" "ls_object s = open_connection db'" "map fst (entered tr) = map fst (returned tr)"
    by (simp_all add: store_call_seq seq)
  with seq show ?thesis by (simp add: open_connection_def)
qed

text \<open>The state as it is read back, and what the calls of a history of saves and loads should answer.\<close>

definition stored :: "string \<Rightarrow> runtime_state \<Rightarrow> runtime_state" where
  "stored now s = s\<lparr>rs_timestamp := (if rs_timestamp s = [] then now else rs_timestamp s), rs_schema_version := 1\<rparr>"

fun saves_and_loads :: "store_call list \<Rightarrow> bool" where
  "saves_and_loads [] = True"
| "saves_and_loads (Save_runtime_state s # cs) = (runtime_state_ok s \<and> keyed_state s \<and> saves_and_loads cs)"
| "saves_and_loads (Load_runtime_state # cs) = saves_and_loads cs"
| "saves_and_loads (_ # cs) = False"

fun last_saved :: "string \<Rightarrow> runtime_state option \<Rightarrow> store_call list \<Rightarrow> (py_error + store_answer) list" where
  "last_saved now cur [] = []"
| "last_saved now cur (Save_runtime_state s # cs) = Inr Answers_None # last_saved now (Some (stored now s)) cs"
| "last_saved now cur (c # cs) = Inr (Answers_State cur) # last_saved now cur cs"

lemma saves_and_loads_answers:
  "saves_and_loads cs \<Longrightarrow> load_runtime_state now db = Inr cur \<Longrightarrow>
   fst (call_seq (store_method uid now) cs db) = last_saved now cur cs"
proof (induction cs arbitrary: db cur)
  case (Cons c cs)
  show ?case
  proof (cases c)
    case (Save_runtime_state s)
    with Cons.prems obtain db' where db': "save_runtime_state s db = (Inr (), db')"
      "load_runtime_state now db' = Inr (Some (stored now s))"
      using load_saved_state [of s db now] by (auto simp: stored_def)
    with Cons Save_runtime_state show ?thesis by (simp add: case_prod_beta)
  qed (use Cons in \<open>auto simp: case_prod_beta\<close>)
qed simp

text \<open>
  C12. However the statements of threads that save and load the runtime state interleave on the one
  connection, a load never sees a part of a save: it answers the state of the last save that entered
  the lock before it, whole, or the state stored at the start.
\<close>

theorem concurrent_loads_see_whole_states:
  assumes "locked_run local_lock (tx_bodies (store_start uid now))
      (lock_system_init local_lock_init (open_connection db) progs) tr s"
    and "ltl_lock (ls_lock s) = None"
    and "saves_and_loads (map snd (entered tr))" and "load_runtime_state now db = Inr cur"
  shows "map snd (returned tr) = last_saved now cur (map snd (entered tr)) \<and>
    map fst (returned tr) = map fst (entered tr)"
  using concurrent_store_linearizable [OF assms(1,2)] saves_and_loads_answers [OF assms(3,4), of uid] by simp

definition idle_state :: runtime_state where
  "idle_state =
     \<lparr>rs_timestamp = ''2026'', rs_tasks = [], rs_workers = [],
      rs_queue = \<lparr>qs_queued_task_ids = [''a''], qs_size = 1, qs_capacity = None, qs_policy_type = ''FIFO'', qs_version = 1\<rparr>,
      rs_scheduler = \<lparr>ss_started = True, ss_uptime_seconds = 0, ss_delayed_task_ids = [], ss_active_timeouts = [],
        ss_version = 1\<rparr>,
      rs_schema_version = 1\<rparr>"

definition save_and_load :: "nat \<Rightarrow> store_call list" where
  "save_and_load t = (if t = 0 then [Save_runtime_state idle_state] else if t = 1 then [Load_runtime_state] else [])"

abbreviation store_system :: "(local_threading_lock, connection, store_call, store_answer tx_pc) lock_system" where
  "store_system \<equiv> lock_system_init local_lock_init (open_connection initialize_schema) save_and_load"

lemma saves_and_loads_iff:
  "saves_and_loads cs \<longleftrightarrow>
   (\<forall>c \<in> set cs. c = Load_runtime_state \<or> (\<exists>s. c = Save_runtime_state s \<and> runtime_state_ok s \<and> keyed_state s))"
  by (induction cs rule: saves_and_loads.induct) auto

theorem concurrent_loads_see_whole_states_witness:
  "\<exists>tr s. locked_run local_lock (tx_bodies (store_start [] ''now'')) store_system tr s \<and>
     length (returned tr) = 2 \<and>
     map snd (returned tr) = last_saved ''now'' None (map snd (entered tr))"
proof -
  have free: "ltl_lock local_lock_init = None" by (simp add: local_lock_init_def)
  have T: "finite {0, 1 :: nat}" "\<forall>t. t \<notin> {0, 1} \<longrightarrow> save_and_load t = []" by (simp_all add: save_and_load_def)
  have start: "locked_run local_lock (tx_bodies (store_start [] ''now'')) store_system [] store_system"
    by (rule locked_run.nothing)
  obtain tr s where run: "locked_run local_lock (tx_bodies (store_start [] ''now'')) store_system tr s"
    and s: "ltl_lock (ls_lock s) = None" and e: "\<forall>t. of_thread t (entered tr) = save_and_load t"
    using st.completes [OF start free T]
    by auto
  have "c \<in> {Save_runtime_state idle_state, Load_runtime_state}" if "(t, c) \<in> set (entered tr)" for t c
  proof -
    have "c \<in> set (of_thread t (entered tr))" using that by (force simp: of_thread_def)
    then show ?thesis using e by (auto simp: save_and_load_def split: if_splits)
  qed
  moreover have "runtime_state_ok idle_state" "keyed_state idle_state"
    by (simp_all add: idle_state_def runtime_state_ok_def keyed_state_def wf_dict_def)
  ultimately have sl: "saves_and_loads (map snd (entered tr))" unfolding saves_and_loads_iff by fastforce
  have "load_runtime_state ''now'' initialize_schema = Inr None"
    by (simp add: load_runtime_state_def initialize_schema_def)
  from concurrent_loads_see_whole_states [OF run s sl this]
  have ans: "map snd (returned tr) = last_saved ''now'' None (map snd (entered tr))"
    and "map fst (returned tr) = map fst (entered tr)" by simp_all
  then have "length (returned tr) = length (entered tr)" by (metis length_map)
  moreover have "length (entered tr) = (\<Sum>t\<in>{0, 1}. length (save_and_load t))"
    using sum_of_threads [OF T(1), of "entered tr" "\<lambda>_. 1"] e T(2) by (simp add: sum_list_triv)
  ultimately show ?thesis using run ans
    by (intro exI [of _ tr] exI [of _ s]) (simp add: save_and_load_def)
qed

end
