(* ===== verification/Admission.thy ===== *)
theory Admission
  imports Task_Model
begin

text \<open>
  Admission control: \<^verbatim>\<open>scheduling/admission/controller.py\<close>, \<open>plugin.py\<close> and the two plugins under
  \<open>plugins/\<close>. A plugin receives a task object and may mutate it; it returns the object to pass on, or
  raises. Plugins other than the two of the repository are arbitrary functions of this type.
\<close>

section \<open>Plugins\<close>

type_synonym plugin = "tref \<Rightarrow> tstore \<Rightarrow> (py_error + tref) \<times> tstore"

definition shell_allowed :: "task \<Rightarrow> bool" where
  "shell_allowed t =
     (meta_of t \<noteq> [] \<and> (case dget (meta_of t) ''allow_shell'' of None \<Rightarrow> False | Some v \<Rightarrow> truthy v))"

definition validator_admit :: "int \<Rightarrow> plugin" where
  "validator_admit max_title_length r h =
     (let t = h r in
      if max_title_length < int (length (t_title t))
      then (Inl (AdmissionError ''Task title exceeds maximum length''), h)
      else if task_type_value (t_type t) = ''shell'' \<and> \<not> shell_allowed t
      then (Inl (AdmissionError ''Shell tasks require explicit allow_shell metadata flag''), h)
      else (Inr r, h))"

definition mutator_admit :: "int \<Rightarrow> plugin" where
  "mutator_admit default_priority r h =
     (let md = meta_of (h r);
          md1 = (if ''priority'' \<in> set (dkeys md) then md else dset ''priority'' (PInt default_priority) md);
          md2 = dset ''admitted_by'' (PStr ''MetadataMutatorPlugin'') md1
      in (Inr r, h(r := (h r)\<lparr>t_metadata := Some md2\<rparr>)))"

section \<open>The controller\<close>

record admission_controller =
  ac_plugins :: "plugin list"

definition register_plugin :: "plugin \<Rightarrow> admission_controller \<Rightarrow> admission_controller" where
  "register_plugin p c = c\<lparr>ac_plugins := ac_plugins c @ [p]\<rparr>"

text \<open>
  \<open>render e\<close> is \<open>str(e)\<close>. An admission error passes unchanged, any other one is wrapped. The
  mutations of the plugins that ran before the rejection stay on the task object.
\<close>

fun run_plugins :: "(py_error \<Rightarrow> string) \<Rightarrow> plugin list \<Rightarrow> tref \<Rightarrow> tstore \<Rightarrow> (py_error + tref) \<times> tstore" where
  "run_plugins render [] r h = (Inr r, h)"
| "run_plugins render (p # ps) r h =
     (case p r h of
        (Inr r', h') \<Rightarrow> run_plugins render ps r' h'
      | (Inl (AdmissionError m), h') \<Rightarrow> (Inl (AdmissionError m), h')
      | (Inl e, h') \<Rightarrow> (Inl (AdmissionError (''Internal admission error: '' @ render e)), h'))"

definition admission_submit ::
  "(py_error \<Rightarrow> string) \<Rightarrow> admission_controller \<Rightarrow> tref \<Rightarrow> tstore \<Rightarrow> (py_error + tref) \<times> tstore" where
  "admission_submit render c r h = run_plugins render (ac_plugins c) r h"

text \<open>The chain \<open>Runtime.__init__\<close> installs when it is given none.\<close>

definition default_controller :: admission_controller where
  "default_controller = \<lparr>ac_plugins = [mutator_admit 0, validator_admit 255]\<rparr>"

section \<open>What admission guarantees\<close>

lemma run_plugins_error:
  "run_plugins render ps r h = (Inl e, h') \<Longrightarrow> \<exists>m. e = AdmissionError m"
  by (induction render ps r h rule: run_plugins.induct)
    (auto split: prod.splits sum.splits py_error.splits)

lemma run_plugins_append:
  "run_plugins render (ps @ qs) r h =
     (case run_plugins render ps r h of (Inr r', h') \<Rightarrow> run_plugins render qs r' h' | (Inl e, h') \<Rightarrow> (Inl e, h'))"
  by (induction render ps r h rule: run_plugins.induct)
    (auto split: prod.splits sum.splits py_error.splits)

lemma mutated_metadata:
  "dget (dset ''admitted_by'' v (if ''priority'' \<in> set (dkeys md) then md else dset ''priority'' p md)) k =
     (if k = ''admitted_by'' then Some v
      else if k = ''priority'' \<and> ''priority'' \<notin> set (dkeys md) then Some p else dget md k)"
  by (simp add: dget_update)

lemma meta_of_set: "meta_of (t\<lparr>t_metadata := Some d\<rparr>) = d"
  by (simp add: meta_of_def)

lemma admission_default:
  assumes "admission_submit render default_controller r h = (res, h')"
  shows "(res = Inr r \<and> length (t_title (h r)) \<le> 255 \<and> (t_type (h r) = Type_SHELL \<longrightarrow> shell_allowed (h r))) \<or>
         (\<exists>m. res = Inl (AdmissionError m)) \<and>
         \<not> (length (t_title (h r)) \<le> 255 \<and> (t_type (h r) = Type_SHELL \<longrightarrow> shell_allowed (h r)))"
    and "\<forall>s. s \<noteq> r \<longrightarrow> h' s = h s"
    and "t_id (h' r) = t_id (h r)" and "t_title (h' r) = t_title (h r)" and "t_status (h' r) = t_status (h r)"
    and "dget (meta_of (h' r)) ''admitted_by'' = Some (PStr ''MetadataMutatorPlugin'')"
    and "dget (meta_of (h' r)) ''priority'' =
           (case dget (meta_of (h r)) ''priority'' of None \<Rightarrow> Some (PInt 0) | Some v \<Rightarrow> Some v)"
proof -
  let ?md = "meta_of (h r)"
  let ?md1 = "if ''priority'' \<in> set (dkeys ?md) then ?md else dset ''priority'' (PInt 0) ?md"
  let ?t = "(h r)\<lparr>t_metadata := Some (dset ''admitted_by'' (PStr ''MetadataMutatorPlugin'') ?md1)\<rparr>"
  let ?h = "h(r := ?t)"
  have mut: "mutator_admit 0 r h = (Inr r, ?h)" by (simp only: mutator_admit_def Let_def)
  have ne: "dset k v d \<noteq> []" for k :: string and v and d :: pydict by (cases d) auto
  have mt: "meta_of ?t = dset ''admitted_by'' (PStr ''MetadataMutatorPlugin'') ?md1"
    by (rule meta_of_set)
  have look: "dget (meta_of ?t) ''allow_shell'' = dget (meta_of (h r)) ''allow_shell''"
    unfolding mt mutated_metadata by simp
  have shell: "shell_allowed ?t = shell_allowed (h r)"
    unfolding shell_allowed_def look unfolding mt by (auto simp: ne split: option.splits)
  have sh: "task_type_value y = ''shell'' \<longleftrightarrow> y = Type_SHELL" for y by (cases y) auto
  have h': "h' = ?h" and res: "res = fst (validator_admit 255 r ?h)"
    using assms mut by (auto simp: admission_submit_def default_controller_def validator_admit_def Let_def
        split: if_splits)
  show "(res = Inr r \<and> length (t_title (h r)) \<le> 255 \<and> (t_type (h r) = Type_SHELL \<longrightarrow> shell_allowed (h r))) \<or>
         (\<exists>m. res = Inl (AdmissionError m)) \<and>
         \<not> (length (t_title (h r)) \<le> 255 \<and> (t_type (h r) = Type_SHELL \<longrightarrow> shell_allowed (h r)))"
    using shell unfolding res validator_admit_def Let_def sh by (auto split: if_splits)
  show "\<forall>s. s \<noteq> r \<longrightarrow> h' s = h s" and "t_id (h' r) = t_id (h r)" and "t_title (h' r) = t_title (h r)"
    and "t_status (h' r) = t_status (h r)" by (simp_all add: h')
  have m': "meta_of (h' r) = dset ''admitted_by'' (PStr ''MetadataMutatorPlugin'') ?md1"
    using mt by (simp only: h' fun_upd_same)
  show "dget (meta_of (h' r)) ''admitted_by'' = Some (PStr ''MetadataMutatorPlugin'')"
    unfolding m' mutated_metadata by simp
  show "dget (meta_of (h' r)) ''priority'' =
           (case dget (meta_of (h r)) ''priority'' of None \<Rightarrow> Some (PInt 0) | Some v \<Rightarrow> Some v)"
    unfolding m' mutated_metadata by (auto simp: dget_None_iff split: option.split dest: dget_Some_key)
qed

end
