(* ===== verification/Retry_Engine.thy ===== *)
theory Retry_Engine
  imports Task_Model
begin

text \<open>
  The retry decision and its backoff: \<^verbatim>\<open>scheduling/retry/engine.py\<close> and \<open>policy.py\<close>. The retry
  count in the metadata is an integer, as the engine writes it.
\<close>

definition calculate_delay :: "retry_policy \<Rightarrow> int \<Rightarrow> rat" where
  "calculate_delay p retry_count =
     (if retry_count \<le> 0 then 0
      else initial_delay_seconds p * backoff_factor p ^ nat (retry_count - 1))"

fun as_count :: "pyval \<Rightarrow> py_error + int" where
  "as_count (PInt i) = Inr i"
| "as_count (PBool b) = Inr (if b then 1 else 0)"
| "as_count _ = Inl (TypeError ''retry_count'')"

definition should_retry :: "task \<Rightarrow> exc \<Rightarrow> py_error + bool" where
  "should_retry t error =
     (case dget (meta_of t) ''retry_policy'' of
        Some (PRetryPolicy policy) \<Rightarrow>
          bindE (ditem_or as_count 0 (meta_of t) ''retry_count'') (\<lambda>retry_count.
            if max_retries policy \<le> retry_count then Inr False
            else case retryable_exceptions policy of
                   None \<Rightarrow> Inr True
                 | Some ts \<Rightarrow> Inr (ts = [] \<or> list_ex (isinstance_exc error) ts))
      | _ \<Rightarrow> Inr False)"

text \<open>
  The counter is stored and the status reset before the policy computes the delay.
\<close>

definition prepare_retry :: "task \<Rightarrow> (py_error + rat) \<times> task" where
  "prepare_retry t =
     (case t_metadata t of
        None \<Rightarrow> (Inl (TypeError ''NoneType is not subscriptable''), t)
      | Some md \<Rightarrow>
          (case dget md ''retry_policy'' of
             None \<Rightarrow> (Inl (KeyError ''retry_policy''), t)
           | Some policy \<Rightarrow>
               (case ditem_or as_count 0 md ''retry_count'' of
                  Inl e \<Rightarrow> (Inl e, t)
                | Inr n \<Rightarrow>
                    (let t' = t\<lparr>t_metadata := Some (dset ''retry_count'' (PInt (n + 1)) md),
                                t_status := Task_PENDING\<rparr>
                     in case policy of
                          PRetryPolicy p \<Rightarrow> (Inr (calculate_delay p (n + 1)), t')
                        | _ \<Rightarrow> (Inl (AttributeError ''calculate_delay''), t')))))"

section \<open>The number of retries is bounded\<close>

text \<open>
  \<open>retry_delays es t\<close>: the task fails with the errors \<open>es\<close> one after the other; each failure is
  answered as the scheduler does, by a retry if the engine allows it. The result is the delays of
  the retries that were granted and the task after them.
\<close>

fun retry_delays :: "exc list \<Rightarrow> task \<Rightarrow> rat list \<times> task" where
  "retry_delays [] t = ([], t)"
| "retry_delays (e # es) t =
     (case should_retry t e of
        Inr True \<Rightarrow>
          (case prepare_retry t of
             (Inr d, t') \<Rightarrow> (case retry_delays es t' of (ds, t'') \<Rightarrow> (d # ds, t''))
           | (Inl _, t') \<Rightarrow> ([], t'))
      | _ \<Rightarrow> ([], t))"

definition retry_state :: "retry_policy \<Rightarrow> int \<Rightarrow> task \<Rightarrow> bool" where
  "retry_state p n t \<longleftrightarrow>
     (\<exists>md. t_metadata t = Some md \<and> dget md ''retry_policy'' = Some (PRetryPolicy p) \<and>
           (dget md ''retry_count'' = Some (PInt n) \<or> n = 0 \<and> dget md ''retry_count'' = None))"

lemma should_retry_state:
  assumes "retry_state p n t"
  shows "should_retry t e = Inr (n < max_retries p \<and>
     (case retryable_exceptions p of None \<Rightarrow> True | Some ts \<Rightarrow> ts = [] \<or> list_ex (isinstance_exc e) ts))"
  using assms by (auto simp: retry_state_def should_retry_def meta_of_def ditem_or_def split: option.splits)

lemma prepare_retry_state:
  assumes "retry_state p n t"
  shows "\<exists>t'. prepare_retry t = (Inr (calculate_delay p (n + 1)), t') \<and> retry_state p (n + 1) t' \<and>
              t_status t' = Task_PENDING \<and> t_id t' = t_id t"
  using assms by (auto simp: retry_state_def prepare_retry_def ditem_or_def Let_def dget_update)

definition retryable :: "retry_policy \<Rightarrow> exc \<Rightarrow> bool" where
  "retryable p e =
     (case retryable_exceptions p of None \<Rightarrow> True | Some ts \<Rightarrow> ts = [] \<or> list_ex (isinstance_exc e) ts)"

lemma retry_delays_exact:
  "retry_state p n t \<Longrightarrow> 0 \<le> n \<Longrightarrow> list_all (retryable p) es \<Longrightarrow>
   fst (retry_delays es t) =
     map (\<lambda>k. calculate_delay p (n + 1 + int k)) [0..<min (length es) (nat (max_retries p - n))]"
proof (induction es arbitrary: n t)
  case (Cons e es)
  show ?case
  proof (cases "n < max_retries p")
    case True
    with should_retry_state [OF Cons.prems(1), of e] Cons.prems(3) have "should_retry t e = Inr True"
      by (simp add: retryable_def)
    moreover from prepare_retry_state [OF Cons.prems(1)] obtain t' where
      t': "prepare_retry t = (Inr (calculate_delay p (n + 1)), t')" "retry_state p (n + 1) t'" by blast
    moreover have "fst (retry_delays es t') = map (\<lambda>k. calculate_delay p (n + 1 + 1 + int k))
        [0..<min (length es) (nat (max_retries p - (n + 1)))]"
      using Cons.IH [OF t'(2)] Cons.prems by simp
    moreover have "min (length (e # es)) (nat (max_retries p - n)) =
        Suc (min (length es) (nat (max_retries p - (n + 1))))" using True by auto
    ultimately show ?thesis
      by (simp add: upt_rec [of 0] map_Suc_upt [symmetric] comp_def add.assoc case_prod_beta
          del: upt_Suc map_Suc_upt)
  next
    case False
    with should_retry_state [OF Cons.prems(1), of e] show ?thesis by simp
  qed
qed simp

lemma retry_delays_bounded:
  "retry_state p n t \<Longrightarrow> 0 \<le> n \<Longrightarrow> int (length (fst (retry_delays es t))) \<le> max 0 (max_retries p - n)"
proof (induction es arbitrary: n t)
  case (Cons e es)
  note s = should_retry_state [OF Cons.prems(1), of e]
  from prepare_retry_state [OF Cons.prems(1)] obtain t' where
    t': "prepare_retry t = (Inr (calculate_delay p (n + 1)), t')" "retry_state p (n + 1) t'" by blast
  show ?case
  proof (cases "should_retry t e = Inr True")
    case True
    with s have "n < max_retries p" by simp
    with True t' Cons.IH [OF t'(2)] Cons.prems(2) show ?thesis by (simp add: case_prod_beta)
  next
    case False
    then show ?thesis by (auto split: sum.splits bool.splits)
  qed
qed simp

text \<open>Backoff grows: with a factor of at least one the delays never decrease.\<close>

lemma calculate_delay_mono:
  assumes "1 \<le> backoff_factor p" and "0 \<le> initial_delay_seconds p" and "i \<le> j"
  shows "calculate_delay p i \<le> calculate_delay p j"
  using assms by (auto simp: calculate_delay_def intro!: mult_left_mono power_increasing)

end
