(* ===== verification/Delayed_Tracker.thy ===== *)
theory Delayed_Tracker
  imports Heapq Task_Model
begin

text \<open>
  The tracker of delayed tasks: \<^verbatim>\<open>scheduling/delayed/tracker.py\<close>. Its heap holds the due time, a
  running number and the task; the numbers are all different, so the comparison of two entries never
  reaches the task. The body of the polling loop is one step per locked section.
\<close>

type_synonym delayed_entry = "rat \<times> nat \<times> tref"

record delayed_tracker =
  dt_heap :: "delayed_entry list"
  dt_counter :: nat
  dt_started :: bool

definition tracker_init :: delayed_tracker where
  "tracker_init = \<lparr>dt_heap = [], dt_counter = 0, dt_started = False\<rparr>"

definition tracker_start :: "delayed_tracker \<Rightarrow> delayed_tracker" where
  "tracker_start d = (if dt_started d then d else d\<lparr>dt_started := True\<rparr>)"

definition tracker_stop :: "delayed_tracker \<Rightarrow> delayed_tracker" where
  "tracker_stop d = (if dt_started d then d\<lparr>dt_started := False\<rparr> else d)"

text \<open>
  \<open>add_delayed_task\<close>: the first component is the task handed to the callback at once, if any.
\<close>

definition add_delayed_task ::
  "rat \<Rightarrow> tref \<Rightarrow> rat \<Rightarrow> delayed_tracker \<Rightarrow> tref option \<times> delayed_tracker" where
  "add_delayed_task now r delay_seconds d =
     (if delay_seconds \<le> 0 then (Some r, d)
      else (None, d\<lparr>dt_heap := heappush (now + delay_seconds, dt_counter d, r) (dt_heap d),
                    dt_counter := dt_counter d + 1\<rparr>))"

definition tracker_size :: "delayed_tracker \<Rightarrow> nat" where
  "tracker_size d = length (dt_heap d)"

function pop_due :: "rat \<Rightarrow> delayed_entry list \<Rightarrow> tref list \<times> delayed_entry list" where
  "pop_due now h =
     (case heap_top h of
        None \<Rightarrow> ([], h)
      | Some entry \<Rightarrow>
          if fst entry \<le> now
          then case heappop h of
                 None \<Rightarrow> ([], h)
               | Some (e, h') \<Rightarrow> (case pop_due now h' of (rs, h'') \<Rightarrow> (snd (snd e) # rs, h''))
          else ([], h))"
  by pat_completeness auto
termination
  by (relation "measure (\<lambda>(now, h). length h)") (auto dest: heappop_length)

declare pop_due.simps [simp del]

text \<open>The tasks one round of the loop triggers, and how long it then sleeps.\<close>

definition release_due :: "rat \<Rightarrow> delayed_tracker \<Rightarrow> tref list \<times> delayed_tracker" where
  "release_due now d = (case pop_due now (dt_heap d) of (rs, h) \<Rightarrow> (rs, d\<lparr>dt_heap := h\<rparr>))"

definition sleep_time :: "rat \<Rightarrow> delayed_tracker \<Rightarrow> rat" where
  "sleep_time now d =
     (case heap_top (dt_heap d) of
        None \<Rightarrow> 1 / 10
      | Some entry \<Rightarrow> max (1 / 100) (min (fst entry - now) (1 / 2)))"

section \<open>Tasks are released when due, in order, and only then\<close>

definition tracker_inv :: "delayed_tracker \<Rightarrow> bool" where
  "tracker_inv d \<longleftrightarrow> is_heap (dt_heap d) \<and>
     (\<forall>e \<in> set (dt_heap d). fst (snd e) < dt_counter d) \<and> distinct (map (\<lambda>e. fst (snd e)) (dt_heap d))"

lemma sorted_takeWhile_filter:
  fixes xs :: "delayed_entry list"
  shows "sorted xs \<Longrightarrow> takeWhile (\<lambda>e. fst e \<le> t) xs = filter (\<lambda>e. fst e \<le> t) xs"
proof (induction xs)
  case (Cons x xs)
  show ?case
  proof (cases "fst x \<le> t")
    case False
    with Cons.prems have "filter (\<lambda>e. fst e \<le> t) xs = []"
      by (fastforce simp: filter_empty_conv less_eq_prod_def)
    with False show ?thesis by simp
  qed (use Cons in simp)
qed simp

lemma pop_due_spec:
  assumes "is_heap h"
  shows "fst (pop_due now h) = map (\<lambda>e. snd (snd e)) (takeWhile (\<lambda>e. fst e \<le> now) (hq.ordered h)) \<and>
         is_heap (snd (pop_due now h)) \<and>
         hq.ordered (snd (pop_due now h)) = dropWhile (\<lambda>e. fst e \<le> now) (hq.ordered h)"
  using assms
proof (induction now h rule: pop_due.induct)
  case (1 now h)
  show ?case
  proof (cases "heappop h")
    case None
    then have "heap_top h = None" "hq.ordered h = []" by (simp_all add: hq.top_pop hq.ordered_pop_None)
    with 1(2) show ?thesis by (simp add: pop_due.simps [of now h])
  next
    case (Some p)
    obtain e h' where p: "p = (e, h')" by fastforce
    with Some have pop: "heappop h = Some (e, h')" by simp
    then have hd: "heap_top h = Some e" by (simp add: hq.top_pop)
    note o = hq.ordered_pop_Some [OF 1(2) pop]
    show ?thesis
    proof (cases "fst e \<le> now")
      case True
      obtain rs h'' where r: "pop_due now h' = (rs, h'')" by fastforce
      from 1(1) [OF hd True pop refl hq.invar_pop [OF 1(2) pop]] r hd pop True o show ?thesis
        by (simp add: pop_due.simps [of now h])
    next
      case False
      with hd 1(2) o show ?thesis by (simp add: pop_due.simps [of now h])
    qed
  qed
qed

lemma mset_ordered: "mset (hq.ordered h) = mset h"
  by (simp add: hq.ordered_def)

lemma sorted_ordered: "sorted (hq.ordered h)"
  by (simp add: hq.ordered_def)

lemma filter_not_le: "filter (\<lambda>e. \<not> fst e \<le> now) xs = filter (\<lambda>e. now < fst e) (xs :: delayed_entry list)"
  by (simp add: not_le)

lemma dropWhile_sorted:
  fixes xs :: "delayed_entry list"
  assumes "sorted xs"
  shows "mset (dropWhile (\<lambda>e. fst e \<le> t) xs) = filter_mset (\<lambda>e. t < fst e) (mset xs)"
proof -
  have "mset xs = mset (takeWhile (\<lambda>e. fst e \<le> t) xs) + mset (dropWhile (\<lambda>e. fst e \<le> t) xs)"
    by (metis mset_append takeWhile_dropWhile_id)
  then have "mset xs = filter_mset (\<lambda>e. fst e \<le> t) (mset xs) + mset (dropWhile (\<lambda>e. fst e \<le> t) xs)"
    using sorted_takeWhile_filter [OF assms, of t] by simp
  moreover have "mset xs = filter_mset (\<lambda>e. fst e \<le> t) (mset xs) + filter_mset (\<lambda>e. t < fst e) (mset xs)"
    using multiset_partition [of "mset xs" "\<lambda>e. fst e \<le> t"] by (simp add: not_le)
  ultimately show ?thesis by (metis add_left_cancel)
qed

lemma release_due_spec:
  assumes "tracker_inv d" and "release_due now d = (rs, d')"
  shows "rs = map (\<lambda>e. snd (snd e)) (sort (filter (\<lambda>e. fst e \<le> now) (dt_heap d)))"
    and "mset (dt_heap d') = filter_mset (\<lambda>e. now < fst e) (mset (dt_heap d))"
    and "tracker_inv d'" and "dt_counter d' = dt_counter d"
proof -
  let ?h = "dt_heap d"
  from assms(1) have heap: "is_heap ?h" by (simp add: tracker_inv_def)
  from assms(2) have d': "rs = fst (pop_due now ?h)" "d' = d\<lparr>dt_heap := snd (pop_due now ?h)\<rparr>"
    by (auto simp: release_due_def split: prod.splits)
  note spec = pop_due_spec [OF heap, of now]
  have "sort (filter (\<lambda>e. fst e \<le> now) ?h) = filter (\<lambda>e. fst e \<le> now) (hq.ordered ?h)"
    by (rule properties_for_sort) (simp_all add: mset_ordered sorted_ordered sorted_wrt_filter)
  with spec show "rs = map (\<lambda>e. snd (snd e)) (sort (filter (\<lambda>e. fst e \<le> now) ?h))"
    unfolding d'(1) by (simp add: sorted_takeWhile_filter sorted_ordered)
  have "mset (snd (pop_due now ?h)) = mset (dropWhile (\<lambda>e. fst e \<le> now) (hq.ordered ?h))"
    using spec mset_ordered by metis
  then show ms: "mset (dt_heap d') = filter_mset (\<lambda>e. now < fst e) (mset ?h)"
    unfolding d'(2) by (simp add: dropWhile_sorted sorted_ordered mset_ordered)
  have "set (dt_heap d') \<subseteq> set ?h"
    using arg_cong [OF ms, of set_mset] by auto
  moreover have "mset (map (\<lambda>e. fst (snd e)) (dt_heap d')) =
      mset (map (\<lambda>e. fst (snd e)) (filter (\<lambda>e. now < fst e) ?h))"
    using ms by simp
  then have "distinct (map (\<lambda>e. fst (snd e)) (dt_heap d'))"
    using assms(1) mset_eq_imp_distinct_iff distinct_map_filter unfolding tracker_inv_def by blast
  ultimately show "tracker_inv d'" using assms(1) spec by (auto simp: tracker_inv_def d'(2))
  show "dt_counter d' = dt_counter d" by (simp add: d'(2))
qed

lemma add_delayed_task_inv:
  "tracker_inv d \<Longrightarrow> tracker_inv (snd (add_delayed_task now r delay d))"
proof -
  let ?x = "(now + delay, dt_counter d, r)" and ?f = "\<lambda>e :: delayed_entry. fst (snd e)"
  assume inv: "tracker_inv d"
  have "mset (map ?f (heappush ?x (dt_heap d))) = mset (map ?f (?x # dt_heap d))"
    by (simp add: mset_heappush)
  then have "distinct (map ?f (heappush ?x (dt_heap d))) = distinct (map ?f (?x # dt_heap d))"
    by (rule mset_eq_imp_distinct_iff)
  with inv show ?thesis
    by (fastforce simp: tracker_inv_def add_delayed_task_def is_heap_heappush less_Suc_eq)
qed

lemma sleep_time_bounds: "1 / 100 \<le> sleep_time now d \<and> sleep_time now d \<le> 1 / 2"
  by (auto simp: sleep_time_def max_def min_def split: option.split)

end
