(* ===== verification/Executor_Registry.thy ===== *)
theory Executor_Registry
  imports Task_Model
begin

text \<open>
  The executor registry: \<^verbatim>\<open>registry/executor_registry.py\<close>. \<open>'x\<close> are executor objects and \<open>'l\<close> legacy
  ones; \<open>caps\<close> reads the tags of an executor's capabilities. A lazily registered executor is a builder,
  represented by what calling it gives. The fuel of the lookup is the interpreter's recursion limit;
  running out of it is \<^const>\<open>RecursionError\<close>.
\<close>

section \<open>The registry\<close>

datatype 'x reg_value = Built 'x | Builder "py_error + 'x"

record 'x reg_entry =
  instance_or_builder :: "'x reg_value"
  entry_capabilities :: "string list option"

fun is_lazy :: "'x reg_value \<Rightarrow> bool" where
  "is_lazy (Built x) = False"
| "is_lazy (Builder b) = True"

record ('l, 'x) registry =
  rg_executors :: "(task_type \<times> 'l) list"
  rg_new_registry :: "(string \<times> (string \<times> 'x reg_entry) list) list"
  rg_default_type :: "string option"
  rg_default_version :: "string option"

definition registry_init :: "('l, 'x) registry" where
  "registry_init =
     \<lparr>rg_executors = [], rg_new_registry = [], rg_default_type = None, rg_default_version = None\<rparr>"

definition register_legacy :: "task_type \<Rightarrow> 'l \<Rightarrow> ('l, 'x) registry \<Rightarrow> ('l, 'x) registry" where
  "register_legacy ty x g = g\<lparr>rg_executors := dset ty x (rg_executors g)\<rparr>"

definition versions_of :: "string \<Rightarrow> ('l, 'x) registry \<Rightarrow> (string \<times> 'x reg_entry) list" where
  "versions_of ty g = (case dget (rg_new_registry g) ty of None \<Rightarrow> [] | Some vs \<Rightarrow> vs)"

definition register_executor ::
  "('x \<Rightarrow> string list) \<Rightarrow> string \<Rightarrow> 'x reg_value \<Rightarrow> string \<Rightarrow> string list option \<Rightarrow>
   ('l, 'x) registry \<Rightarrow> ('l, 'x) registry" where
  "register_executor caps ty val ver capabilities g =
     g\<lparr>rg_new_registry := dset ty (dset ver
         \<lparr>instance_or_builder = val,
          entry_capabilities =
            (case capabilities of
               Some cs \<Rightarrow> Some cs
             | None \<Rightarrow> (case val of Built x \<Rightarrow> Some (caps x) | Builder b \<Rightarrow> None))\<rparr>
         (versions_of ty g)) (rg_new_registry g)\<rparr>"

definition unregister_executor :: "string \<Rightarrow> string \<Rightarrow> ('l, 'x) registry \<Rightarrow> ('l, 'x) registry" where
  "unregister_executor ty ver g =
     (case dget (rg_new_registry g) ty of
        None \<Rightarrow> g
      | Some vs \<Rightarrow>
          if ver \<in> set (dkeys vs)
          then (let vs' = dpop ver vs
                in if vs' = [] then g\<lparr>rg_new_registry := dpop ty (rg_new_registry g)\<rparr>
                   else g\<lparr>rg_new_registry := dset ty vs' (rg_new_registry g)\<rparr>)
          else g)"

definition set_default_executor :: "string \<Rightarrow> string \<Rightarrow> ('l, 'x) registry \<Rightarrow> ('l, 'x) registry" where
  "set_default_executor ty ver g = g\<lparr>rg_default_type := Some ty, rg_default_version := Some ver\<rparr>"

section \<open>Lookup\<close>

definition lower_char :: "char \<Rightarrow> char" where
  "lower_char c = (let n = (of_char c :: nat) in if 65 \<le> n \<and> n \<le> 90 then char_of (n + 32) else c)"

definition lower :: "string \<Rightarrow> string" where
  "lower s = map lower_char s"

text \<open>An optional string counts as given when it is neither \<open>None\<close> nor empty.\<close>

definition given :: "string option \<Rightarrow> bool" where
  "given s \<longleftrightarrow> s \<noteq> None \<and> s \<noteq> Some []"

text \<open>The last part of \<open>lookup_executor\<close>: the type has versions \<open>vs\<close>.\<close>

definition lookup_version ::
  "('x \<Rightarrow> string list) \<Rightarrow> string \<Rightarrow> (string \<times> 'x reg_entry) list \<Rightarrow> string option \<Rightarrow>
   ('l, 'x) registry \<Rightarrow> (py_error + 'x) \<times> ('l, 'x) registry" where
  "lookup_version caps ty vs version g =
     (let target = (if given version then the version else last (sort (dkeys vs)))
      in case dget vs target of
           None \<Rightarrow> (Inl (ValueError ''No executor registered with name and version''), g)
         | Some entry \<Rightarrow>
             (case instance_or_builder entry of
                Built x \<Rightarrow> (Inr x, g)
              | Builder (Inl e) \<Rightarrow> (Inl e, g)
              | Builder (Inr x) \<Rightarrow>
                  (Inr x, g\<lparr>rg_new_registry := dset ty (dset target
                      \<lparr>instance_or_builder = Built x, entry_capabilities = Some (caps x)\<rparr> vs)
                      (rg_new_registry g)\<rparr>)))"

fun lookup_executor ::
  "('x \<Rightarrow> string list) \<Rightarrow> nat \<Rightarrow> string \<Rightarrow> string option \<Rightarrow> ('l, 'x) registry \<Rightarrow>
   (py_error + 'x) \<times> ('l, 'x) registry" where
  "lookup_executor caps 0 ty version g = (Inl RecursionError, g)"
| "lookup_executor caps (Suc fuel) ty version g =
     (case versions_of ty g of
        [] \<Rightarrow>
          if given (rg_default_type g)
          then lookup_executor caps fuel (the (rg_default_type g)) (rg_default_version g) g
          else if lower ty \<in> set (dkeys (rg_new_registry g))
          then lookup_executor caps fuel (lower ty) version g
          else (Inl (ValueError ''No executor registered with name''), g)
      | v # vs \<Rightarrow> lookup_version caps ty (v # vs) version g)"

text \<open>The legacy interface: a registered executor, or an adapter around one of the new registry.\<close>

datatype ('l, 'x) any_executor = Legacy 'l | LegacyExecutorAdapter 'x

definition get_executor ::
  "('x \<Rightarrow> string list) \<Rightarrow> nat \<Rightarrow> task_type \<Rightarrow> ('l, 'x) registry \<Rightarrow>
   (py_error + ('l, 'x) any_executor) \<times> ('l, 'x) registry" where
  "get_executor caps fuel ty g =
     (case dget (rg_executors g) ty of
        Some l \<Rightarrow> (Inr (Legacy l), g)
      | None \<Rightarrow>
          (case lookup_executor caps fuel (task_type_value ty) None g of
             (Inr x, g') \<Rightarrow> (Inr (LegacyExecutorAdapter x), g')
           | (Inl e, g') \<Rightarrow> (Inl (ValueError ''No executor registered for task type''), g')))"

fun collect_by_tag ::
  "('x \<Rightarrow> string list) \<Rightarrow> nat \<Rightarrow> string \<Rightarrow> (string \<times> string) list \<Rightarrow> ('l, 'x) registry \<Rightarrow>
   'x list \<times> ('l, 'x) registry" where
  "collect_by_tag caps fuel tag [] g = ([], g)"
| "collect_by_tag caps fuel tag ((ty, ver) # tvs) g =
     (case lookup_executor caps fuel ty (Some ver) g of
        (Inl e, g') \<Rightarrow> collect_by_tag caps fuel tag tvs g'
      | (Inr x, g') \<Rightarrow>
          (case collect_by_tag caps fuel tag tvs g' of (xs, g'') \<Rightarrow>
             (if tag \<in> set (caps x) then x # xs else xs, g'')))"

definition list_executors :: "('l, 'x) registry \<Rightarrow> (string \<times> string list) list" where
  "list_executors g = dmap dkeys (rg_new_registry g)"

definition find_by_capability ::
  "('x \<Rightarrow> string list) \<Rightarrow> nat \<Rightarrow> string \<Rightarrow> ('l, 'x) registry \<Rightarrow> 'x list \<times> ('l, 'x) registry" where
  "find_by_capability caps fuel tag g =
     collect_by_tag caps fuel tag
       (concat (map (\<lambda>tv. map (\<lambda>ver. (fst tv, ver)) (snd tv)) (list_executors g))) g"

section \<open>Properties of the registry\<close>

text \<open>No type is left without a version, and every dictionary has one entry per key.\<close>

definition registry_inv :: "('l, 'x) registry \<Rightarrow> bool" where
  "registry_inv g \<longleftrightarrow> wf_dict (rg_new_registry g) \<and>
     (\<forall>(ty, vs) \<in> set (rg_new_registry g). vs \<noteq> [] \<and> wf_dict vs)"

lemma dset_nonempty [simp]: "dset k v d \<noteq> []"
  by (cases d) auto

lemma set_dset_subset: "set (dset k v d) \<subseteq> insert (k, v) (set d)"
  by (induction d) auto

lemma registry_inv_versions: "registry_inv g \<Longrightarrow> wf_dict (versions_of ty g)"
  by (auto simp: registry_inv_def versions_of_def dest: map_of_SomeD split: option.split)

lemma registry_inv_dset:
  assumes "registry_inv g" and "vs \<noteq> []" and "wf_dict vs"
  shows "registry_inv (g\<lparr>rg_new_registry := dset ty vs (rg_new_registry g)\<rparr>)"
  using assms set_dset_subset [of ty vs "rg_new_registry g"] by (auto simp: registry_inv_def)

lemma registry_inv_register: "registry_inv g \<Longrightarrow> registry_inv (register_executor caps ty val ver cs g)"
  unfolding register_executor_def by (intro registry_inv_dset) (simp_all add: registry_inv_versions)

lemma registry_inv_unregister: "registry_inv g \<Longrightarrow> registry_inv (unregister_executor ty ver g)"
proof (cases "dget (rg_new_registry g) ty")
  case (Some vs)
  assume inv: "registry_inv g"
  with Some have vs: "wf_dict vs" using registry_inv_versions [of g ty] by (simp add: versions_of_def)
  have "registry_inv (g\<lparr>rg_new_registry := dpop ty (rg_new_registry g)\<rparr>)"
    using inv set_delete_subset [of ty "rg_new_registry g"] by (auto simp: registry_inv_def)
  with inv vs Some show ?thesis
    by (auto simp: unregister_executor_def Let_def intro: registry_inv_dset)
qed (simp add: unregister_executor_def)

lemma lookup_version_inv:
  "registry_inv g \<Longrightarrow> wf_dict vs \<Longrightarrow> registry_inv (snd (lookup_version caps ty vs version g))"
  by (auto simp: lookup_version_def Let_def intro!: registry_inv_dset
      split: option.split reg_value.split sum.split)

lemma lookup_executor_inv:
  "registry_inv g \<Longrightarrow> registry_inv (snd (lookup_executor caps fuel ty version g))"
proof (induction caps fuel ty version g rule: lookup_executor.induct)
  case (2 caps fuel ty version g)
  show ?case
  proof (cases "versions_of ty g")
    case Nil
    with 2 show ?thesis by simp
  next
    case (Cons v vs)
    with 2(3) registry_inv_versions [OF 2(3), of ty] lookup_version_inv [of g "v # vs"] show ?thesis by simp
  qed
qed simp

lemma versions_register [simp]:
  "versions_of ty (register_executor caps ty val ver cs g) = dset ver
     \<lparr>instance_or_builder = val, entry_capabilities =
        (case cs of Some c \<Rightarrow> Some c | None \<Rightarrow> (case val of Built x \<Rightarrow> Some (caps x) | Builder b \<Rightarrow> None))\<rparr>
     (versions_of ty g)"
  by (simp add: versions_of_def register_executor_def dget_update split: option.split)

lemma lookup_registered:
  assumes "ver \<noteq> []"
  shows "fst (lookup_executor caps (Suc n) ty (Some ver) (register_executor caps ty val ver cs g)) =
         (case val of Built x \<Rightarrow> Inr x | Builder b \<Rightarrow> b)"
proof -
  let ?g = "register_executor caps ty val ver cs g"
  obtain v vs where v: "versions_of ty ?g = v # vs" using dset_nonempty by (cases "versions_of ty ?g") auto
  then have "lookup_executor caps (Suc n) ty (Some ver) ?g = lookup_version caps ty (v # vs) (Some ver) ?g"
    by simp
  moreover have "dget (v # vs) ver = Some \<lparr>instance_or_builder = val, entry_capabilities =
        (case cs of Some c \<Rightarrow> Some c | None \<Rightarrow> (case val of Built x \<Rightarrow> Some (caps x) | Builder b \<Rightarrow> None))\<rparr>"
    unfolding v [symmetric] versions_register by (simp add: dget_update)
  ultimately show ?thesis
    using assms by (simp add: lookup_version_def given_def Let_def del: map_of.simps split: reg_value.split sum.split)
qed

text \<open>A default that names an unregistered type sends the lookup into itself until the limit.\<close>

lemma lookup_default_missing:
  assumes "rg_default_type g = Some d" and "d \<noteq> []" and "versions_of d g = []"
    and "versions_of ty g = []"
  shows "lookup_executor caps fuel ty version g = (Inl RecursionError, g)"
  using assms(4)
proof (induction fuel arbitrary: ty version)
  case (Suc fuel)
  with assms show ?case by (simp add: given_def)
qed simp

end
