(* ===== verification/Scheduling_Properties.thy ===== *)
theory Scheduling_Properties
  imports Admission Retry_Engine Delayed_Tracker Executor_Registry
begin

text \<open>
  The properties of the components around the queue: admission, retries, delayed execution and
  the registry of executors.
\<close>

section \<open>Admission\<close>

definition plain_task :: "string \<Rightarrow> task_type \<Rightarrow> pydict \<Rightarrow> task" where
  "plain_task title ty md =
     \<lparr>t_id = ''id'', t_title = title, t_type = ty, t_metadata = Some md, t_status = Task_PENDING,
      t_created_at = 0\<rparr>"

text \<open>
  Whatever plugins are registered and however they fail, the only error the admission
  controller raises is an admission error: an error of another class is wrapped.
\<close>

theorem admission_raises_only_admission_errors:
  assumes "admission_submit render c r h = (Inl e, h')"
  shows "\<exists>m. e = AdmissionError m"
  using assms unfolding admission_submit_def by (rule run_plugins_error)

theorem admission_raises_only_admission_errors_witness:
  "\<exists>m. fst (admission_submit (\<lambda>_. ''boom'') \<lparr>ac_plugins = [\<lambda>r h. (Inl (KeyError ''k''), h)]\<rparr> 0
              (\<lambda>_. plain_task ''t'' Type_PYTHON [])) = Inl (AdmissionError m)"
proof -
  obtain e h' where e: "admission_submit (\<lambda>_. ''boom'') \<lparr>ac_plugins = [\<lambda>r h. (Inl (KeyError ''k''), h)]\<rparr> 0
              (\<lambda>_. plain_task ''t'' Type_PYTHON []) = (Inl e, h')"
    by (simp add: admission_submit_def)
  from admission_raises_only_admission_errors [OF e] e show ?thesis by auto
qed

text \<open>
  The default chain admits a task exactly when its title has at most 255 characters and, if it
  is a shell task, its metadata sets \<open>allow_shell\<close>. Admitted or not, the task keeps its id, title
  and status, carries the mutator's mark, has a priority (its own, or zero), and no other task
  object is touched.
\<close>

theorem default_admission_exact:
  assumes "admission_submit render default_controller r h = (res, h')"
  shows "(res = Inr r \<longleftrightarrow> length (t_title (h r)) \<le> 255 \<and> (t_type (h r) = Type_SHELL \<longrightarrow> shell_allowed (h r))) \<and>
    (res = Inr r \<or> (\<exists>m. res = Inl (AdmissionError m))) \<and>
    (\<forall>s. s \<noteq> r \<longrightarrow> h' s = h s) \<and>
    t_id (h' r) = t_id (h r) \<and> t_title (h' r) = t_title (h r) \<and> t_status (h' r) = t_status (h r) \<and>
    dget (meta_of (h' r)) ''priority'' =
      (case dget (meta_of (h r)) ''priority'' of None \<Rightarrow> Some (PInt 0) | Some v \<Rightarrow> Some v)"
  using admission_default [OF assms] by auto

theorem default_admission_exact_witness:
  "\<exists>m h'. admission_submit (\<lambda>_. []) default_controller 0 (\<lambda>_. plain_task ''ls'' Type_SHELL []) =
     (Inl (AdmissionError m), h') \<and> dget (meta_of (h' 0)) ''priority'' = Some (PInt 0)"
proof -
  let ?h = "\<lambda>_. plain_task ''ls'' Type_SHELL []"
  obtain res h' where e: "admission_submit (\<lambda>_. []) default_controller 0 ?h = (res, h')" by fastforce
  have "\<not> shell_allowed (?h 0)" "t_type (?h 0) = Type_SHELL" "dget (meta_of (?h 0)) ''priority'' = None"
    by (simp_all add: shell_allowed_def plain_task_def meta_of_def)
  with default_admission_exact [OF e] e show ?thesis by (auto split: option.splits)
qed

section \<open>Retries\<close>

text \<open>
  C38. Retries follow the policy exactly. A task with a retry policy that has not been retried and
  keeps failing with errors the policy accepts is retried as often as the policy allows and no more,
  and the delays are the initial delay multiplied by successive powers of the backoff factor.
\<close>

theorem retry_schedule:
  assumes "t_metadata t = Some md" and "dget md ''retry_policy'' = Some (PRetryPolicy p)"
    and "dget md ''retry_count'' = None" and "list_all (retryable p) es"
  shows "fst (retry_delays es t) =
    map (\<lambda>k. initial_delay_seconds p * backoff_factor p ^ k) [0..<min (length es) (nat (max_retries p))]"
proof -
  have "retry_state p 0 t" using assms by (simp add: retry_state_def)
  from retry_delays_exact [OF this _ assms(4)] show ?thesis
    by (simp add: calculate_delay_def nat_add_distrib)
qed

definition sample_policy :: retry_policy where
  "sample_policy = \<lparr>max_retries = 2, initial_delay_seconds = 1, backoff_factor = 2,
     retryable_exceptions = Some [''OSError'']\<rparr>"

definition failing_task :: task where
  "failing_task = plain_task ''t'' Type_PYTHON [(''retry_policy'', PRetryPolicy sample_policy)]"

definition io_error :: exc where
  "io_error = \<lparr>exc_mro = [''TimeoutError'', ''OSError'', ''Exception''], exc_msg = ''slow''\<rparr>"

theorem retry_schedule_witness:
  "fst (retry_delays [io_error, io_error, io_error] failing_task) = [1, 2]"
proof -
  have "list_all (retryable sample_policy) [io_error, io_error, io_error]"
    by (simp add: retryable_def sample_policy_def io_error_def isinstance_exc_def)
  from retry_schedule [OF _ _ _ this, of failing_task "[(''retry_policy'', PRetryPolicy sample_policy)]"]
  show ?thesis by (simp add: failing_task_def plain_task_def sample_policy_def upt_rec)
qed

text \<open>
  Whatever the errors are, a task is never retried more often than its policy allows, counting
  the retries recorded in its metadata.
\<close>

theorem retries_bounded:
  assumes "retry_state p n t" and "0 \<le> n"
  shows "int (length (fst (retry_delays es t))) \<le> max 0 (max_retries p - n)"
  using assms by (rule retry_delays_bounded)

theorem retries_bounded_witness:
  "int (length (fst (retry_delays [io_error, io_error, io_error, io_error] failing_task))) \<le> 2"
proof -
  have "retry_state sample_policy 0 failing_task"
    by (simp add: retry_state_def failing_task_def plain_task_def)
  from retries_bounded [OF this, of "[io_error, io_error, io_error, io_error]"] show ?thesis
    by (simp add: sample_policy_def)
qed

section \<open>Delayed tasks\<close>

text \<open>
  One round of the delayed tracker releases exactly the tasks whose time has come, ordered by
  due time and, for equal times, by submission; the others stay in the heap, none is lost, and the
  heap stays well formed.
\<close>

theorem delayed_release_exact:
  assumes "tracker_inv d" and "release_due now d = (rs, d')"
  shows "rs = map (\<lambda>e. snd (snd e)) (sort (filter (\<lambda>e. fst e \<le> now) (dt_heap d))) \<and>
    mset (dt_heap d') = filter_mset (\<lambda>e. now < fst e) (mset (dt_heap d)) \<and>
    tracker_inv d' \<and> 1 / 100 \<le> sleep_time now d' \<and> sleep_time now d' \<le> 1 / 2"
  using release_due_spec [OF assms] sleep_time_bounds by blast

theorem delayed_release_exact_witness:
  "\<exists>d rs d'. d = snd (add_delayed_task 0 7 1 (snd (add_delayed_task 0 8 3 tracker_init))) \<and>
     release_due 2 d = (rs, d') \<and> rs = [7] \<and> tracker_size d' = 1"
proof -
  let ?d = "snd (add_delayed_task 0 7 1 (snd (add_delayed_task 0 8 3 tracker_init)))"
  have "tracker_inv tracker_init" by (simp add: tracker_inv_def tracker_init_def)
  then have inv: "tracker_inv ?d" by (intro add_delayed_task_inv)
  have m: "mset (dt_heap ?d) = {#(1, 1, 7), (3, 0, 8)#}"
    by (simp add: add_delayed_task_def tracker_init_def mset_heappush)
  obtain rs d' where r: "release_due 2 ?d = (rs, d')" by fastforce
  note e = delayed_release_exact [OF inv r]
  have "sort (filter (\<lambda>e. fst e \<le> 2) (dt_heap ?d)) = [(1, 1, 7)]"
    by (rule properties_for_sort) (simp_all add: m)
  moreover have "mset (dt_heap d') = {#(3, 0, 8)#}" using e m by simp
  then have "length (dt_heap d') = 1" by (metis size_mset size_single)
  ultimately show ?thesis using r e by (auto simp: tracker_size_def)
qed

section \<open>The registry\<close>

text \<open>
  A registered executor is found under its type and version, whatever was registered before:
  the lookup returns the instance, or what its builder returns or raises; and registering,
  unregistering and looking up keep the registry free of types without versions.
\<close>

theorem registered_executor_found:
  assumes "ver \<noteq> []" and "registry_inv g"
  shows "fst (lookup_executor caps (Suc n) ty (Some ver) (register_executor caps ty val ver cs g)) =
      (case val of Built x \<Rightarrow> Inr x | Builder b \<Rightarrow> b) \<and>
    registry_inv (snd (lookup_executor caps (Suc n) ty (Some ver) (register_executor caps ty val ver cs g))) \<and>
    registry_inv (unregister_executor ty ver g)"
  using lookup_registered [OF assms(1)] lookup_executor_inv [OF registry_inv_register [OF assms(2)]]
    registry_inv_unregister [OF assms(2)] by blast

theorem registered_executor_found_witness:
  "fst (lookup_executor (\<lambda>x :: nat. []) 1 ''python'' (Some ''1.0.0'')
     (register_executor (\<lambda>x. []) ''python'' (Builder (Inr 3)) ''1.0.0'' None
       (registry_init :: (unit, nat) registry))) = Inr 3"
proof -
  have inv: "registry_inv (registry_init :: (unit, nat) registry)"
    by (simp add: registry_inv_def registry_init_def)
  have "''1.0.0'' \<noteq> ([] :: string)" by simp
  from registered_executor_found [OF this inv, of "\<lambda>x. []" 0 "''python''" "Builder (Inr 3)" None] show ?thesis
    by simp
qed

text \<open>
  A default executor that is not registered makes the lookup of an unknown type recurse into
  itself: for every recursion limit the outcome is the recursion error, never the documented value
  error.
\<close>

theorem unregistered_default_recurses:
  assumes "rg_default_type g = Some d" and "d \<noteq> []" and "versions_of d g = []" and "versions_of ty g = []"
  shows "fst (lookup_executor caps fuel ty version g) = Inl RecursionError"
  using lookup_default_missing [OF assms] by simp

theorem unregistered_default_recurses_witness:
  "fst (lookup_executor (\<lambda>x :: nat. []) 1000 ''python'' None
     (set_default_executor ''docker'' ''1.0.0'' (registry_init :: (unit, nat) registry))) = Inl RecursionError"
  by (rule unregistered_default_recurses [where d = "''docker''"])
    (simp_all add: set_default_executor_def registry_init_def versions_of_def)

text \<open>
  Without a version the lookup takes the last version in dictionary order of the strings, which
  is not the newest release: with the versions 9.0.0 and 10.0.0 registered it returns 9.0.0.
\<close>

theorem latest_version_is_lexicographic:
  "fst (lookup_executor (\<lambda>x :: nat. []) 1 ''python'' None
     (register_executor (\<lambda>x. []) ''python'' (Built 10) ''10.0.0'' None
       (register_executor (\<lambda>x. []) ''python'' (Built 9) ''9.0.0'' None
         (registry_init :: (unit, nat) registry)))) = Inr 9"
  by (simp add: register_executor_def versions_of_def registry_init_def lookup_version_def given_def Let_def)

end
