(* ===== verification/Worker_Pool.thy ===== *)
theory Worker_Pool
  imports Task_Queue Executor_Registry
begin

text \<open>
  Workers and their pool: \<^verbatim>\<open>scheduling/worker/worker.py\<close>, \<open>pool.py\<close> and \<open>metrics.py\<close>.

  A worker thread is cut into the sections between two points at which another thread can be
  observed: the loop head, the blocking \<open>get\<close>, the section that marks the worker busy, the call of
  the executor, the section after its return, the handler of its exception and the \<open>finally\<close> block.
  The point a thread has reached is the field \<open>wk_pc\<close>; one section is one step. The executor's effect
  on the task objects is taken at the moment it returns or raises.

  \<open>queue.Queue\<close> is the list of waiting tasks and the count of unfinished ones, which \<open>put\<close> raises and
  \<open>task_done\<close> lowers, raising \<open>ValueError\<close> at zero.

  The failure callback of the pool belongs to its client: it is a parameter on the whole shared
  state, which the scheduler extends.
\<close>

section \<open>Data\<close>

datatype worker_status = W_IDLE | W_RUNNING | W_STOPPING | W_STOPPED | W_FAILED

datatype worker_pc =
    Exited
  | Polling
  | Getting
  | Fetched tref
  | Executing tref rat
  | Returned tref rat
  | Raised tref exc
  | Cleanup tref

record worker =
  wk_id :: string
  wk_state :: worker_status
  wk_current_task :: "tref option"
  wk_heartbeat_time :: rat
  wk_task_start_time :: "rat option"
  wk_tasks_processed :: nat
  wk_failures :: nat
  wk_start_time :: rat
  wk_stop_event :: bool
  wk_pc :: worker_pc

record worker_pool =
  wp_size :: int
  wp_workers :: "(string \<times> worker) list"
  wp_task_queue :: "tref list"
  wp_unfinished :: nat
  wp_started :: bool
  wp_tasks_completed :: nat
  wp_tasks_failed :: nat
  wp_total_execution_time :: rat
  wp_start_time :: "rat option"

record ('l, 'x) pool_sys =
  ps_world :: world
  ps_registry :: "('l, 'x) registry"
  ps_pool :: worker_pool

type_synonym ('l, 'x) exec_fun = "('l, 'x) any_executor \<Rightarrow> tref \<Rightarrow> tstore \<Rightarrow> (exc + unit) \<times> tstore"

abbreviation now_of :: "('l, 'x, 'z) pool_sys_scheme \<Rightarrow> rat" where
  "now_of s \<equiv> w_now (ps_world s)"

definition upd_worker ::
  "string \<Rightarrow> (worker \<Rightarrow> worker) \<Rightarrow> ('l, 'x, 'z) pool_sys_scheme \<Rightarrow> ('l, 'x, 'z) pool_sys_scheme" where
  "upd_worker wid f s =
     (case dget (wp_workers (ps_pool s)) wid of
        None \<Rightarrow> s
      | Some k \<Rightarrow> s\<lparr>ps_pool := (ps_pool s)\<lparr>wp_workers := dset wid (f k) (wp_workers (ps_pool s))\<rparr>\<rparr>)"

definition upd_world ::
  "(world \<Rightarrow> world) \<Rightarrow> ('l, 'x, 'z) pool_sys_scheme \<Rightarrow> ('l, 'x, 'z) pool_sys_scheme" where
  "upd_world f s = s\<lparr>ps_world := f (ps_world s)\<rparr>"

definition upd_pool ::
  "(worker_pool \<Rightarrow> worker_pool) \<Rightarrow> ('l, 'x, 'z) pool_sys_scheme \<Rightarrow> ('l, 'x, 'z) pool_sys_scheme" where
  "upd_pool f s = s\<lparr>ps_pool := f (ps_pool s)\<rparr>"

text \<open>
  A sequence of appends to the event store, of which the \<open>n\<close>-th may raise \<open>e\<close>: the events before it
  are logged, the rest of the section is left.
\<close>

fun emits :: "(nat \<times> exc) option \<Rightarrow> event_kind list \<Rightarrow> world \<Rightarrow> exc option \<times> world" where
  "emits fault [] w = (None, w)"
| "emits fault (k # ks) w =
     (if w_log w = None then (None, w)
      else case fault of
             None \<Rightarrow> emits None ks (emit k w)
           | Some (0, e) \<Rightarrow> (Some e, w)
           | Some (Suc n, e) \<Rightarrow> emits (Some (n, e)) ks (emit k w))"

section \<open>Workers\<close>

definition worker_init :: "string \<Rightarrow> rat \<Rightarrow> worker" where
  "worker_init wid now =
     \<lparr>wk_id = wid, wk_state = W_STOPPED, wk_current_task = None, wk_heartbeat_time = now,
      wk_task_start_time = None, wk_tasks_processed = 0, wk_failures = 0, wk_start_time = now,
      wk_stop_event = False, wk_pc = Exited\<rparr>"

definition worker_start :: "rat \<Rightarrow> worker \<Rightarrow> worker" where
  "worker_start now k =
     (if wk_pc k \<noteq> Exited then k
      else k\<lparr>wk_state := W_IDLE, wk_stop_event := False, wk_start_time := now,
             wk_heartbeat_time := now, wk_task_start_time := None, wk_pc := Polling\<rparr>)"

definition worker_stop :: "worker \<Rightarrow> worker" where
  "worker_stop k =
     (if wk_state k = W_STOPPED \<or> wk_state k = W_FAILED then k
      else k\<lparr>wk_state := W_STOPPING, wk_stop_event := True\<rparr>)"

text \<open>\<open>join\<close> returns when the thread has ended.\<close>

definition worker_joinable :: "worker \<Rightarrow> bool" where
  "worker_joinable k \<longleftrightarrow> wk_pc k = Exited"

text \<open>The loop head: leave the loop when told to stop, else block on the queue.\<close>

definition run_head :: "string \<Rightarrow> ('l, 'x, 'z) pool_sys_scheme \<Rightarrow> ('l, 'x, 'z) pool_sys_scheme" where
  "run_head wid s =
     upd_worker wid (\<lambda>k. if wk_stop_event k then k\<lparr>wk_state := W_STOPPED, wk_pc := Exited\<rparr>
                          else k\<lparr>wk_pc := Getting\<rparr>) s"

definition run_get :: "string \<Rightarrow> ('l, 'x, 'z) pool_sys_scheme \<Rightarrow> ('l, 'x, 'z) pool_sys_scheme" where
  "run_get wid s =
     (case wp_task_queue (ps_pool s) of
        [] \<Rightarrow>
          upd_worker wid (\<lambda>k. (if wk_stop_event k then k else k\<lparr>wk_heartbeat_time := now_of s\<rparr>)
                                \<lparr>wk_pc := Polling\<rparr>) s
      | r # rs \<Rightarrow>
          upd_worker wid (\<lambda>k. k\<lparr>wk_pc := Fetched r\<rparr>) (upd_pool (\<lambda>p. p\<lparr>wp_task_queue := rs\<rparr>) s))"

text \<open>An append that raises here leaves the loop: the thread ends in the state \<open>FAILED\<close>.\<close>

definition run_begin ::
  "(nat \<times> exc) option \<Rightarrow> string \<Rightarrow> tref \<Rightarrow> ('l, 'x, 'z) pool_sys_scheme \<Rightarrow> ('l, 'x, 'z) pool_sys_scheme"
  where
  "run_begin fault wid r s =
     (let now = now_of s;
          s1 = upd_worker wid (\<lambda>k. k\<lparr>wk_state := W_RUNNING, wk_current_task := Some r,
                 wk_heartbeat_time := now, wk_task_start_time := Some now\<rparr>) s
      in case emits fault [TaskStarted (t_id (w_task (ps_world s) r)),
                           WorkerHeartbeat wid (now_iso (ps_world s))] (ps_world s1) of
           (Some e, w') \<Rightarrow>
             upd_worker wid (\<lambda>k. k\<lparr>wk_state := W_FAILED, wk_pc := Exited\<rparr>) (s1\<lparr>ps_world := w'\<rparr>)
         | (None, w') \<Rightarrow>
             upd_worker wid (\<lambda>k. k\<lparr>wk_pc := Executing r now\<rparr>)
               (s1\<lparr>ps_world := upd_task r task_start w'\<rparr>))"

text \<open>The classes of the errors the registry raises, as the retry filter sees them.\<close>

fun exc_of :: "py_error \<Rightarrow> exc" where
  "exc_of (ValueError m) =
     \<lparr>exc_mro = [''ValueError'', ''Exception'', ''BaseException'', ''object''], exc_msg = m\<rparr>"
| "exc_of _ = \<lparr>exc_mro = [''Exception'', ''BaseException'', ''object''], exc_msg = []\<rparr>"

definition run_execute ::
  "('x \<Rightarrow> string list) \<Rightarrow> nat \<Rightarrow> ('l, 'x) exec_fun \<Rightarrow> string \<Rightarrow> tref \<Rightarrow> rat \<Rightarrow>
   ('l, 'x, 'z) pool_sys_scheme \<Rightarrow> ('l, 'x, 'z) pool_sys_scheme" where
  "run_execute caps fuel exec wid r start_time s =
     (case get_executor caps fuel (t_type (w_task (ps_world s) r)) (ps_registry s) of
        (Inl e, g) \<Rightarrow> upd_worker wid (\<lambda>k. k\<lparr>wk_pc := Raised r (exc_of e)\<rparr>) (s\<lparr>ps_registry := g\<rparr>)
      | (Inr x, g) \<Rightarrow>
          (case exec x r (w_task (ps_world s)) of
             (res, h) \<Rightarrow>
               upd_worker wid
                 (\<lambda>k. k\<lparr>wk_pc := (case res of Inl e \<Rightarrow> Raised r e | Inr u \<Rightarrow> Returned r start_time)\<rparr>)
                 (s\<lparr>ps_registry := g, ps_world := (ps_world s)\<lparr>w_task := h\<rparr>\<rparr>)))"

section \<open>The callbacks of the pool\<close>

definition on_task_completed :: "rat \<Rightarrow> worker_pool \<Rightarrow> worker_pool" where
  "on_task_completed duration p =
     p\<lparr>wp_tasks_completed := wp_tasks_completed p + 1,
       wp_total_execution_time := wp_total_execution_time p + duration\<rparr>"

text \<open>\<open>failed_cb\<close> is the client's callback; an exception it raises is only logged.\<close>

definition on_task_failed ::
  "(tref \<Rightarrow> exc \<Rightarrow> ('l, 'x, 'z) pool_sys_scheme \<Rightarrow> (py_error + unit) \<times> ('l, 'x, 'z) pool_sys_scheme) option \<Rightarrow>
   string \<Rightarrow> exc \<Rightarrow> ('l, 'x, 'z) pool_sys_scheme \<Rightarrow> ('l, 'x, 'z) pool_sys_scheme" where
  "on_task_failed failed_cb wid error s =
     (let task = (case dget (wp_workers (ps_pool s)) wid of
                    None \<Rightarrow> None | Some k \<Rightarrow> wk_current_task k);
          s1 = upd_pool (\<lambda>p. p\<lparr>wp_tasks_failed := wp_tasks_failed p + 1\<rparr>) s
      in case (task, failed_cb) of
           (Some r, Some cb) \<Rightarrow> snd (cb r error s1)
         | _ \<Rightarrow> s1)"

text \<open>
  The executor has returned. A task that a timeout has failed meanwhile keeps its status, and is
  logged and counted as completed all the same.
\<close>

definition run_return ::
  "(nat \<times> exc) option \<Rightarrow> string \<Rightarrow> tref \<Rightarrow> rat \<Rightarrow> ('l, 'x, 'z) pool_sys_scheme \<Rightarrow>
   ('l, 'x, 'z) pool_sys_scheme" where
  "run_return fault wid r start_time s =
     (let s1 = (if t_status (w_task (ps_world s) r) \<noteq> Task_FAILED
                then upd_world (upd_task r task_complete) s else s)
      in case emits fault [TaskCompleted (t_id (w_task (ps_world s) r))] (ps_world s1) of
           (Some e, w') \<Rightarrow> upd_worker wid (\<lambda>k. k\<lparr>wk_pc := Raised r e\<rparr>) (s1\<lparr>ps_world := w'\<rparr>)
         | (None, w') \<Rightarrow>
             upd_worker wid (\<lambda>k. k\<lparr>wk_tasks_processed := wk_tasks_processed k + 1, wk_pc := Cleanup r\<rparr>)
               (upd_pool (on_task_completed (now_of s - start_time)) (s1\<lparr>ps_world := w'\<rparr>)))"

definition run_raise ::
  "(tref \<Rightarrow> exc \<Rightarrow> ('l, 'x, 'z) pool_sys_scheme \<Rightarrow> (py_error + unit) \<times> ('l, 'x, 'z) pool_sys_scheme) option \<Rightarrow>
   string \<Rightarrow> tref \<Rightarrow> exc \<Rightarrow> ('l, 'x, 'z) pool_sys_scheme \<Rightarrow> ('l, 'x, 'z) pool_sys_scheme" where
  "run_raise failed_cb wid r error s =
     (let s1 = (if t_status (w_task (ps_world s) r) \<noteq> Task_FAILED
                then upd_world (upd_task r task_fail) s else s)
      in upd_worker wid (\<lambda>k. k\<lparr>wk_failures := wk_failures k + 1, wk_pc := Cleanup r\<rparr>)
           (on_task_failed failed_cb wid error s1))"

definition run_finally :: "string \<Rightarrow> ('l, 'x, 'z) pool_sys_scheme \<Rightarrow> ('l, 'x, 'z) pool_sys_scheme" where
  "run_finally wid s =
     (let s1 = upd_worker wid
                 (\<lambda>k. (if wk_stop_event k then k else k\<lparr>wk_state := W_IDLE\<rparr>)
                        \<lparr>wk_current_task := None, wk_task_start_time := None,
                         wk_heartbeat_time := now_of s\<rparr>) s
      in if wp_unfinished (ps_pool s) = 0
         then upd_worker wid (\<lambda>k. k\<lparr>wk_state := W_FAILED, wk_pc := Exited\<rparr>) s1
         else upd_worker wid (\<lambda>k. k\<lparr>wk_pc := Polling\<rparr>)
                (upd_pool (\<lambda>p. p\<lparr>wp_unfinished := wp_unfinished p - 1\<rparr>) s1))"

text \<open>One section of the thread of worker \<open>wid\<close>, chosen by the point it has reached.\<close>

definition worker_section ::
  "('x \<Rightarrow> string list) \<Rightarrow> nat \<Rightarrow> ('l, 'x) exec_fun \<Rightarrow>
   (tref \<Rightarrow> exc \<Rightarrow> ('l, 'x, 'z) pool_sys_scheme \<Rightarrow> (py_error + unit) \<times> ('l, 'x, 'z) pool_sys_scheme) option \<Rightarrow>
   (nat \<times> exc) option \<Rightarrow> string \<Rightarrow> ('l, 'x, 'z) pool_sys_scheme \<Rightarrow> ('l, 'x, 'z) pool_sys_scheme" where
  "worker_section caps fuel exec failed_cb fault wid s =
     (case dget (wp_workers (ps_pool s)) wid of
        None \<Rightarrow> s
      | Some k \<Rightarrow>
          (case wk_pc k of
             Exited \<Rightarrow> s
           | Polling \<Rightarrow> run_head wid s
           | Getting \<Rightarrow> run_get wid s
           | Fetched r \<Rightarrow> run_begin fault wid r s
           | Executing r t \<Rightarrow> run_execute caps fuel exec wid r t s
           | Returned r t \<Rightarrow> run_return fault wid r t s
           | Raised r e \<Rightarrow> run_raise failed_cb wid r e s
           | Cleanup r \<Rightarrow> run_finally wid s))"

section \<open>The pool\<close>

definition pool_init :: "int \<Rightarrow> py_error + worker_pool" where
  "pool_init sz =
     (if sz \<le> 0 then Inl (ValueError ''Worker pool size must be greater than zero.'')
      else Inr \<lparr>wp_size = sz, wp_workers = [], wp_task_queue = [], wp_unfinished = 0,
                wp_started = False, wp_tasks_completed = 0, wp_tasks_failed = 0,
                wp_total_execution_time = 0, wp_start_time = None\<rparr>)"

definition worker_name :: "nat \<Rightarrow> string" where
  "worker_name i = ''W-'' @ decimal_pad 3 (i + 1)"

fun emit_all :: "event_kind list \<Rightarrow> world \<Rightarrow> world" where
  "emit_all [] w = w"
| "emit_all (k # ks) w = emit_all ks (emit k w)"

fun launch :: "rat \<Rightarrow> nat list \<Rightarrow> (string \<times> worker) list \<Rightarrow> (string \<times> worker) list" where
  "launch now [] ws = ws"
| "launch now (i # js) ws =
     launch now js (dset (worker_name i) (worker_start now (worker_init (worker_name i) now)) ws)"

definition pool_start :: "('l, 'x, 'z) pool_sys_scheme \<Rightarrow> ('l, 'x, 'z) pool_sys_scheme" where
  "pool_start s =
     (if wp_started (ps_pool s) then s
      else let p = ps_pool s; now = now_of s; ws = launch now [0..<nat (wp_size p)] (wp_workers p)
           in s\<lparr>ps_pool := p\<lparr>wp_start_time := Some now, wp_started := True, wp_workers := ws\<rparr>,
                ps_world := emit_all (map WorkerStarted (dkeys ws)) (ps_world s)\<rparr>)"

text \<open>
  \<open>stop\<close> has two phases: the workers are told to stop, then their threads are joined one by one and
  the stop of each is logged. It returns without doing anything when the pool is not running.
\<close>

definition pool_stop_signal :: "('l, 'x, 'z) pool_sys_scheme \<Rightarrow> ('l, 'x, 'z) pool_sys_scheme" where
  "pool_stop_signal s =
     (if wp_started (ps_pool s)
      then upd_pool (\<lambda>p. p\<lparr>wp_started := False, wp_workers := dmap worker_stop (wp_workers p)\<rparr>) s
      else s)"

definition pool_stop_joined :: "('l, 'x, 'z) pool_sys_scheme \<Rightarrow> bool" where
  "pool_stop_joined s \<longleftrightarrow> list_all worker_joinable (dvalues (wp_workers (ps_pool s)))"

definition pool_stop_log :: "('l, 'x, 'z) pool_sys_scheme \<Rightarrow> ('l, 'x, 'z) pool_sys_scheme" where
  "pool_stop_log s =
     upd_world (emit_all (map (\<lambda>k. WorkerStopped (wk_id k)) (dvalues (wp_workers (ps_pool s))))) s"

definition pool_submit :: "tref \<Rightarrow> worker_pool \<Rightarrow> (py_error + unit) \<times> worker_pool" where
  "pool_submit r p =
     (if \<not> wp_started p then (Inl (RuntimeError ''Cannot submit task. Worker pool is not running.''), p)
      else (Inr (), p\<lparr>wp_task_queue := wp_task_queue p @ [r], wp_unfinished := wp_unfinished p + 1\<rparr>))"

definition workers_in :: "worker_status \<Rightarrow> worker_pool \<Rightarrow> worker list" where
  "workers_in st p = filter (\<lambda>k. wk_state k = st) (dvalues (wp_workers p))"

definition active_workers :: "worker_pool \<Rightarrow> worker list" where
  "active_workers p = workers_in W_RUNNING p"

definition idle_workers :: "worker_pool \<Rightarrow> worker list" where
  "idle_workers p = workers_in W_IDLE p"

record pool_metrics =
  workers_total :: nat
  workers_idle :: nat
  workers_running :: nat
  workers_stopping :: nat
  workers_stopped :: nat
  workers_failed :: nat
  tasks_completed :: nat
  tasks_failed :: nat
  average_execution_time :: rat
  uptime :: rat

definition pool_statistics :: "rat \<Rightarrow> worker_pool \<Rightarrow> pool_metrics" where
  "pool_statistics now p =
     \<lparr>workers_total = length (wp_workers p),
      workers_idle = length (workers_in W_IDLE p),
      workers_running = length (workers_in W_RUNNING p),
      workers_stopping = length (workers_in W_STOPPING p),
      workers_stopped = length (workers_in W_STOPPED p),
      workers_failed = length (workers_in W_FAILED p),
      tasks_completed = wp_tasks_completed p,
      tasks_failed = wp_tasks_failed p,
      average_execution_time =
        (if wp_tasks_completed p > 0
         then wp_total_execution_time p / rat_of_nat (wp_tasks_completed p) else 0),
      uptime = (case wp_start_time p of None \<Rightarrow> 0 | Some t \<Rightarrow> now - t)\<rparr>"

text \<open>One round of the supervisor: every crashed worker is replaced by a new one of the same name.\<close>

fun restart_failed ::
  "rat \<Rightarrow> (string \<times> worker) list \<Rightarrow> (string \<times> worker) list \<times> world \<Rightarrow> (string \<times> worker) list \<times> world" where
  "restart_failed now [] (ws, w) = (ws, w)"
| "restart_failed now ((wid, k) # kvs) (ws, w) =
     restart_failed now kvs
       (if wk_state k = W_FAILED
        then (dset wid (worker_start now (worker_init wid now)) ws,
              emit (WorkerRecovered wid) (emit (WorkerFailed wid ''Worker thread crashed'') w))
        else (ws, w))"

definition supervise :: "('l, 'x, 'z) pool_sys_scheme \<Rightarrow> ('l, 'x, 'z) pool_sys_scheme" where
  "supervise s =
     (if wp_started (ps_pool s)
      then case restart_failed (now_of s) (wp_workers (ps_pool s)) (wp_workers (ps_pool s), ps_world s) of
             (ws, w) \<Rightarrow> s\<lparr>ps_pool := (ps_pool s)\<lparr>wp_workers := ws\<rparr>, ps_world := w\<rparr>
      else s)"

section \<open>Frames\<close>

lemma upd_world_frame [simp]:
  "ps_pool (upd_world f s) = ps_pool s" "ps_registry (upd_world f s) = ps_registry s"
  "ps_world (upd_world f s) = f (ps_world s)" "pool_sys.more (upd_world f s) = pool_sys.more s"
  by (simp_all add: upd_world_def)

lemma upd_pool_frame [simp]:
  "ps_world (upd_pool f s) = ps_world s" "ps_registry (upd_pool f s) = ps_registry s"
  "ps_pool (upd_pool f s) = f (ps_pool s)" "pool_sys.more (upd_pool f s) = pool_sys.more s"
  by (simp_all add: upd_pool_def)

lemma upd_worker_frame [simp]:
  "ps_world (upd_worker wid f s) = ps_world s" "ps_registry (upd_worker wid f s) = ps_registry s"
  "pool_sys.more (upd_worker wid f s) = pool_sys.more s"
  "wp_task_queue (ps_pool (upd_worker wid f s)) = wp_task_queue (ps_pool s)"
  "wp_unfinished (ps_pool (upd_worker wid f s)) = wp_unfinished (ps_pool s)"
  "wp_started (ps_pool (upd_worker wid f s)) = wp_started (ps_pool s)"
  "wp_size (ps_pool (upd_worker wid f s)) = wp_size (ps_pool s)"
  "wp_tasks_completed (ps_pool (upd_worker wid f s)) = wp_tasks_completed (ps_pool s)"
  "wp_tasks_failed (ps_pool (upd_worker wid f s)) = wp_tasks_failed (ps_pool s)"
  by (simp_all add: upd_worker_def split: option.split)

lemma upd_worker_pool:
  "dget (wp_workers (ps_pool s)) wid = Some k \<Longrightarrow>
   ps_pool (upd_worker wid f s) = (ps_pool s)\<lparr>wp_workers := dset wid (f k) (wp_workers (ps_pool s))\<rparr>"
  by (simp add: upd_worker_def)

lemma upd_worker_twice [simp]: "upd_worker wid f (upd_worker wid g s) = upd_worker wid (\<lambda>k. f (g k)) s"
  by (simp add: upd_worker_def dget_update split: option.split)

lemma dget_upd_worker:
  "dget (wp_workers (ps_pool (upd_worker wid f s))) i =
     (if i = wid then map_option f (dget (wp_workers (ps_pool s)) wid) else dget (wp_workers (ps_pool s)) i)"
  by (simp add: upd_worker_def dget_update split: option.split)

lemma upd_worker_cong:
  "dget (wp_workers (ps_pool s)) wid = Some k \<Longrightarrow> f k = g k \<Longrightarrow> upd_worker wid f s = upd_worker wid g s"
  by (simp add: upd_worker_def)

lemma emits_frame [simp]:
  "w_task (snd (emits fault ks w)) = w_task w" "w_now (snd (emits fault ks w)) = w_now w"
  by (induction fault ks w rule: emits.induct) (auto split: option.split prod.split nat.split)

lemma emits_None [simp]: "emits None ks w = (None, emit_all ks w)"
proof (induction ks arbitrary: w)
  case (Cons k ks)
  have "w_log w = None \<Longrightarrow> emit_all ks w = w" for ks by (induction ks) (simp_all add: emit_def)
  with Cons show ?case by (auto simp: emit_def)
qed simp

lemma emit_all_frame [simp]: "w_task (emit_all ks w) = w_task w" "w_now (emit_all ks w) = w_now w"
  by (induction ks arbitrary: w) auto

lemma emits_task: "emits fault ks w = (res, w') \<Longrightarrow> w_task w' = w_task w"
  using emits_frame(1) [of fault ks w] by simp

section \<open>The invariant of the pool\<close>

fun in_hand :: "worker_pc \<Rightarrow> tref option" where
  "in_hand Exited = None"
| "in_hand Polling = None"
| "in_hand Getting = None"
| "in_hand (Fetched r) = Some r"
| "in_hand (Executing r t) = Some r"
| "in_hand (Returned r t) = Some r"
| "in_hand (Raised r e) = Some r"
| "in_hand (Cleanup r) = Some r"

text \<open>
  The published state of a worker follows the point its thread has reached, until it is told to
  stop: from then on it may also show the last state before the stop.
\<close>

definition worker_ok :: "worker \<Rightarrow> bool" where
  "worker_ok k \<longleftrightarrow>
     (case wk_pc k of
        Exited \<Rightarrow> wk_state k = W_STOPPED \<or> wk_state k = W_FAILED
      | Polling \<Rightarrow> wk_current_task k = None \<and> wk_task_start_time k = None
      | Getting \<Rightarrow> wk_current_task k = None \<and> wk_task_start_time k = None
      | Fetched r \<Rightarrow> wk_current_task k = None \<and> wk_task_start_time k = None
      | Executing r t \<Rightarrow> wk_current_task k = Some r
      | Returned r t \<Rightarrow> wk_current_task k = Some r
      | Raised r e \<Rightarrow> wk_current_task k = Some r
      | Cleanup r \<Rightarrow> wk_current_task k = Some r) \<and>
     (wk_pc k \<noteq> Exited \<longrightarrow>
       (if wk_stop_event k then wk_state k = W_STOPPING \<or> wk_state k = W_RUNNING
        else wk_state k = (if wk_current_task k = None then W_IDLE else W_RUNNING)))"

definition busy :: "worker \<Rightarrow> bool" where
  "busy k \<longleftrightarrow> in_hand (wk_pc k) \<noteq> None"

definition pool_ok :: "worker_pool \<Rightarrow> bool" where
  "pool_ok p \<longleftrightarrow> wf_dict (wp_workers p) \<and>
     (\<forall>(wid, k) \<in> set (wp_workers p). wk_id k = wid \<and> worker_ok k) \<and>
     (\<forall>(wid, k) \<in> set (wp_workers p). wp_started p \<or> wk_stop_event k \<or> wk_pc k = Exited) \<and>
     length (wp_task_queue p) + length (filter busy (dvalues (wp_workers p))) \<le> wp_unfinished p"

lemma pool_okD:
  assumes "pool_ok p" and "dget (wp_workers p) wid = Some k"
  shows "worker_ok k" and "wk_id k = wid" and "wp_started p \<or> wk_stop_event k \<or> wk_pc k = Exited"
  using assms by (auto simp: pool_ok_def dest!: map_of_SomeD)

text \<open>An idle worker shows that the pool is running.\<close>

lemma idle_started:
  assumes "pool_ok p" and "idle_workers p \<noteq> []"
  shows "wp_started p"
proof -
  obtain wid k where k: "(wid, k) \<in> set (wp_workers p)" "wk_state k = W_IDLE"
    using assms(2) by (auto simp: idle_workers_def workers_in_def filter_empty_conv)
  with assms(1) have "worker_ok k" "wp_started p \<or> wk_stop_event k \<or> wk_pc k = Exited"
    by (auto simp: pool_ok_def)
  with k(2) show ?thesis by (cases "wk_pc k") (auto simp: worker_ok_def)
qed

lemma filter_dset:
  "dget d i = Some v \<Longrightarrow> wf_dict d \<Longrightarrow>
   length (filter P (dvalues (dset i v' d))) + of_bool (P v) =
   length (filter P (dvalues d)) + of_bool (P v')"
proof (induction d)
  case (Cons a d)
  show ?case
  proof (cases "fst a = i")
    case True
    with Cons.prems show ?thesis by (cases a) auto
  next
    case False
    with Cons show ?thesis by (cases a) (auto simp: wf_dict_def)
  qed
qed simp

lemma dset_Ball:
  "\<forall>(i, v) \<in> set d. P i v \<Longrightarrow> P j u \<Longrightarrow> \<forall>(i, v) \<in> set (dset j u d). P i v"
  by (induction d) auto

text \<open>A change of one worker keeps the invariant when the worker stays consistent and the count
  of unfinished tasks still covers the queue and the tasks in hand.\<close>

lemma pool_ok_dset:
  assumes "pool_ok p" and "dget (wp_workers p) wid = Some k"
    and "worker_ok k'" and "wk_id k' = wk_id k"
    and "wp_workers p' = dset wid k' (wp_workers p)"
    and "wp_started p' = wp_started p" and "wp_started p \<or> wk_stop_event k' \<or> wk_pc k' = Exited"
    and "length (wp_task_queue p') + of_bool (busy k') + wp_unfinished p \<le>
         length (wp_task_queue p) + of_bool (busy k) + wp_unfinished p'"
  shows "pool_ok p'"
proof -
  have id: "wk_id k' = wid" using assms(4) pool_okD(2) [OF assms(1,2)] by simp
  have wf: "wf_dict (wp_workers p)" using assms(1) by (simp add: pool_ok_def)
  have "\<forall>(i, v) \<in> set (dset wid k' (wp_workers p)). wk_id v = i \<and> worker_ok v"
    using assms(1,3) id by (intro dset_Ball) (auto simp: pool_ok_def)
  moreover have "\<forall>(i, v) \<in> set (dset wid k' (wp_workers p)). wp_started p \<or> wk_stop_event v \<or> wk_pc v = Exited"
    using assms(1,7) by (intro dset_Ball) (auto simp: pool_ok_def)
  ultimately show ?thesis using assms(1,5,6,8) filter_dset [OF assms(2) wf, of busy k'] wf
    by (auto simp: pool_ok_def)
qed

lemma pool_ok_upd_worker:
  assumes "pool_ok (ps_pool s)" and "dget (wp_workers (ps_pool s)) wid = Some k"
    and "worker_ok (f k)" and "wk_id (f k) = wk_id k" and "busy (f k) \<longrightarrow> busy k"
    and "wp_started (ps_pool s) \<or> wk_stop_event (f k) \<or> wk_pc (f k) = Exited"
  shows "pool_ok (ps_pool (upd_worker wid f s))"
  using assms by (intro pool_ok_dset [OF assms(1-4)]) (auto simp: upd_worker_pool)

lemma pool_ok_eq:
  assumes "p' = p0\<lparr>wp_workers := dset wid k' (wp_workers p)\<rparr>" and "pool_ok p"
    and "dget (wp_workers p) wid = Some k" and "worker_ok k'" and "wk_id k' = wk_id k" and "busy k' \<longrightarrow> busy k"
    and "wp_task_queue p0 = wp_task_queue p" and "wp_unfinished p0 = wp_unfinished p"
    and "wp_started p0 = wp_started p" and "wp_started p \<or> wk_stop_event k' \<or> wk_pc k' = Exited"
  shows "pool_ok p'"
  using assms by (intro pool_ok_dset [OF assms(2,3,4,5)]) auto

lemmas worker_simps = worker_ok_def busy_def

lemma run_head_ok:
  assumes "pool_ok (ps_pool s)" and "dget (wp_workers (ps_pool s)) wid = Some k" and "wk_pc k = Polling"
  shows "pool_ok (ps_pool (run_head wid s))"
  using assms(3) pool_okD(1,3) [OF assms(1,2)] unfolding run_head_def
  by (intro pool_ok_upd_worker [OF assms(1,2)]) (auto simp: worker_simps)

lemma run_get_ok:
  assumes "pool_ok (ps_pool s)" and "dget (wp_workers (ps_pool s)) wid = Some k" and "wk_pc k = Getting"
  shows "pool_ok (ps_pool (run_get wid s))"
proof (cases "wp_task_queue (ps_pool s)")
  case Nil
  with assms pool_okD [OF assms(1,2)] show ?thesis
    by (auto simp: run_get_def worker_simps intro!: pool_ok_upd_worker)
next
  case (Cons r rs)
  with assms pool_okD(1,3) [OF assms(1,2)] show ?thesis
    by (intro pool_ok_dset [OF assms(1,2), where k' = "k\<lparr>wk_pc := Fetched r\<rparr>"])
      (auto simp: run_get_def upd_worker_pool worker_simps)
qed

lemma run_begin_ok:
  assumes "pool_ok (ps_pool s)" and "dget (wp_workers (ps_pool s)) wid = Some k" and "wk_pc k = Fetched r"
  shows "pool_ok (ps_pool (run_begin fault wid r s))"
proof -
  let ?k = "k\<lparr>wk_state := W_RUNNING, wk_current_task := Some r, wk_heartbeat_time := now_of s,
      wk_task_start_time := Some (now_of s)\<rparr>"
  have "ps_pool (run_begin fault wid r s) =
      (ps_pool s)\<lparr>wp_workers := dset wid (?k\<lparr>wk_state := W_FAILED, wk_pc := Exited\<rparr>) (wp_workers (ps_pool s))\<rparr> \<or>
      ps_pool (run_begin fault wid r s) =
      (ps_pool s)\<lparr>wp_workers := dset wid (?k\<lparr>wk_pc := Executing r (now_of s)\<rparr>) (wp_workers (ps_pool s))\<rparr>"
    using assms(2) unfolding run_begin_def Let_def
    by (auto simp: upd_worker_def dget_update split: prod.split option.split simp del: emits.simps)
  then show ?thesis
    by (elim disjE)
      (erule pool_ok_eq [OF _ assms(1,2)];
        use assms(3) pool_okD(1,3) [OF assms(1,2)] in \<open>auto simp: worker_simps\<close>)+
qed

lemma run_execute_ok:
  assumes "pool_ok (ps_pool s)" and "dget (wp_workers (ps_pool s)) wid = Some k" and "wk_pc k = Executing r t"
  shows "pool_ok (ps_pool (run_execute caps fuel exec wid r t s))"
proof -
  have "\<exists>pc. (pc = Returned r t \<or> (\<exists>e. pc = Raised r e)) \<and> ps_pool (run_execute caps fuel exec wid r t s) =
      (ps_pool s)\<lparr>wp_workers := dset wid (k\<lparr>wk_pc := pc\<rparr>) (wp_workers (ps_pool s))\<rparr>"
    using assms(2) unfolding run_execute_def
    by (auto simp: upd_worker_def split: prod.split sum.split)
  then show ?thesis
    by (elim exE conjE disjE)
      (erule pool_ok_eq [OF _ assms(1,2)];
        use assms(3) pool_okD(1,3) [OF assms(1,2)] in \<open>auto simp: worker_simps\<close>)+
qed

lemma run_return_ok:
  assumes "pool_ok (ps_pool s)" and "dget (wp_workers (ps_pool s)) wid = Some k" and "wk_pc k = Returned r t"
  shows "pool_ok (ps_pool (run_return fault wid r t s))"
proof -
  let ?k = "k\<lparr>wk_tasks_processed := wk_tasks_processed k + 1, wk_pc := Cleanup r\<rparr>"
  have "(\<exists>e. ps_pool (run_return fault wid r t s) =
      (ps_pool s)\<lparr>wp_workers := dset wid (k\<lparr>wk_pc := Raised r e\<rparr>) (wp_workers (ps_pool s))\<rparr>) \<or>
      ps_pool (run_return fault wid r t s) =
      (on_task_completed (now_of s - t) (ps_pool s))\<lparr>wp_workers := dset wid ?k (wp_workers (ps_pool s))\<rparr>"
    using assms(2) unfolding run_return_def Let_def
    by (auto simp: upd_worker_def on_task_completed_def split: prod.split option.split simp del: emits.simps)
  then show ?thesis
    by (elim disjE exE)
      (erule pool_ok_eq [OF _ assms(1,2)];
        use assms(3) pool_okD(1,3) [OF assms(1,2)] in \<open>auto simp: worker_simps on_task_completed_def\<close>)+
qed

text \<open>The last section never finds the count of unfinished tasks at zero.\<close>

lemma busy_unfinished:
  assumes "pool_ok p" and "dget (wp_workers p) wid = Some k" and "busy k"
  shows "0 < wp_unfinished p"
proof -
  have "k \<in> set (filter busy (dvalues (wp_workers p)))"
    using assms(2,3) by (force dest: map_of_SomeD)
  then have "0 < length (filter busy (dvalues (wp_workers p)))" by (rule length_pos_if_in_set)
  with assms(1) show ?thesis unfolding pool_ok_def by linarith
qed

lemma run_finally_pool:
  assumes "pool_ok (ps_pool s)" and "dget (wp_workers (ps_pool s)) wid = Some k" and "wk_pc k = Cleanup r"
  shows "run_finally wid s =
    upd_worker wid (\<lambda>k. (if wk_stop_event k then k else k\<lparr>wk_state := W_IDLE\<rparr>)
        \<lparr>wk_current_task := None, wk_task_start_time := None, wk_heartbeat_time := now_of s, wk_pc := Polling\<rparr>)
      (upd_pool (\<lambda>p. p\<lparr>wp_unfinished := wp_unfinished p - 1\<rparr>) s)"
proof -
  have "busy k" using assms(3) by (simp add: busy_def)
  with busy_unfinished [OF assms(1,2)] assms(2) show ?thesis
    by (simp add: run_finally_def upd_worker_def upd_pool_def dget_update)
qed

lemma run_finally_ok:
  assumes "pool_ok (ps_pool s)" and "dget (wp_workers (ps_pool s)) wid = Some k" and "wk_pc k = Cleanup r"
  shows "pool_ok (ps_pool (run_finally wid s))"
proof -
  have "busy k" using assms(3) by (simp add: busy_def)
  with busy_unfinished [OF assms(1,2)] pool_okD(1,3) [OF assms(1,2)] assms(2,3) show ?thesis
    unfolding run_finally_pool [OF assms]
    by (intro pool_ok_dset [OF assms(1,2)]) (auto simp: upd_worker_pool worker_simps)
qed

text \<open>A thread neither adds nor removes workers and does not start or stop the pool.\<close>

definition pool_shape :: "worker_pool \<Rightarrow> string list \<times> int \<times> bool" where
  "pool_shape p = (dkeys (wp_workers p), wp_size p, wp_started p)"

lemma dkeys_upd_worker [simp]:
  "dkeys (wp_workers (ps_pool (upd_worker wid f s))) = dkeys (wp_workers (ps_pool s))"
  by (auto simp: upd_worker_def dkeys_update_present dest: dget_Some_key split: option.split)

lemma pool_shape_upd_worker [simp]: "pool_shape (ps_pool (upd_worker wid f s)) = pool_shape (ps_pool s)"
  by (simp add: pool_shape_def)

lemma pool_shape_sections:
  "pool_shape (ps_pool (run_head wid s)) = pool_shape (ps_pool s)"
  "pool_shape (ps_pool (run_get wid s)) = pool_shape (ps_pool s)"
  "pool_shape (ps_pool (run_begin fault wid r s)) = pool_shape (ps_pool s)"
  "pool_shape (ps_pool (run_execute caps fuel exec wid r t s)) = pool_shape (ps_pool s)"
  "pool_shape (ps_pool (run_return fault wid r t s)) = pool_shape (ps_pool s)"
  "pool_shape (ps_pool (run_finally wid s)) = pool_shape (ps_pool s)"
  by (simp_all add: run_head_def run_get_def run_begin_def run_execute_def run_return_def run_finally_def
      Let_def del: emits.simps split: list.split prod.split option.split sum.split)
    (simp_all add: pool_shape_def on_task_completed_def)

section \<open>What the pool relies on in its client\<close>

text \<open>
  The failure callback runs in the worker's thread, in the middle of its handler. The pool's own
  bookkeeping survives it when it leaves the pool alone.
\<close>

locale pool_client =
  fixes failed_cb :: "tref \<Rightarrow> exc \<Rightarrow> ('l, 'x, 'z) pool_sys_scheme \<Rightarrow>
    (py_error + unit) \<times> ('l, 'x, 'z) pool_sys_scheme"
  assumes cb_pool: "ps_pool (snd (failed_cb r e s)) = ps_pool s"
begin

lemma on_task_failed_pool:
  "ps_pool (on_task_failed (Some failed_cb) wid e s) =
   (ps_pool s)\<lparr>wp_tasks_failed := wp_tasks_failed (ps_pool s) + 1\<rparr>"
  by (simp add: on_task_failed_def Let_def cb_pool split: option.split)

lemma run_raise_pool:
  assumes "dget (wp_workers (ps_pool s)) wid = Some k"
  shows "ps_pool (run_raise (Some failed_cb) wid r e s) =
    (ps_pool s)\<lparr>wp_tasks_failed := wp_tasks_failed (ps_pool s) + 1,
      wp_workers := dset wid (k\<lparr>wk_failures := wk_failures k + 1, wk_pc := Cleanup r\<rparr>) (wp_workers (ps_pool s))\<rparr>"
  using assms by (simp add: run_raise_def Let_def upd_worker_def on_task_failed_pool)

lemma run_raise_ok:
  assumes "pool_ok (ps_pool s)" and "dget (wp_workers (ps_pool s)) wid = Some k" and "wk_pc k = Raised r e"
  shows "pool_ok (ps_pool (run_raise (Some failed_cb) wid r e s))"
  using assms(3) pool_okD(1,3) [OF assms(1,2)] unfolding run_raise_pool [OF assms(2)]
  by (intro pool_ok_dset [OF assms(1,2)]) (auto simp: worker_simps)

lemma worker_section_shape:
  "pool_shape (ps_pool (worker_section caps fuel exec (Some failed_cb) fault wid s)) = pool_shape (ps_pool s)"
proof -
  have "pool_shape (ps_pool (run_raise (Some failed_cb) wid r e s)) = pool_shape (ps_pool s)" for r e
    by (simp add: run_raise_def Let_def on_task_failed_pool) (simp add: pool_shape_def)
  then show ?thesis
    by (auto simp: worker_section_def pool_shape_sections split: option.split worker_pc.split)
qed

lemma worker_section_ok:
  assumes "pool_ok (ps_pool s)"
  shows "pool_ok (ps_pool (worker_section caps fuel exec (Some failed_cb) fault wid s))"
  using assms run_head_ok run_get_ok run_begin_ok run_execute_ok run_return_ok run_raise_ok run_finally_ok
  by (auto simp: worker_section_def split: option.split worker_pc.split)

end

section \<open>Start, stop and supervision\<close>

lemma worker_name_inject [simp]: "worker_name i = worker_name j \<longleftrightarrow> i = j"
  by (simp add: worker_name_def)

definition fresh_worker :: "rat \<Rightarrow> string \<Rightarrow> worker" where
  "fresh_worker now wid = worker_start now (worker_init wid now)"

lemma fresh_worker_ok [simp]:
  "worker_ok (fresh_worker now wid)" "\<not> busy (fresh_worker now wid)" "wk_id (fresh_worker now wid) = wid"
  "wk_state (fresh_worker now wid) = W_IDLE" "wk_pc (fresh_worker now wid) = Polling"
  by (simp_all add: fresh_worker_def worker_start_def worker_init_def worker_simps)

lemma launch_fresh:
  "set (map worker_name js) \<inter> set (dkeys ws) = {} \<Longrightarrow> distinct js \<Longrightarrow>
   launch now js ws = ws @ map (\<lambda>i. (worker_name i, fresh_worker now (worker_name i))) js"
proof (induction js arbitrary: ws)
  case (Cons a js)
  let ?w = "(worker_name a, fresh_worker now (worker_name a))"
  have "set (map worker_name js) \<inter> set (dkeys (ws @ [?w])) = {}" using Cons.prems by auto
  with Cons have "launch now js (ws @ [?w]) =
      (ws @ [?w]) @ map (\<lambda>i. (worker_name i, fresh_worker now (worker_name i))) js" by simp
  with Cons.prems show ?case by (simp add: update_fresh_append fresh_worker_def)
qed simp

lemma launch_again:
  "dkeys ws = map worker_name js \<Longrightarrow> distinct js \<Longrightarrow>
   launch now js ws = map (\<lambda>i. (worker_name i, fresh_worker now (worker_name i))) js"
proof -
  have upd: "j \<notin> set ls \<Longrightarrow>
      dset (worker_name j) v (map (\<lambda>i. (worker_name i, f i)) ls @ (worker_name j, u) # ws) =
      map (\<lambda>i. (worker_name i, f i)) ls @ (worker_name j, v) # ws" for j v f ls u and ws :: "(string \<times> worker) list"
    by (induction ls) auto
  have gen: "launch now js (map (\<lambda>i. (worker_name i, fresh_worker now (worker_name i))) ls @ ws) =
      map (\<lambda>i. (worker_name i, fresh_worker now (worker_name i))) (ls @ js)"
    if "dkeys ws = map worker_name js" "distinct (ls @ js)" for ls js ws
    using that
  proof (induction js arbitrary: ls ws)
    case (Cons j js)
    then obtain u ws' where ws: "ws = (worker_name j, u) # ws'" "dkeys ws' = map worker_name js" by auto
    have "launch now js (map (\<lambda>i. (worker_name i, fresh_worker now (worker_name i))) (ls @ [j]) @ ws') =
      map (\<lambda>i. (worker_name i, fresh_worker now (worker_name i))) ((ls @ [j]) @ js)"
      using Cons.prems ws by (intro Cons.IH) auto
    with Cons.prems ws upd show ?case by (simp add: fresh_worker_def)
  qed simp
  assume "dkeys ws = map worker_name js" "distinct js"
  then show ?thesis using gen [of ws js "[]"] by simp
qed

text \<open>The workers of a pool that has been started are numbered from one to its size.\<close>

definition pool_named :: "worker_pool \<Rightarrow> bool" where
  "pool_named p \<longleftrightarrow> wp_workers p = [] \<or> dkeys (wp_workers p) = map worker_name [0..<nat (wp_size p)]"

definition fresh_pool :: "rat \<Rightarrow> int \<Rightarrow> (string \<times> worker) list" where
  "fresh_pool now n = map (\<lambda>i. (worker_name i, fresh_worker now (worker_name i))) [0..<nat n]"

lemma pool_start_workers:
  assumes "pool_named (ps_pool s)" and "\<not> wp_started (ps_pool s)"
  shows "wp_workers (ps_pool (pool_start s)) = fresh_pool (now_of s) (wp_size (ps_pool s))"
proof -
  have "launch (now_of s) [0..<nat (wp_size (ps_pool s))] (wp_workers (ps_pool s)) =
      fresh_pool (now_of s) (wp_size (ps_pool s))"
  proof (cases "wp_workers (ps_pool s) = []")
    case True
    then show ?thesis by (simp add: launch_fresh fresh_pool_def)
  next
    case False
    with assms(1) show ?thesis unfolding fresh_pool_def pool_named_def by (intro launch_again) auto
  qed
  with assms(2) show ?thesis by (simp add: pool_start_def Let_def)
qed

lemma fresh_pool_ok:
  "wf_dict (fresh_pool now n)" "\<forall>(wid, k) \<in> set (fresh_pool now n). wk_id k = wid \<and> worker_ok k"
  "filter busy (dvalues (fresh_pool now n)) = []" "dkeys (fresh_pool now n) = map worker_name [0..<nat n]"
  by (auto simp: fresh_pool_def wf_dict_def distinct_map inj_on_def comp_def filter_empty_conv)

text \<open>Restarting when the threads of the last run have ended keeps the tasks that wait in the pool.\<close>

lemma pool_start_ok:
  assumes "pool_ok (ps_pool s)" and "pool_named (ps_pool s)"
  shows "pool_ok (ps_pool (pool_start s))" and "pool_named (ps_pool (pool_start s))"
proof -
  have "pool_ok (ps_pool (pool_start s)) \<and> pool_named (ps_pool (pool_start s))"
  proof (cases "wp_started (ps_pool s)")
    case False
    have q: "wp_task_queue (ps_pool (pool_start s)) = wp_task_queue (ps_pool s)"
      "wp_unfinished (ps_pool (pool_start s)) = wp_unfinished (ps_pool s)"
      "wp_size (ps_pool (pool_start s)) = wp_size (ps_pool s)" "wp_started (ps_pool (pool_start s))"
      using False by (simp_all add: pool_start_def Let_def)
    have "length (wp_task_queue (ps_pool s)) \<le> wp_unfinished (ps_pool s)"
      using assms(1) by (simp add: pool_ok_def)
    with False q assms(2) fresh_pool_ok show ?thesis
      by (simp add: pool_ok_def pool_named_def pool_start_workers)
  qed (use assms in \<open>simp add: pool_start_def\<close>)
  then show "pool_ok (ps_pool (pool_start s))" and "pool_named (ps_pool (pool_start s))" by blast+
qed

lemma worker_stop_ok:
  "worker_ok k \<Longrightarrow> worker_ok (worker_stop k)" "busy (worker_stop k) = busy k"
  "wk_id (worker_stop k) = wk_id k" "wk_pc (worker_stop k) = wk_pc k"
  by (auto simp: worker_stop_def worker_simps split: worker_pc.splits)

lemma worker_stop_quiet: "worker_ok k \<Longrightarrow> wk_stop_event (worker_stop k) \<or> wk_pc (worker_stop k) = Exited"
  by (auto simp: worker_stop_def worker_ok_def split: worker_pc.splits if_splits)

lemma filter_dmap: "(\<And>k. P (f k) = P k) \<Longrightarrow> length (filter P (dvalues (dmap f d))) = length (filter P (dvalues d))"
  by (induction d) (auto simp: dmap_def)

lemma pool_stop_signal_ok:
  assumes "pool_ok (ps_pool s)"
  shows "pool_ok (ps_pool (pool_stop_signal s))"
proof -
  have "wf_dict (dmap worker_stop (wp_workers (ps_pool s)))"
    using assms by (simp add: pool_ok_def wf_dict_def)
  moreover have "\<forall>(wid, k) \<in> set (dmap worker_stop (wp_workers (ps_pool s))). wk_id k = wid \<and> worker_ok k"
    using assms by (auto simp: pool_ok_def dmap_def worker_stop_ok)
  moreover have "\<forall>(wid, k) \<in> set (dmap worker_stop (wp_workers (ps_pool s))). wk_stop_event k \<or> wk_pc k = Exited"
    using assms worker_stop_quiet by (fastforce simp: pool_ok_def dmap_def)
  moreover have "length (filter busy (dvalues (dmap worker_stop (wp_workers (ps_pool s))))) =
      length (filter busy (dvalues (wp_workers (ps_pool s))))"
    by (rule filter_dmap) (rule worker_stop_ok)
  moreover have "length (wp_task_queue (ps_pool s)) + length (filter busy (dvalues (wp_workers (ps_pool s))))
      \<le> wp_unfinished (ps_pool s)"
    using assms unfolding pool_ok_def by blast
  ultimately have "pool_ok ((ps_pool s)\<lparr>wp_started := False, wp_workers := dmap worker_stop (wp_workers (ps_pool s))\<rparr>)"
    by (simp add: pool_ok_def del: filter_map)
  with assms show ?thesis by (simp add: pool_stop_signal_def)
qed

lemma pool_submit_ok: "pool_ok p \<Longrightarrow> pool_ok (snd (pool_submit r p))"
  by (auto simp: pool_submit_def pool_ok_def)

text \<open>A crashed worker has nothing in hand, so replacing it keeps the invariant.\<close>

lemma restart_failed_ok:
  assumes "pool_ok (p\<lparr>wp_workers := ws\<rparr>)" and "wf_dict kvs" and "\<forall>(i, k) \<in> set kvs. dget ws i = Some k"
    and "wp_started p" and "restart_failed now kvs (ws, w) = (ws', w')"
  shows "pool_ok (p\<lparr>wp_workers := ws'\<rparr>) \<and> dkeys ws' = dkeys ws"
  using assms
proof (induction kvs arbitrary: ws w)
  case (Cons x kvs)
  obtain i k where x: "x = (i, k)" by fastforce
  with Cons.prems have look: "dget ws i = Some k" and wf: "wf_dict kvs" and new: "i \<notin> set (dkeys kvs)"
    by (auto simp: wf_dict_def)
  show ?case
  proof (cases "wk_state k = W_FAILED")
    case True
    let ?k = "fresh_worker now i" let ?ws = "dset i ?k ws"
    let ?w = "emit (WorkerRecovered i) (emit (WorkerFailed i ''Worker thread crashed'') w)"
    have "pool_ok (p\<lparr>wp_workers := ?ws\<rparr>)"
      by (rule pool_ok_dset [OF Cons.prems(1), where k = k and wid = i and k' = ?k])
        (use look Cons.prems(4) pool_okD(2) [OF Cons.prems(1)] in auto)
    moreover have "\<forall>(j, v) \<in> set kvs. dget ?ws j = Some v"
      using Cons.prems(3) new x by (force simp: dget_update)
    moreover have "restart_failed now kvs (?ws, ?w) = (ws', w')"
      using Cons.prems(5) True x by (simp add: fresh_worker_def)
    ultimately have "pool_ok (p\<lparr>wp_workers := ws'\<rparr>) \<and> dkeys ws' = dkeys ?ws"
      using Cons.IH wf Cons.prems(4) by blast
    moreover have "dkeys ?ws = dkeys ws" using look by (intro dkeys_update_present) (rule dget_Some_key)
    ultimately show ?thesis by simp
  next
    case False
    with Cons x wf show ?thesis by auto
  qed
qed simp

lemma supervise_ok:
  assumes "pool_ok (ps_pool s)"
  shows "pool_ok (ps_pool (supervise s)) \<and> dkeys (wp_workers (ps_pool (supervise s))) = dkeys (wp_workers (ps_pool s))"
proof (cases "wp_started (ps_pool s)")
  case True
  obtain ws w where r: "restart_failed (now_of s) (wp_workers (ps_pool s)) (wp_workers (ps_pool s), ps_world s) = (ws, w)"
    by fastforce
  have "wf_dict (wp_workers (ps_pool s))" using assms by (simp add: pool_ok_def)
  moreover from this have "\<forall>(i, k) \<in> set (wp_workers (ps_pool s)). dget (wp_workers (ps_pool s)) i = Some k"
    by (auto simp: wf_dict_def)
  moreover have "pool_ok ((ps_pool s)\<lparr>wp_workers := wp_workers (ps_pool s)\<rparr>)" using assms by simp
  ultimately have "pool_ok ((ps_pool s)\<lparr>wp_workers := ws\<rparr>) \<and> dkeys ws = dkeys (wp_workers (ps_pool s))"
    using restart_failed_ok True r by blast
  with True r show ?thesis by (simp add: supervise_def)
qed (use assms in \<open>simp add: supervise_def\<close>)

section \<open>A worker that is told to stop ends\<close>

text \<open>How many sections a stopping thread has before it at most.\<close>

fun sections_left :: "worker_pc \<Rightarrow> nat" where
  "sections_left Exited = 0"
| "sections_left Polling = 1"
| "sections_left (Cleanup r) = 2"
| "sections_left (Raised r e) = 3"
| "sections_left (Returned r t) = 4"
| "sections_left (Executing r t) = 5"
| "sections_left (Fetched r) = 6"
| "sections_left Getting = 7"

definition stopping :: "string \<Rightarrow> nat \<Rightarrow> ('l, 'x, 'z) pool_sys_scheme \<Rightarrow> bool" where
  "stopping wid n s \<longleftrightarrow> (\<exists>k. dget (wp_workers (ps_pool s)) wid = Some k \<and>
     (wk_stop_event k \<or> wk_pc k = Exited) \<and> sections_left (wk_pc k) \<le> n)"

lemma stopping_upd_worker:
  assumes "dget (wp_workers (ps_pool s)) wid = Some k"
    and "wk_stop_event (f k) \<or> wk_pc (f k) = Exited" and "sections_left (wk_pc (f k)) \<le> n"
  shows "stopping wid n (upd_worker wid f s)"
  using assms by (simp add: stopping_def dget_upd_worker)

lemma sections_left_0: "sections_left pc = 0 \<longleftrightarrow> pc = Exited"
  by (cases pc) auto

context pool_client
begin

lemma section_progress:
  assumes "pool_ok (ps_pool s)" and "stopping wid n s"
  shows "stopping wid (n - 1) (worker_section caps fuel exec (Some failed_cb) fault wid s)"
proof -
  from assms(2) obtain k where k: "dget (wp_workers (ps_pool s)) wid = Some k"
    and stop: "wk_stop_event k \<or> wk_pc k = Exited" and n: "sections_left (wk_pc k) \<le> n"
    by (auto simp: stopping_def)
  show ?thesis
  proof (cases "wk_pc k")
    case Exited
    with k show ?thesis by (simp add: worker_section_def stopping_def)
  next
    case Polling
    with k stop show ?thesis
      by (auto simp: worker_section_def run_head_def intro: stopping_upd_worker)
  next
    case Getting
    with k stop n show ?thesis
      by (cases "wp_task_queue (ps_pool s)")
        (auto simp: worker_section_def run_get_def intro!: stopping_upd_worker)
  next
    case (Fetched r)
    obtain res w where "emits fault [TaskStarted (t_id (w_task (ps_world s) r)),
        WorkerHeartbeat wid (now_iso (ps_world s))] (ps_world s) = (res, w)" by fastforce
    with k stop n Fetched show ?thesis
      by (cases res) (auto simp: worker_section_def run_begin_def Let_def stopping_def upd_worker_def dget_update
          simp del: emits.simps)
  next
    case (Executing r t)
    with k stop n show ?thesis
      by (auto simp: worker_section_def run_execute_def stopping_def upd_worker_def dget_update
          split: prod.split sum.split)
  next
    case (Returned r t)
    let ?s1 = "if t_status (w_task (ps_world s) r) \<noteq> Task_FAILED
        then upd_world (upd_task r task_complete) s else s"
    obtain res w where "emits fault [TaskCompleted (t_id (w_task (ps_world s) r))] (ps_world ?s1) = (res, w)"
      by fastforce
    with k stop n Returned show ?thesis
      by (cases res) (auto simp: worker_section_def run_return_def Let_def stopping_def upd_worker_def dget_update
          on_task_completed_def simp del: emits.simps split: option.split)
  next
    case (Raised r e)
    with k stop n run_raise_pool [OF k, of r e] show ?thesis
      by (simp add: worker_section_def stopping_def dget_update)
  next
    case (Cleanup r)
    with k stop n run_finally_pool [OF assms(1) k, of r] show ?thesis
      by (auto simp: worker_section_def intro!: stopping_upd_worker)
  qed
qed

lemma sections_end:
  "pool_ok (ps_pool s) \<Longrightarrow> stopping wid (length faults) s \<Longrightarrow>
   stopping wid 0 (fold (\<lambda>f. worker_section caps fuel exec (Some failed_cb) f wid) faults s)"
proof (induction faults arbitrary: s)
  case (Cons f fs)
  from section_progress [OF Cons.prems, of caps fuel exec f] worker_section_ok [OF Cons.prems(1)] Cons.IH
  show ?case by simp
qed simp

end

end
