(* ===== verification/Timeout_Manager.thy ===== *)
theory Timeout_Manager
  imports Worker_Pool
begin

text \<open>
  The timeout monitor: \<^verbatim>\<open>scheduling/timeout/manager.py\<close>. One round of its loop takes a snapshot of
  the running workers and the time, then looks at them one by one; a worker whose task has run longer
  than its policy allows is handled in a second step, after other threads may have moved on. The
  reaction to a timeout is the client's callback; an exception it raises is only logged.
\<close>

datatype monitor_pc =
    M_sleeping
  | M_scanning rat "string list"
  | M_expired rat string tref "string list"

record timeout_manager =
  tmo_started :: bool
  tmo_pc :: monitor_pc

definition timeout_init :: timeout_manager where
  "timeout_init = \<lparr>tmo_started = False, tmo_pc = M_sleeping\<rparr>"

definition timeout_start :: "timeout_manager \<Rightarrow> timeout_manager" where
  "timeout_start m = (if tmo_started m then m else m\<lparr>tmo_started := True\<rparr>)"

definition timeout_stop :: "timeout_manager \<Rightarrow> timeout_manager" where
  "timeout_stop m = (if tmo_started m then m\<lparr>tmo_started := False\<rparr> else m)"

text \<open>Does the task the worker runs exceed its policy at time \<open>now\<close>?\<close>

definition timeout_exceeded :: "rat \<Rightarrow> rat \<Rightarrow> task \<Rightarrow> bool" where
  "timeout_exceeded now start_time t =
     (case dget (meta_of t) ''timeout_policy'' of
        Some (PTimeoutPolicy policy) \<Rightarrow> now - start_time > timeout_seconds policy
      | _ \<Rightarrow> False)"

definition monitor_snapshot :: "rat \<Rightarrow> worker_pool \<Rightarrow> timeout_manager \<Rightarrow> timeout_manager" where
  "monitor_snapshot now p m = m\<lparr>tmo_pc := M_scanning now (map wk_id (active_workers p))\<rparr>"

definition monitor_check :: "tstore \<Rightarrow> worker_pool \<Rightarrow> timeout_manager \<Rightarrow> timeout_manager" where
  "monitor_check h p m =
     (case tmo_pc m of
        M_scanning now (wid # wids) \<Rightarrow>
          (case dget (wp_workers p) wid of
             None \<Rightarrow> m\<lparr>tmo_pc := M_scanning now wids\<rparr>
           | Some k \<Rightarrow>
               (case (wk_current_task k, wk_task_start_time k) of
                  (Some r, Some st) \<Rightarrow>
                    if timeout_exceeded now st (h r)
                    then m\<lparr>tmo_pc := M_expired now wid r wids\<rparr>
                    else m\<lparr>tmo_pc := M_scanning now wids\<rparr>
                | _ \<Rightarrow> m\<lparr>tmo_pc := M_scanning now wids\<rparr>))
      | M_scanning now [] \<Rightarrow> m\<lparr>tmo_pc := M_sleeping\<rparr>
      | _ \<Rightarrow> m)"

definition monitor_expire ::
  "(tref \<Rightarrow> ('l, 'x, 'z) pool_sys_scheme \<Rightarrow> (py_error + unit) \<times> ('l, 'x, 'z) pool_sys_scheme) \<Rightarrow>
   string \<Rightarrow> tref \<Rightarrow> ('l, 'x, 'z) pool_sys_scheme \<Rightarrow> ('l, 'x, 'z) pool_sys_scheme" where
  "monitor_expire on_task_timeout wid r s =
     snd (on_task_timeout r
       (upd_world (upd_task r task_fail) (upd_worker wid (\<lambda>k. k\<lparr>wk_task_start_time := None\<rparr>) s)))"

lemma monitor_check_scanning:
  "tmo_pc m = M_scanning now (wid # wids) \<Longrightarrow>
   tmo_pc (monitor_check h p m) = M_scanning now wids \<or>
   (\<exists>r. tmo_pc (monitor_check h p m) = M_expired now wid r wids)"
  by (auto simp: monitor_check_def split: option.split)

lemma monitor_check_expired:
  assumes "tmo_pc (monitor_check h p m) = M_expired now wid r wids" and "tmo_pc m = M_scanning now (wid # wids)"
  shows "\<exists>k st. dget (wp_workers p) wid = Some k \<and> wk_current_task k = Some r \<and>
    wk_task_start_time k = Some st \<and> timeout_exceeded now st (h r)"
  using assms by (auto simp: monitor_check_def split: option.splits if_splits)

lemma monitor_expire_ok:
  assumes "pool_ok (ps_pool s)" and "\<And>r s. ps_pool (snd (cb r s)) = f (ps_pool s)"
    and "\<And>p. pool_ok p \<Longrightarrow> pool_ok (f p)"
  shows "pool_ok (ps_pool (monitor_expire cb wid r s))"
proof -
  have "pool_ok (ps_pool (upd_worker wid (\<lambda>k. k\<lparr>wk_task_start_time := None\<rparr>) s))"
  proof (cases "dget (wp_workers (ps_pool s)) wid")
    case (Some k)
    with pool_okD [OF assms(1) Some] assms(1) show ?thesis
      by (intro pool_ok_upd_worker) (auto simp: worker_simps split: worker_pc.splits)
  qed (use assms(1) in \<open>simp add: upd_worker_def\<close>)
  with assms(2,3) show ?thesis by (simp add: monitor_expire_def)
qed

end
