(* ===== verification/Scheduler.thy ===== *)
theory Scheduler
  imports Timeout_Manager Admission Retry_Engine Delayed_Tracker
begin

text \<open>
  The scheduler that composes admission, queue, delays, retries, timeouts and the worker pool:
  \<^verbatim>\<open>scheduling/scheduler/intelligent_scheduler.py\<close> and \<open>metrics.py\<close>, and the facade on top of it,
  \<^verbatim>\<open>runtime.py\<close>.

  The state extends the pool's: the queue, the delayed tasks, the monitor, and what the scheduler's
  threads hold between two steps, namely the tasks the tracker has popped and not yet handed over
  (\<open>sc_triggering\<close>) and the task the main loop has dequeued and not yet submitted (\<open>sc_dispatching\<close>).
  What the code takes from outside is in the record \<open>env\<close>: the executors and their capability tags,
  the recursion limit, \<open>datetime.fromisoformat\<close> and \<open>str\<close> of an exception.
\<close>

section \<open>State\<close>

record ('l, 'x) env =
  en_caps :: "'x \<Rightarrow> string list"
  en_fuel :: nat
  en_exec :: "('l, 'x) exec_fun"
  en_fromiso :: "string \<Rightarrow> rat option"
  en_render :: "py_error \<Rightarrow> string"

record ('l, 'x) sched_sys = "('l, 'x) pool_sys" +
  sc_queue :: task_queue
  sc_tracker :: delayed_tracker
  sc_timeouts :: timeout_manager
  sc_admission :: "admission_controller option"
  sc_started :: bool
  sc_start_time :: "rat option"
  sc_triggering :: "tref list"
  sc_dispatching :: "tref option"

section \<open>Callbacks\<close>

definition sys_enqueue ::
  "(string \<Rightarrow> rat option) \<Rightarrow> tref \<Rightarrow> ('l, 'x, 'z) sched_sys_scheme \<Rightarrow>
   (py_error + unit) \<times> ('l, 'x, 'z) sched_sys_scheme" where
  "sys_enqueue fromiso r s =
     (case enqueue fromiso r (sc_queue s) (ps_world s) of
        (res, q, w) \<Rightarrow> (res, s\<lparr>sc_queue := q, ps_world := w\<rparr>))"

text \<open>A task that has matured is enqueued; when the queue refuses it, it is only logged.\<close>

definition on_delayed_task_ready ::
  "(string \<Rightarrow> rat option) \<Rightarrow> tref \<Rightarrow> ('l, 'x, 'z) sched_sys_scheme \<Rightarrow> ('l, 'x, 'z) sched_sys_scheme" where
  "on_delayed_task_ready fromiso r s =
     (case sys_enqueue fromiso r s of
        (Inl e, s') \<Rightarrow> s'
      | (Inr u, s') \<Rightarrow> upd_world (emit (DelayedTaskReleased (t_id (w_task (ps_world s') r)))) s')"

definition sys_add_delayed ::
  "(string \<Rightarrow> rat option) \<Rightarrow> tref \<Rightarrow> rat \<Rightarrow> ('l, 'x, 'z) sched_sys_scheme \<Rightarrow> ('l, 'x, 'z) sched_sys_scheme" where
  "sys_add_delayed fromiso r delay s =
     (case add_delayed_task (now_of s) r delay (sc_tracker s) of
        (Some r', d) \<Rightarrow> on_delayed_task_ready fromiso r' (s\<lparr>sc_tracker := d\<rparr>)
      | (None, d) \<Rightarrow> s\<lparr>sc_tracker := d\<rparr>)"

definition retry_count_of :: "task \<Rightarrow> int" where
  "retry_count_of t = (case ditem_or as_count 0 (meta_of t) ''retry_count'' of Inl e \<Rightarrow> 0 | Inr n \<Rightarrow> n)"

definition handle_task_failure ::
  "(string \<Rightarrow> rat option) \<Rightarrow> tref \<Rightarrow> exc \<Rightarrow> ('l, 'x, 'z) sched_sys_scheme \<Rightarrow>
   (py_error + unit) \<times> ('l, 'x, 'z) sched_sys_scheme" where
  "handle_task_failure fromiso r error s =
     (case should_retry (w_task (ps_world s) r) error of
        Inl e \<Rightarrow> (Inl e, s)
      | Inr True \<Rightarrow>
          (case prepare_retry (w_task (ps_world s) r) of
             (Inl e, t) \<Rightarrow> (Inl e, upd_world (upd_task r (\<lambda>_. t)) s)
           | (Inr delay, t) \<Rightarrow>
               (let s1 = sys_add_delayed fromiso r delay (upd_world (upd_task r (\<lambda>_. t)) s);
                    t1 = w_task (ps_world s1) r
                in (Inr (), upd_world (\<lambda>w. emit (RetryScheduled (t_id t1) delay)
                                              (emit (TaskRetried (t_id t1) (retry_count_of t1)) w)) s1)))
      | Inr False \<Rightarrow>
          (Inr (), upd_world (emit (TaskFailed (t_id (w_task (ps_world s) r)) (exc_msg error))) s))"

definition timeout_error :: exc where
  "timeout_error =
     \<lparr>exc_mro = [''TimeoutError'', ''OSError'', ''Exception'', ''BaseException'', ''object''],
      exc_msg = ''Task execution exceeded timeout threshold.''\<rparr>"

definition timeout_limit_of :: "task \<Rightarrow> rat" where
  "timeout_limit_of t =
     (case dget (meta_of t) ''timeout_policy'' of
        Some (PTimeoutPolicy p) \<Rightarrow> timeout_seconds p
      | _ \<Rightarrow> 0)"

definition handle_task_timeout ::
  "(string \<Rightarrow> rat option) \<Rightarrow> tref \<Rightarrow> ('l, 'x, 'z) sched_sys_scheme \<Rightarrow>
   (py_error + unit) \<times> ('l, 'x, 'z) sched_sys_scheme" where
  "handle_task_timeout fromiso r s =
     (let s1 = upd_pool (\<lambda>p. p\<lparr>wp_tasks_failed := wp_tasks_failed p + 1\<rparr>) s;
          t = w_task (ps_world s) r;
          s2 = upd_world (\<lambda>w. emit (TimeoutTriggered (t_id t) (timeout_limit_of t))
                                (emit (TaskTimedOut (t_id t)) w)) s1
      in handle_task_failure fromiso r timeout_error s2)"

section \<open>Scheduling\<close>

definition admit ::
  "(py_error \<Rightarrow> string) \<Rightarrow> tref \<Rightarrow> ('l, 'x, 'z) sched_sys_scheme \<Rightarrow>
   (py_error + tref) \<times> ('l, 'x, 'z) sched_sys_scheme" where
  "admit render r s =
     (case sc_admission s of
        None \<Rightarrow> (Inr r, s)
      | Some c \<Rightarrow>
          (case admission_submit render c r (w_task (ps_world s)) of
             (res, h) \<Rightarrow> (res, upd_world (\<lambda>w. w\<lparr>w_task := h\<rparr>) s)))"

text \<open>The event logged for a plain delayed task is the one of a retry.\<close>

definition schedule ::
  "('l, 'x) env \<Rightarrow> tref \<Rightarrow> rat \<Rightarrow> ('l, 'x, 'z) sched_sys_scheme \<Rightarrow>
   (py_error + unit) \<times> ('l, 'x, 'z) sched_sys_scheme" where
  "schedule en r delay_seconds s =
     (case admit (en_render en) r s of
        (Inl e, s') \<Rightarrow> (Inl e, s')
      | (Inr r', s') \<Rightarrow>
          if delay_seconds > 0
          then (Inr (), upd_world (emit (RetryScheduled (t_id (w_task (ps_world s') r')) delay_seconds))
                          (sys_add_delayed (en_fromiso en) r' delay_seconds s'))
          else sys_enqueue (en_fromiso en) r' s')"

text \<open>One pass of the main loop, cut between the dequeue and the submission to the pool.\<close>

definition dispatch :: "('l, 'x, 'z) sched_sys_scheme \<Rightarrow> ('l, 'x, 'z) sched_sys_scheme" where
  "dispatch s =
     (if idle_workers (ps_pool s) \<noteq> [] \<and> \<not> is_empty (sc_queue s)
      then case dequeue (sc_queue s) (ps_world s) of
             (Inl e, q, w) \<Rightarrow> s\<lparr>sc_queue := q, ps_world := w\<rparr>
           | (Inr r, q, w) \<Rightarrow> s\<lparr>sc_queue := q, ps_world := w, sc_dispatching := Some r\<rparr>
      else s)"

definition hand_over :: "('l, 'x, 'z) sched_sys_scheme \<Rightarrow> ('l, 'x, 'z) sched_sys_scheme" where
  "hand_over s =
     (case sc_dispatching s of
        None \<Rightarrow> s
      | Some r \<Rightarrow> upd_pool (\<lambda>p. snd (pool_submit r p)) (s\<lparr>sc_dispatching := None\<rparr>))"

text \<open>One round of the tracker: the due tasks leave the heap at once and are handed over one by one.\<close>

definition tracker_pop :: "('l, 'x, 'z) sched_sys_scheme \<Rightarrow> ('l, 'x, 'z) sched_sys_scheme" where
  "tracker_pop s =
     (case release_due (now_of s) (sc_tracker s) of
        (rs, d) \<Rightarrow> s\<lparr>sc_tracker := d, sc_triggering := sc_triggering s @ rs\<rparr>)"

definition tracker_trigger ::
  "(string \<Rightarrow> rat option) \<Rightarrow> ('l, 'x, 'z) sched_sys_scheme \<Rightarrow> ('l, 'x, 'z) sched_sys_scheme" where
  "tracker_trigger fromiso s =
     (case sc_triggering s of
        [] \<Rightarrow> s
      | r # rs \<Rightarrow> on_delayed_task_ready fromiso r (s\<lparr>sc_triggering := rs\<rparr>))"

definition scheduler_start :: "('l, 'x, 'z) sched_sys_scheme \<Rightarrow> ('l, 'x, 'z) sched_sys_scheme" where
  "scheduler_start s =
     (if sc_started s then s
      else upd_world (emit SchedulerStarted)
             (s\<lparr>sc_started := True, sc_start_time := Some (now_of s),
                sc_tracker := tracker_start (sc_tracker s), sc_timeouts := timeout_start (sc_timeouts s)\<rparr>))"

text \<open>\<open>stop\<close> returns when the three loops have ended; the first part tells them to.\<close>

definition scheduler_stop_signal :: "('l, 'x, 'z) sched_sys_scheme \<Rightarrow> ('l, 'x, 'z) sched_sys_scheme" where
  "scheduler_stop_signal s =
     (if sc_started s
      then s\<lparr>sc_started := False, sc_tracker := tracker_stop (sc_tracker s),
             sc_timeouts := timeout_stop (sc_timeouts s)\<rparr>
      else s)"

definition scheduler_quiet :: "('l, 'x, 'z) sched_sys_scheme \<Rightarrow> bool" where
  "scheduler_quiet s \<longleftrightarrow>
     \<not> sc_started s \<and> sc_triggering s = [] \<and> sc_dispatching s = None \<and> tmo_pc (sc_timeouts s) = M_sleeping"

definition scheduler_stop_log :: "('l, 'x, 'z) sched_sys_scheme \<Rightarrow> ('l, 'x, 'z) sched_sys_scheme" where
  "scheduler_stop_log s = upd_world (emit SchedulerStopped) s"

record scheduler_metrics =
  sm_queue_size :: nat
  sm_queue_utilization :: rat
  sm_workers_total :: nat
  sm_workers_idle :: nat
  sm_workers_running :: nat
  sm_workers_failed :: nat
  sm_tasks_completed :: nat
  sm_tasks_failed :: nat
  sm_average_execution_time_ms :: rat
  sm_delayed_tasks_count :: nat
  sm_uptime_seconds :: rat

definition scheduler_get_metrics :: "('l, 'x, 'z) sched_sys_scheme \<Rightarrow> scheduler_metrics" where
  "scheduler_get_metrics s =
     (let queue_stats = queue_get_metrics (sc_queue s);
          pool_stats = pool_statistics (now_of s) (ps_pool s)
      in \<lparr>sm_queue_size = qm_size queue_stats,
          sm_queue_utilization = qm_utilization queue_stats,
          sm_workers_total = workers_total pool_stats,
          sm_workers_idle = workers_idle pool_stats,
          sm_workers_running = workers_running pool_stats,
          sm_workers_failed = workers_failed pool_stats,
          sm_tasks_completed = tasks_completed pool_stats,
          sm_tasks_failed = tasks_failed pool_stats,
          sm_average_execution_time_ms = average_execution_time pool_stats * 1000,
          sm_delayed_tasks_count = tracker_size (sc_tracker s),
          sm_uptime_seconds = (case sc_start_time s of None \<Rightarrow> 0 | Some t \<Rightarrow> now_of s - t)\<rparr>)"

section \<open>The failure callback keeps the pool\<close>

lemma sys_enqueue_pool [simp]:
  "ps_pool (snd (sys_enqueue fromiso r s)) = ps_pool s"
  by (simp add: sys_enqueue_def split: prod.split)

lemma on_delayed_task_ready_pool [simp]: "ps_pool (on_delayed_task_ready fromiso r s) = ps_pool s"
proof -
  obtain res s' where e: "sys_enqueue fromiso r s = (res, s')" by fastforce
  with sys_enqueue_pool [of fromiso r s] have "ps_pool s' = ps_pool s" by simp
  with e show ?thesis by (cases res) (simp_all add: on_delayed_task_ready_def)
qed

lemma sys_add_delayed_pool [simp]: "ps_pool (sys_add_delayed fromiso r d s) = ps_pool s"
  by (auto simp: sys_add_delayed_def split: prod.split option.split)

lemma handle_task_failure_pool: "ps_pool (snd (handle_task_failure fromiso r e s)) = ps_pool s"
  by (auto simp: handle_task_failure_def Let_def split: sum.split bool.split prod.split)

interpretation sched: pool_client "handle_task_failure fromiso"
  by unfold_locales (rule handle_task_failure_pool)

lemma handle_task_timeout_pool:
  "ps_pool (snd (handle_task_timeout fromiso r s)) =
   (ps_pool s)\<lparr>wp_tasks_failed := wp_tasks_failed (ps_pool s) + 1\<rparr>"
  by (simp add: handle_task_timeout_def Let_def handle_task_failure_pool)

section \<open>The runtime facade\<close>

datatype rt_phase = Rt_idle | Rt_joining_scheduler | Rt_joining_pool

record ('l, 'x) runtime_sys = "('l, 'x) sched_sys" +
  rt_tasks :: task_manager
  rt_next :: tref
  rt_phase :: rt_phase

text \<open>
  \<open>Runtime(task_manager, registry, store=...)\<close> with the default admission chain and scheduler: an
  unbounded FIFO queue and four workers.
\<close>

definition runtime_init :: "world \<Rightarrow> ('l, 'x) registry \<Rightarrow> ('l, 'x) runtime_sys" where
  "runtime_init w g =
     \<lparr>ps_world = w, ps_registry = g,
      ps_pool = (case pool_init 4 of Inr p \<Rightarrow> p),
      sc_queue = queue_init None None, sc_tracker = tracker_init, sc_timeouts = timeout_init,
      sc_admission = Some default_controller, sc_started = False, sc_start_time = None,
      sc_triggering = [], sc_dispatching = None,
      rt_tasks = tm_init, rt_next = 0, rt_phase = Rt_idle\<rparr>"

definition runtime_start :: "('l, 'x) runtime_sys \<Rightarrow> ('l, 'x) runtime_sys" where
  "runtime_start s = upd_world (emit RuntimeStarted) (scheduler_start (pool_start s))"

text \<open>
  \<open>stop\<close> in the sections between its joins: the scheduler is told to stop; when its loops have ended
  the pool is; when the workers have ended the stop is logged.
\<close>

definition runtime_stop_done :: "('l, 'x) runtime_sys \<Rightarrow> ('l, 'x) runtime_sys" where
  "runtime_stop_done s = upd_world (emit RuntimeStopped) (s\<lparr>rt_phase := Rt_idle\<rparr>)"

definition runtime_stop_pool :: "('l, 'x) runtime_sys \<Rightarrow> ('l, 'x) runtime_sys" where
  "runtime_stop_pool s =
     (if wp_started (ps_pool s) then (pool_stop_signal s)\<lparr>rt_phase := Rt_joining_pool\<rparr>
      else runtime_stop_done s)"

definition runtime_stop :: "('l, 'x) runtime_sys \<Rightarrow> ('l, 'x) runtime_sys" where
  "runtime_stop s =
     (if sc_started s then (scheduler_stop_signal s)\<lparr>rt_phase := Rt_joining_scheduler\<rparr>
      else runtime_stop_pool s)"

definition runtime_stop_scheduler_joined :: "('l, 'x) runtime_sys \<Rightarrow> ('l, 'x) runtime_sys" where
  "runtime_stop_scheduler_joined s = runtime_stop_pool (scheduler_stop_log s)"

definition runtime_stop_pool_joined :: "('l, 'x) runtime_sys \<Rightarrow> ('l, 'x) runtime_sys" where
  "runtime_stop_pool_joined s = runtime_stop_done (pool_stop_log s)"

text \<open>
  The event carries the metadata of the task, which the store encodes as JSON: a policy object in it
  makes the append raise after the task has been registered.
\<close>

definition log_submitted :: "task \<Rightarrow> world \<Rightarrow> (py_error + unit) \<times> world" where
  "log_submitted t w =
     (case w_log w of
        None \<Rightarrow> (Inr (), w)
      | Some l \<Rightarrow>
          let w1 = w\<lparr>w_drawn := Suc (w_drawn w)\<rparr>;
              e = (mk_event (w_uuid w (w_drawn w)) (now_iso w)
                    (TaskSubmitted (t_id t) (t_title t) (task_type_name (t_type t))))\<lparr>ev_metadata := meta_of t\<rparr>
          in if json_ok (PDict (meta_of t)) then (Inr (), w1\<lparr>w_log := Some (l @ [e])\<rparr>)
             else (Inl (TypeError ''not JSON serializable''), w1))"

definition submit_task ::
  "('l, 'x) env \<Rightarrow> string \<Rightarrow> task_type \<Rightarrow> pydict option \<Rightarrow> rat \<Rightarrow> ('l, 'x) runtime_sys \<Rightarrow>
   (py_error + tref) \<times> ('l, 'x) runtime_sys" where
  "submit_task en title ty md delay_seconds s =
     (let w = ps_world s; uid = w_uuid w (w_drawn w); w1 = w\<lparr>w_drawn := Suc (w_drawn w)\<rparr>; r = rt_next s
      in case task_init uid (w_now w) title ty md of
           Inl e \<Rightarrow> (Inl e, s\<lparr>ps_world := w1\<rparr>)
         | Inr t \<Rightarrow>
             (let w2 = w1\<lparr>w_task := (w_task w)(r := t)\<rparr>;
                  s2 = s\<lparr>ps_world := w2, rt_next := Suc r\<rparr>
              in case add_task (w_task w2) r (rt_tasks s) of
                   Inl e \<Rightarrow> (Inl e, s2)
                 | Inr m \<Rightarrow>
                     (case log_submitted t w2 of
                        (Inl e, w3) \<Rightarrow> (Inl e, s2\<lparr>rt_tasks := m, ps_world := w3\<rparr>)
                      | (Inr u, w3) \<Rightarrow>
                          (case schedule en r delay_seconds (s2\<lparr>rt_tasks := m, ps_world := w3\<rparr>) of
                             (Inl e, s4) \<Rightarrow> (Inl e, s4)
                           | (Inr u', s4) \<Rightarrow> (Inr r, s4)))))"

text \<open>The synchronous path. An error of the executor is raised again after the task is failed.\<close>

definition execute_task ::
  "('l, 'x) env \<Rightarrow> string \<Rightarrow> ('l, 'x) runtime_sys \<Rightarrow> (exc + tref) \<times> ('l, 'x) runtime_sys" where
  "execute_task en task_id s =
     (case get_task task_id (rt_tasks s) of
        Inl e \<Rightarrow> (Inl (exc_of e), s)
      | Inr r \<Rightarrow>
          (let s1 = upd_world (upd_task r task_start) s
           in case get_executor (en_caps en) (en_fuel en) (t_type (w_task (ps_world s1) r)) (ps_registry s1) of
                (Inl e, g) \<Rightarrow> (Inl (exc_of e), upd_world (upd_task r task_fail) (s1\<lparr>ps_registry := g\<rparr>))
              | (Inr x, g) \<Rightarrow>
                  (case en_exec en x r (w_task (ps_world s1)) of
                     (res, h) \<Rightarrow>
                       (let s2 = s1\<lparr>ps_registry := g, ps_world := (ps_world s1)\<lparr>w_task := h\<rparr>\<rparr>
                        in case res of
                             Inl e \<Rightarrow> (Inl e, upd_world (upd_task r task_fail) s2)
                           | Inr u \<Rightarrow> (Inr r, upd_world (upd_task r task_complete) s2)))))"

section \<open>All threads together\<close>

text \<open>
  One step is a call of the facade or one section of one thread. The loops of the scheduler, the
  tracker and the monitor begin a new pass only while the scheduler is started; a pass that has begun
  is finished. With \<open>faults\<close> an append of a worker to the event store may raise.
\<close>

inductive rt_step :: "('l, 'x) env \<Rightarrow> bool \<Rightarrow> ('l, 'x) runtime_sys \<Rightarrow> ('l, 'x) runtime_sys \<Rightarrow> bool"
  for en :: "('l, 'x) env" and faults :: bool
where
  rt_start: "rt_phase s = Rt_idle \<Longrightarrow> wp_started (ps_pool s) \<or> pool_stop_joined s \<Longrightarrow>
    rt_step en faults s (runtime_start s)"
| rt_stop: "rt_phase s = Rt_idle \<Longrightarrow> rt_step en faults s (runtime_stop s)"
| rt_stop_scheduler: "rt_phase s = Rt_joining_scheduler \<Longrightarrow> scheduler_quiet s \<Longrightarrow>
    rt_step en faults s (runtime_stop_scheduler_joined s)"
| rt_stop_pool: "rt_phase s = Rt_joining_pool \<Longrightarrow> pool_stop_joined s \<Longrightarrow>
    rt_step en faults s (runtime_stop_pool_joined s)"
| rt_submit: "submit_task en title ty md delay s = (res, s') \<Longrightarrow> rt_step en faults s s'"
| rt_worker: "faults \<or> fault = None \<Longrightarrow>
    rt_step en faults s (worker_section (en_caps en) (en_fuel en) (en_exec en)
      (Some (handle_task_failure (en_fromiso en))) fault wid s)"
| rt_supervise: "rt_step en faults s (supervise s)"
| rt_dispatch: "sc_started s \<Longrightarrow> sc_dispatching s = None \<Longrightarrow> rt_step en faults s (dispatch s)"
| rt_hand_over: "rt_step en faults s (hand_over s)"
| rt_pop: "sc_started s \<Longrightarrow> sc_triggering s = [] \<Longrightarrow> rt_step en faults s (tracker_pop s)"
| rt_trigger: "rt_step en faults s (tracker_trigger (en_fromiso en) s)"
| rt_snapshot: "sc_started s \<Longrightarrow> tmo_pc (sc_timeouts s) = M_sleeping \<Longrightarrow>
    rt_step en faults s (s\<lparr>sc_timeouts := monitor_snapshot (now_of s) (ps_pool s) (sc_timeouts s)\<rparr>)"
| rt_check: "rt_step en faults s
    (s\<lparr>sc_timeouts := monitor_check (w_task (ps_world s)) (ps_pool s) (sc_timeouts s)\<rparr>)"
| rt_expire: "tmo_pc (sc_timeouts s) = M_expired now wid r wids \<Longrightarrow>
    rt_step en faults s (monitor_expire (handle_task_timeout (en_fromiso en)) wid r
      (s\<lparr>sc_timeouts := (sc_timeouts s)\<lparr>tmo_pc := M_scanning now wids\<rparr>\<rparr>))"
| rt_tick: "now_of s \<le> t \<Longrightarrow> rt_step en faults s (upd_world (\<lambda>w. w\<lparr>w_now := t\<rparr>) s)"

inductive rt_run :: "('l, 'x) env \<Rightarrow> bool \<Rightarrow> ('l, 'x) runtime_sys \<Rightarrow> ('l, 'x) runtime_sys \<Rightarrow> bool"
  for en :: "('l, 'x) env" and faults :: bool
where
  rt_refl: "rt_run en faults s s"
| rt_trans: "rt_run en faults s s' \<Longrightarrow> rt_step en faults s' s'' \<Longrightarrow> rt_run en faults s s''"

end
