(* ===== verification/Runtime_Invariants.thy ===== *)
theory Runtime_Invariants
  imports Scheduler
begin

text \<open>
  Invariants of the composed runtime: what every interleaving of the facade's calls and the threads of
  workers, supervisor, scheduler, tracker and monitor keeps.
\<close>

section \<open>Consistency of the pool, the tracker and the scheduler\<close>

text \<open>
  The pool and the tracker are consistent, the workers are numbered, and a task between queue and pool
  has a running pool to go to.
\<close>

definition runtime_ok :: "('l, 'x) runtime_sys \<Rightarrow> bool" where
  "runtime_ok s \<longleftrightarrow>
     pool_ok (ps_pool s) \<and> pool_named (ps_pool s) \<and> tracker_inv (sc_tracker s) \<and>
     (sc_started s \<or> rt_phase s = Rt_joining_scheduler \<or> sc_dispatching s = None) \<and>
     (sc_dispatching s = None \<or> wp_started (ps_pool s))"

lemma pool_named_shape: "pool_shape p' = pool_shape p \<Longrightarrow> pool_named p' = pool_named p"
  by (cases "wp_workers p"; cases "wp_workers p'") (auto simp: pool_named_def pool_shape_def)

lemma runtime_ok_frame:
  assumes "runtime_ok s" and "pool_ok (ps_pool s')" and "pool_shape (ps_pool s') = pool_shape (ps_pool s)"
    and "tracker_inv (sc_tracker s')" and "sc_started s' = sc_started s"
    and "rt_phase s' = rt_phase s" and "sc_dispatching s' = sc_dispatching s"
  shows "runtime_ok s'"
proof -
  have "wp_started (ps_pool s') = wp_started (ps_pool s)" using assms(3) by (simp add: pool_shape_def)
  with assms pool_named_shape [OF assms(3)] show ?thesis by (simp add: runtime_ok_def)
qed

text \<open>What an operation of the scheduler on the queue and the tracker leaves alone.\<close>

definition same_control :: "('l, 'x) runtime_sys \<Rightarrow> ('l, 'x) runtime_sys \<Rightarrow> bool" where
  "same_control s s' \<longleftrightarrow>
     sc_started s' = sc_started s \<and> rt_phase s' = rt_phase s \<and> sc_dispatching s' = sc_dispatching s \<and>
     sc_admission s' = sc_admission s \<and> sc_triggering s' = sc_triggering s \<and> rt_next s' = rt_next s \<and>
     rt_tasks s' = rt_tasks s \<and> (tracker_inv (sc_tracker s) \<longrightarrow> tracker_inv (sc_tracker s'))"

lemma same_control_trans: "same_control s s' \<Longrightarrow> same_control s' s'' \<Longrightarrow> same_control s s''"
  by (auto simp: same_control_def)

lemma same_control_upd [simp]:
  "same_control s (upd_world f s')  \<longleftrightarrow> same_control s s'"
  "same_control s (upd_pool g s')  \<longleftrightarrow> same_control s s'"
  "same_control s (upd_worker wid k s')  \<longleftrightarrow> same_control s s'"
  by (simp_all add: same_control_def upd_world_def upd_pool_def upd_worker_def split: option.split)

lemma same_control_refl [simp]: "same_control s s"
  by (simp add: same_control_def)

lemma sys_enqueue_control: "same_control s (snd (sys_enqueue fromiso r s))"
  by (simp add: sys_enqueue_def same_control_def split: prod.split)

lemma on_delayed_control: "same_control s (on_delayed_task_ready fromiso r s)"
  using sys_enqueue_control [of s fromiso r]
  by (cases "sys_enqueue fromiso r s") (auto simp: on_delayed_task_ready_def split: sum.split)

lemma sys_add_delayed_control: "same_control s (sys_add_delayed fromiso r d s)"
proof -
  obtain res t where a: "add_delayed_task (now_of s) r d (sc_tracker s) = (res, t)" by fastforce
  then have "tracker_inv (sc_tracker s) \<Longrightarrow> tracker_inv t"
    using add_delayed_task_inv [of "sc_tracker s" "now_of s" r d] by simp
  then have "same_control s (s\<lparr>sc_tracker := t\<rparr>)" by (simp add: same_control_def)
  with a show ?thesis
    by (auto simp: sys_add_delayed_def intro: same_control_trans on_delayed_control split: option.split)
qed

lemma handle_task_failure_control: "same_control s (snd (handle_task_failure fromiso r e s))"
proof -
  have "same_control s (sys_add_delayed fromiso r d (upd_world f s))" for d f
    by (rule same_control_trans [OF _ sys_add_delayed_control]) simp
  then show ?thesis
    by (auto simp: handle_task_failure_def Let_def split: sum.split bool.split prod.split)
qed

lemma handle_task_timeout_control: "same_control s (snd (handle_task_timeout fromiso r s))"
  unfolding handle_task_timeout_def Let_def
  by (rule same_control_trans [OF _ handle_task_failure_control]) simp

lemma admit_control: "same_control s (snd (admit render r s))"
  by (simp add: admit_def split: option.split prod.split)

lemma schedule_control: "same_control s (snd (schedule en r d s))"
proof -
  obtain res s' where a: "admit (en_render en) r s = (res, s')" by fastforce
  with admit_control [of s "en_render en" r] have s': "same_control s s'" by simp
  from a same_control_trans [OF s' sys_add_delayed_control] same_control_trans [OF s' sys_enqueue_control] s'
  show ?thesis by (cases res) (simp_all add: schedule_def)
qed

lemma admit_pool: "ps_pool (snd (admit render r s)) = ps_pool s"
  by (simp add: admit_def split: option.split prod.split)

lemma schedule_pool: "ps_pool (snd (schedule en r d s)) = ps_pool s"
proof -
  obtain res s' where a: "admit (en_render en) r s = (res, s')" by fastforce
  with admit_pool [of "en_render en" r s] show ?thesis by (cases res) (simp_all add: schedule_def)
qed

lemma worker_section_control:
  "same_control s (worker_section caps fuel exec (Some (handle_task_failure fromiso)) fault wid s)"
proof -
  have 1: "same_control s (s\<lparr>ps_world := w\<rparr>)" "same_control s (s\<lparr>ps_registry := g\<rparr>)"
    "same_control s (s\<lparr>ps_registry := g, ps_world := w\<rparr>)" for w g
    by (simp_all add: same_control_def)
  have 2: "same_control s ((upd_worker wid f s)\<lparr>ps_world := w\<rparr>)"
    "same_control s ((upd_world h s)\<lparr>ps_world := w\<rparr>)" for f h w
    by (simp_all add: same_control_def upd_worker_def upd_world_def split: option.split)
  have 3: "same_control s (on_task_failed (Some (handle_task_failure fromiso)) wid e s')"
    if "same_control s s'" for e s'
    using that by (auto simp: on_task_failed_def Let_def
        intro!: same_control_trans [OF _ handle_task_failure_control] split: option.split)
  show ?thesis
    by (auto simp: worker_section_def run_head_def run_get_def run_begin_def run_execute_def run_return_def
        run_raise_def run_finally_def Let_def 1 2 3 simp del: emits.simps
        split: option.split worker_pc.split list.split prod.split sum.split)
qed

text \<open>The ways a submission ends: refused before, at or after registration, or by the scheduler's answer.\<close>

definition new_task_world :: "task \<Rightarrow> ('l, 'x) runtime_sys \<Rightarrow> world" where
  "new_task_world t s = (ps_world s)\<lparr>w_drawn := Suc (w_drawn (ps_world s)),
     w_task := (w_task (ps_world s))(rt_next s := t)\<rparr>"

lemma submit_task_cases:
  assumes "submit_task en title ty md d s = (res, s')"
  obtains
    (untitled) e where "task_init (w_uuid (ps_world s) (w_drawn (ps_world s))) (now_of s) title ty md = Inl e"
      "res = Inl e" "s' = upd_world (\<lambda>w. w\<lparr>w_drawn := Suc (w_drawn w)\<rparr>) s"
  | (duplicate) t e where
      "task_init (w_uuid (ps_world s) (w_drawn (ps_world s))) (now_of s) title ty md = Inr t"
      "add_task (w_task (new_task_world t s)) (rt_next s) (rt_tasks s) = Inl e"
      "res = Inl e" "s' = s\<lparr>rt_next := Suc (rt_next s), ps_world := new_task_world t s\<rparr>"
  | (unlogged) t m e w where
      "task_init (w_uuid (ps_world s) (w_drawn (ps_world s))) (now_of s) title ty md = Inr t"
      "add_task (w_task (new_task_world t s)) (rt_next s) (rt_tasks s) = Inr m"
      "log_submitted t (new_task_world t s) = (Inl e, w)"
      "res = Inl e" "s' = s\<lparr>rt_next := Suc (rt_next s), rt_tasks := m, ps_world := w\<rparr>"
  | (scheduled) t m w ans where
      "task_init (w_uuid (ps_world s) (w_drawn (ps_world s))) (now_of s) title ty md = Inr t"
      "add_task (w_task (new_task_world t s)) (rt_next s) (rt_tasks s) = Inr m"
      "log_submitted t (new_task_world t s) = (Inr (), w)"
      "schedule en (rt_next s) d (s\<lparr>rt_next := Suc (rt_next s), rt_tasks := m, ps_world := w\<rparr>) = (ans, s')"
      "res = (case ans of Inl e \<Rightarrow> Inl e | Inr u \<Rightarrow> Inr (rt_next s))"
proof (cases "task_init (w_uuid (ps_world s) (w_drawn (ps_world s))) (now_of s) title ty md")
  case (Inl e)
  with assms show ?thesis by (intro untitled) (auto simp: submit_task_def Let_def upd_world_def)
next
  case (Inr t)
  note init = this
  show ?thesis
  proof (cases "add_task (w_task (new_task_world t s)) (rt_next s) (rt_tasks s)")
    case (Inl e)
    with assms init show ?thesis
      by (intro duplicate [of t e]) (auto simp: submit_task_def Let_def new_task_world_def)
  next
    case (Inr m)
    obtain l w where log: "log_submitted t (new_task_world t s) = (l, w)" by fastforce
    let ?s = "s\<lparr>rt_next := Suc (rt_next s), rt_tasks := m, ps_world := w\<rparr>"
    obtain ans s4 where sch: "schedule en (rt_next s) d ?s = (ans, s4)" by fastforce
    show ?thesis
    proof (cases l)
      case (Inl e)
      with assms init Inr log show ?thesis
        by (intro unlogged [of t m e w]) (auto simp: submit_task_def Let_def new_task_world_def)
    next
      case (Inr u)
      with assms init \<open>add_task _ _ _ = Inr m\<close> log sch show ?thesis
        by (intro scheduled [of t m w ans])
          (auto simp: submit_task_def Let_def new_task_world_def split: sum.splits)
    qed
  qed
qed

lemma submit_task_control:
  assumes "submit_task en title ty md d s = (res, s')"
  shows "ps_pool s' = ps_pool s \<and> sc_started s' = sc_started s \<and> rt_phase s' = rt_phase s \<and>
    sc_dispatching s' = sc_dispatching s \<and> (tracker_inv (sc_tracker s) \<longrightarrow> tracker_inv (sc_tracker s'))"
  using assms
proof (cases rule: submit_task_cases)
  case (scheduled t m w ans)
  let ?s = "s\<lparr>rt_next := Suc (rt_next s), rt_tasks := m, ps_world := w\<rparr>"
  from schedule_pool [of en "rt_next s" d ?s] schedule_control [of ?s en "rt_next s" d] scheduled(4)
  show ?thesis by (simp add: same_control_def)
qed (simp_all add: upd_world_def)

lemma runtime_ok_control:
  assumes "runtime_ok s" and "same_control s s'" and "pool_ok (ps_pool s')"
    and "pool_shape (ps_pool s') = pool_shape (ps_pool s)"
  shows "runtime_ok s'"
  using assms by (intro runtime_ok_frame [OF assms(1)]) (auto simp: same_control_def runtime_ok_def)

lemma runtime_ok_world: "runtime_ok s \<Longrightarrow> runtime_ok (upd_world f s)"
  by (rule runtime_ok_control) (auto simp: runtime_ok_def)

lemma pool_ok_failed: "pool_ok p \<Longrightarrow> pool_ok (p\<lparr>wp_tasks_failed := n\<rparr>)"
  by (simp add: pool_ok_def)

lemma runtime_ok_expire:
  assumes "runtime_ok s"
  shows "runtime_ok (monitor_expire (handle_task_timeout fromiso) wid r s)"
proof (rule runtime_ok_control [OF assms])
  show "same_control s (monitor_expire (handle_task_timeout fromiso) wid r s)"
    unfolding monitor_expire_def by (rule same_control_trans [OF _ handle_task_timeout_control]) simp
  show "pool_ok (ps_pool (monitor_expire (handle_task_timeout fromiso) wid r s))"
    using assms
    by (intro monitor_expire_ok [where f = "\<lambda>p. p\<lparr>wp_tasks_failed := wp_tasks_failed p + 1\<rparr>"])
      (auto simp: runtime_ok_def handle_task_timeout_pool intro: pool_ok_failed)
  show "pool_shape (ps_pool (monitor_expire (handle_task_timeout fromiso) wid r s)) = pool_shape (ps_pool s)"
    by (simp add: monitor_expire_def handle_task_timeout_pool) (simp add: pool_shape_def)
qed

lemma runtime_ok_init: "runtime_ok (runtime_init w g)"
  by (simp add: runtime_ok_def runtime_init_def pool_init_def pool_ok_def pool_named_def tracker_inv_def
      tracker_init_def is_heap_def)

lemma runtime_ok_start:
  assumes "runtime_ok s"
  shows "runtime_ok (runtime_start s)"
proof -
  have inv: "pool_ok (ps_pool (pool_start s))" "pool_named (ps_pool (pool_start s))"
    using assms by (auto intro: pool_start_ok simp: runtime_ok_def)
  have "wp_started (ps_pool (pool_start s))" by (simp add: pool_start_def Let_def)
  moreover have "sc_tracker (pool_start s) = sc_tracker s" by (simp add: pool_start_def Let_def)
  moreover have "tracker_inv (tracker_start (sc_tracker s))"
    using assms by (simp add: runtime_ok_def tracker_inv_def tracker_start_def)
  ultimately show ?thesis using inv assms
    by (auto simp: runtime_ok_def runtime_start_def scheduler_start_def upd_world_def)
qed

lemma pool_named_stop: "pool_named (ps_pool s) \<Longrightarrow> pool_named (ps_pool (pool_stop_signal s))"
  by (auto simp: pool_named_def pool_stop_signal_def dmap_def comp_def)

lemma runtime_ok_stop_pool:
  assumes "runtime_ok s" and "sc_dispatching s = None"
  shows "runtime_ok (runtime_stop_pool s)"
proof -
  have "pool_ok (ps_pool (pool_stop_signal s))" "pool_named (ps_pool (pool_stop_signal s))"
    using assms(1) by (auto simp: runtime_ok_def intro: pool_stop_signal_ok pool_named_stop)
  moreover have "sc_tracker (pool_stop_signal s) = sc_tracker s" "sc_dispatching (pool_stop_signal s) = sc_dispatching s"
    by (simp_all add: pool_stop_signal_def upd_pool_def)
  ultimately show ?thesis using assms
    by (auto simp: runtime_stop_pool_def runtime_stop_done_def runtime_ok_def upd_world_def)
qed

lemma runtime_ok_stop:
  assumes "runtime_ok s" and "rt_phase s = Rt_idle"
  shows "runtime_ok (runtime_stop s)"
proof (cases "sc_started s")
  case True
  have "tracker_inv (tracker_stop (sc_tracker s))"
    using assms by (simp add: runtime_ok_def tracker_inv_def tracker_stop_def)
  with True assms show ?thesis by (auto simp: runtime_stop_def scheduler_stop_signal_def runtime_ok_def)
next
  case False
  with assms have "sc_dispatching s = None" by (simp add: runtime_ok_def)
  with False runtime_ok_stop_pool [OF assms(1)] show ?thesis by (simp add: runtime_stop_def)
qed

lemma runtime_ok_dispatch:
  assumes "runtime_ok s" and "sc_started s"
  shows "runtime_ok (dispatch s)"
proof -
  have "idle_workers (ps_pool s) \<noteq> [] \<Longrightarrow> wp_started (ps_pool s)"
    using assms(1) idle_started by (auto simp: runtime_ok_def)
  with assms show ?thesis
    by (auto simp: dispatch_def runtime_ok_def split: prod.split sum.split)
qed

lemma runtime_ok_hand_over:
  assumes "runtime_ok s"
  shows "runtime_ok (hand_over s)"
proof (cases "sc_dispatching s")
  case (Some r)
  have "pool_ok (snd (pool_submit r (ps_pool s)))"
    using assms by (intro pool_submit_ok) (simp add: runtime_ok_def)
  moreover have "pool_shape (snd (pool_submit r (ps_pool s))) = pool_shape (ps_pool s)"
    by (simp add: pool_submit_def pool_shape_def)
  ultimately show ?thesis using Some assms pool_named_shape [of "snd (pool_submit r (ps_pool s))" "ps_pool s"]
    by (auto simp: hand_over_def runtime_ok_def upd_pool_def)
qed (use assms in \<open>simp add: hand_over_def\<close>)

lemma runtime_ok_supervise:
  assumes "runtime_ok s"
  shows "runtime_ok (supervise s)"
proof (rule runtime_ok_control [OF assms])
  show "same_control s (supervise s)"
    by (auto simp: supervise_def same_control_def split: prod.split)
  have "pool_ok (ps_pool s)" using assms by (simp add: runtime_ok_def)
  note sup = supervise_ok [OF this]
  then show "pool_ok (ps_pool (supervise s))" by blast
  have "wp_size (ps_pool (supervise s)) = wp_size (ps_pool s)"
    "wp_started (ps_pool (supervise s)) = wp_started (ps_pool s)"
    by (simp_all add: supervise_def split: prod.split)
  with sup show "pool_shape (ps_pool (supervise s)) = pool_shape (ps_pool s)" by (simp add: pool_shape_def)
qed

lemma runtime_ok_tracker_pop:
  assumes "runtime_ok s"
  shows "runtime_ok (tracker_pop s)"
proof -
  obtain rs d where r: "release_due (now_of s) (sc_tracker s) = (rs, d)" by fastforce
  have "tracker_inv d" using assms release_due_spec(3) [OF _ r] by (simp add: runtime_ok_def)
  with assms r show ?thesis by (simp add: tracker_pop_def runtime_ok_def)
qed

lemma runtime_ok_trigger:
  assumes "runtime_ok s"
  shows "runtime_ok (tracker_trigger fromiso s)"
proof (cases "sc_triggering s")
  case (Cons r rs)
  let ?s = "s\<lparr>sc_triggering := rs\<rparr>"
  have "runtime_ok ?s" using assms by (simp add: runtime_ok_def)
  then have "runtime_ok (on_delayed_task_ready fromiso r ?s)"
    by (rule runtime_ok_control [OF _ on_delayed_control]) (simp_all add: assms [unfolded runtime_ok_def])
  with Cons show ?thesis by (simp add: tracker_trigger_def)
qed (use assms in \<open>simp add: tracker_trigger_def\<close>)

lemma runtime_ok_timeouts: "runtime_ok s \<Longrightarrow> runtime_ok (s\<lparr>sc_timeouts := m\<rparr>)"
  by (simp add: runtime_ok_def)

lemma rt_step_ok: "rt_step en faults s s' \<Longrightarrow> runtime_ok s \<Longrightarrow> runtime_ok s'"
proof (induction rule: rt_step.induct)
  case (rt_submit title ty md delay s res s')
  from submit_task_control [OF rt_submit(1)] rt_submit(2) show ?case by (auto simp: runtime_ok_def)
next
  case (rt_worker fault s wid)
  then have "pool_ok (ps_pool s)" by (simp add: runtime_ok_def)
  with rt_worker(2) show ?case
    by (intro runtime_ok_control [OF rt_worker(2) worker_section_control]
        sched.worker_section_ok sched.worker_section_shape)
next
  case (rt_expire s now wid r wids)
  then show ?case by (intro runtime_ok_expire) (simp add: runtime_ok_def)
next
  case (rt_stop_scheduler s)
  let ?s = "scheduler_stop_log s"
  have "runtime_ok ?s" "sc_dispatching ?s = None"
    using rt_stop_scheduler runtime_ok_world
    by (auto simp: scheduler_stop_log_def scheduler_quiet_def upd_world_def)
  then show ?case unfolding runtime_stop_scheduler_joined_def by (rule runtime_ok_stop_pool)
next
  case (rt_stop_pool s)
  then show ?case
    by (auto simp: runtime_stop_pool_joined_def runtime_stop_done_def pool_stop_log_def runtime_ok_def upd_world_def)
qed (auto intro: runtime_ok_start runtime_ok_stop runtime_ok_dispatch runtime_ok_hand_over runtime_ok_supervise
    runtime_ok_tracker_pop runtime_ok_trigger runtime_ok_world runtime_ok_timeouts)

lemma rt_run_ok: "rt_run en faults s s' \<Longrightarrow> runtime_ok s \<Longrightarrow> runtime_ok s'"
  by (induction rule: rt_run.induct) (auto intro: rt_step_ok)

end
