(* ===== verification/Task_Accounting.thy ===== *)
theory Task_Accounting
  imports Runtime_Invariants
begin

text \<open>
  No submitted task is lost: in the default configuration (unbounded FIFO queue, default admission
  chain) and without store failures, a task the runtime has accepted is at every moment queued, delayed,
  between two components, waiting in the pool or in the hands of a worker that has yet to run it, or it
  has been settled as completed or failed.
\<close>

section \<open>Where a task can be\<close>

definition in_queue :: "task_queue \<Rightarrow> tref \<Rightarrow> bool" where
  "in_queue q r \<longleftrightarrow>
     (\<exists>i. dget (q_storage q) i = Some r \<and> i \<in> set (policy_pending (q_policy q)))"

definition delayed :: "delayed_tracker \<Rightarrow> tref \<Rightarrow> bool" where
  "delayed d r \<longleftrightarrow> r \<in> (\<lambda>e. snd (snd e)) ` set (dt_heap d)"

text \<open>The task a worker has taken and not yet brought to an end.\<close>

fun to_run :: "worker_pc \<Rightarrow> tref option" where
  "to_run (Cleanup r) = None"
| "to_run pc = in_hand pc"

definition with_worker :: "worker_pool \<Rightarrow> tref \<Rightarrow> bool" where
  "with_worker p r \<longleftrightarrow> (\<exists>wid k. dget (wp_workers p) wid = Some k \<and> to_run (wk_pc k) = Some r)"

definition waiting :: "('l, 'x, 'z) sched_sys_scheme \<Rightarrow> tref \<Rightarrow> bool" where
  "waiting s r \<longleftrightarrow>
     in_queue (sc_queue s) r \<or> delayed (sc_tracker s) r \<or> r \<in> set (sc_triggering s) \<or>
     sc_dispatching s = Some r \<or> r \<in> set (wp_task_queue (ps_pool s)) \<or> with_worker (ps_pool s) r"

definition settled :: "('l, 'x, 'z) sched_sys_scheme \<Rightarrow> tref \<Rightarrow> bool" where
  "settled s r \<longleftrightarrow> t_status (w_task (ps_world s) r) = Task_COMPLETED \<or>
                  t_status (w_task (ps_world s) r) = Task_FAILED"

definition accounted :: "('l, 'x, 'z) sched_sys_scheme \<Rightarrow> tref \<Rightarrow> bool" where
  "accounted s r \<longleftrightarrow> waiting s r \<or> settled s r"

section \<open>The default queue\<close>

text \<open>
  The queue is unbounded and serves in order of arrival; every stored task is filed under its id and
  has an entry in the order. An id may have several entries.
\<close>

definition queue_cfg :: "tstore \<Rightarrow> tref \<Rightarrow> task_queue \<Rightarrow> bool" where
  "queue_cfg h n q \<longleftrightarrow> q_max_size q = None \<and>
     (\<exists>f. q_policy q = FIFO f \<and> set (dkeys (q_storage q)) \<subseteq> set (fifo_order f)) \<and>
     (\<forall>i r. dget (q_storage q) i = Some r \<longrightarrow> t_id (h r) = i \<and> r < n)"

definition ids_ok :: "tstore \<Rightarrow> tref \<Rightarrow> bool" where
  "ids_ok h n \<longleftrightarrow> inj_on (\<lambda>r. t_id (h r)) {..<n}"

text \<open>Changes of the world that keep the ids of the tasks.\<close>

definition wext :: "world \<Rightarrow> world \<Rightarrow> bool" where
  "wext w w' \<longleftrightarrow> w_uuid w' = w_uuid w \<and> w_drawn w \<le> w_drawn w' \<and> w_now w' = w_now w \<and>
     (\<forall>r. t_id (w_task w' r) = t_id (w_task w r))"

lemma wext_refl [simp]: "wext w w"
  by (simp add: wext_def)

lemma wext_trans: "wext w w' \<Longrightarrow> wext w' w'' \<Longrightarrow> wext w w''"
  by (auto simp: wext_def)

lemma wext_emit [simp]: "wext w (emit k w)"
  by (simp add: wext_def emit_def split: option.split)

lemma wext_emit_emit [simp]: "wext w (emit k (emit l w))"
  by (rule wext_trans [OF wext_emit wext_emit])

lemma wext_emit_all [simp]: "wext w (emit_all ks w)"
  by (induction ks arbitrary: w) (auto intro: wext_trans wext_emit)

lemma wext_upd_task: "(\<And>t. t_id (f t) = t_id t) \<Longrightarrow> wext w (upd_task r f w)"
  by (simp add: wext_def upd_task_def)

lemma ids_ok_ext: "ids_ok (w_task w) n \<Longrightarrow> wext w w' \<Longrightarrow> ids_ok (w_task w') n"
  by (simp add: ids_ok_def wext_def)

lemma queue_cfg_ext: "queue_cfg (w_task w) n q \<Longrightarrow> wext w w' \<Longrightarrow> queue_cfg (w_task w') n q"
  by (simp add: queue_cfg_def wext_def)

lemma in_queue_cfg:
  assumes "queue_cfg h n q"
  shows "in_queue q r \<longleftrightarrow> (\<exists>i. dget (q_storage q) i = Some r)"
proof -
  from assms obtain f where f: "q_policy q = FIFO f" "set (dkeys (q_storage q)) \<subseteq> set (fifo_order f)"
    by (auto simp: queue_cfg_def)
  then have "dget (q_storage q) i = Some r \<Longrightarrow> i \<in> set (policy_pending (q_policy q))" for i
    using dget_Some_key [of "q_storage q" i r] by auto
  then show ?thesis by (auto simp: in_queue_def)
qed

lemma enqueue_cfg:
  assumes cfg: "queue_cfg (w_task w) n q" and ids: "ids_ok (w_task w) n" and r: "r < n"
    and e: "enqueue fromiso r q w = (res, q', w')"
  shows "res = Inr ()" and "queue_cfg (w_task w') n q'" and "wext w w'"
    and "in_queue q' r" and "in_queue q r' \<Longrightarrow> in_queue q' r'"
    and "t_status (w_task w' r') = t_status (w_task w r')"
proof -
  let ?t = "w_task w r"
  from cfg obtain f where f: "q_policy q = FIFO f" "set (dkeys (q_storage q)) \<subseteq> set (fifo_order f)"
    and m: "q_max_size q = None"
    and st: "\<And>i r. dget (q_storage q) i = Some r \<Longrightarrow> t_id (w_task w r) = i \<and> r < n"
    by (auto simp: queue_cfg_def)
  have "\<not> queue_full q" using m by (simp add: queue_full_def)
  with f(1) have eq: "res = Inr ()"
    "q' = publish (QTaskQueued (t_id ?t) (w_now w)) (q\<lparr>q_storage := dset (t_id ?t) r (q_storage q),
        q_policy := FIFO (fifo_add ?t f), q_enqueue_count := Suc (q_enqueue_count q)\<rparr>)"
    "w' = emit (TaskQueued (t_id ?t))
       (upd_task r (\<lambda>t. t\<lparr>t_metadata := Some (dset ''queued_at'' (PStr (now_iso w)) (meta_of t))\<rparr>) w)"
    using e by (auto simp: enqueue_accepted)
  show "res = Inr ()" by (rule eq)
  show ext: "wext w w'" unfolding eq(3) by (rule wext_trans [OF wext_upd_task wext_emit]) simp
  then have ident: "t_id (w_task w' x) = t_id (w_task w x)" for x by (simp add: wext_def)
  show cfg': "queue_cfg (w_task w') n q'"
    using m f(2) st r by (auto simp: queue_cfg_def eq(2) fifo_add_def dget_update ident split: if_splits)
  have look: "dget (q_storage q') i = (if i = t_id ?t then Some r else dget (q_storage q) i)" for i
    by (simp add: eq(2) dget_update)
  then show "in_queue q' r" using in_queue_cfg [OF cfg'] by (metis (full_types))
  show "in_queue q' r'" if "in_queue q r'"
  proof -
    from that obtain i where i: "dget (q_storage q) i = Some r'" by (auto simp: in_queue_def)
    with st have "t_id (w_task w r') = i" "r' < n" by auto
    with ids r have "i = t_id ?t \<Longrightarrow> r' = r" by (auto simp: ids_ok_def inj_on_def)
    with i look have "dget (q_storage q') i = Some r'" by auto
    with in_queue_cfg [OF cfg'] show ?thesis by blast
  qed
  show "t_status (w_task w' r') = t_status (w_task w r')" by (simp add: eq(3))
qed

lemma dequeue_cfg:
  assumes cfg: "queue_cfg (w_task w) n q" and e: "dequeue q w = (res, q', w')"
  shows "queue_cfg (w_task w') n q'" and "wext w w'" and "w_task w' = w_task w"
    and "in_queue q r \<Longrightarrow> in_queue q' r \<or> res = Inr r" and "res = Inr r \<Longrightarrow> r < n"
proof -
  from cfg obtain f where f: "q_policy q = FIFO f" "set (dkeys (q_storage q)) \<subseteq> set (fifo_order f)"
    and m: "q_max_size q = None"
    and st: "\<And>i r. dget (q_storage q) i = Some r \<Longrightarrow> t_id (w_task w r) = i \<and> r < n"
    by (auto simp: queue_cfg_def)
  have "queue_cfg (w_task w') n q' \<and> wext w w' \<and> w_task w' = w_task w \<and>
    (\<forall>r. in_queue q r \<longrightarrow> in_queue q' r \<or> res = Inr r) \<and> (\<forall>r. res = Inr r \<longrightarrow> r < n)"
  proof (cases "fifo_order f")
    case Nil
    with f have "q_storage q = []" by simp
    with Nil e f(1) m show ?thesis
      by (auto simp: dequeue_def fifo_next_def queue_cfg_def in_queue_def)
  next
    case (Cons i js)
    show ?thesis
    proof (cases "dget (q_storage q) i")
      case None
      then have "i \<notin> set (dkeys (q_storage q))" by (simp add: dget_None_iff)
      with f(2) Cons have "set (dkeys (q_storage q)) \<subseteq> set js" by auto
      with Cons None e f(1) m st show ?thesis
        by (auto simp: dequeue_def fifo_next_def queue_cfg_def in_queue_def dest: dget_Some_key)
    next
      case (Some r)
      have sub: "set (dkeys (dpop i (q_storage q))) \<subseteq> set js" using f(2) Cons by (auto simp: set_dkeys_delete)
      have eq: "res = Inr r" "q' = publish (QTaskDequeued i (w_now w)) (q\<lparr>q_policy := FIFO (f\<lparr>fifo_order := js\<rparr>),
          q_storage := dpop i (q_storage q), q_dequeue_count := Suc (q_dequeue_count q)\<rparr>)"
        "w' = emit (TaskDequeued i) w"
        using Cons Some e f(1) st by (auto simp: dequeue_def fifo_next_def)
      have cfg': "queue_cfg (w_task w) n q'"
        using sub m st by (auto simp: eq(2) queue_cfg_def dget_delete split: if_splits)
      moreover have "in_queue q' x \<or> x = r" if "in_queue q x" for x
      proof -
        from that obtain j where j: "dget (q_storage q) j = Some x" by (auto simp: in_queue_def)
        show ?thesis
        proof (cases "j = i")
          case False
          with j have "dget (q_storage q') j = Some x" by (simp add: eq(2) dget_delete)
          with in_queue_cfg [OF cfg'] show ?thesis by blast
        qed (use j Some in simp)
      qed
      moreover have "r < n" using st Some by blast
      ultimately show ?thesis by (auto simp: eq(1,3))
    qed
  qed
  then show "queue_cfg (w_task w') n q'" and "wext w w'" and "w_task w' = w_task w"
    and "in_queue q r \<Longrightarrow> in_queue q' r \<or> res = Inr r" and "res = Inr r \<Longrightarrow> r < n" by blast+
qed

section \<open>The configuration and the accounting\<close>

definition hands :: "worker_pool \<Rightarrow> tref \<Rightarrow> bool" where
  "hands p r \<longleftrightarrow> (\<exists>wid k. dget (wp_workers p) wid = Some k \<and>
     (in_hand (wk_pc k) = Some r \<or> wk_current_task k = Some r))"

definition held :: "('l, 'x, 'z) sched_sys_scheme \<Rightarrow> tref \<Rightarrow> bool" where
  "held s r \<longleftrightarrow>
     delayed (sc_tracker s) r \<or> r \<in> set (sc_triggering s) \<or> sc_dispatching s = Some r \<or>
     r \<in> set (wp_task_queue (ps_pool s)) \<or> hands (ps_pool s) r \<or>
     (\<exists>now wid wids. tmo_pc (sc_timeouts s) = M_expired now wid r wids)"

text \<open>Every reference the system holds is to one of the first \<open>n\<close> task objects, whose ids differ.\<close>

definition sys_cfg :: "tref \<Rightarrow> ('l, 'x, 'z) sched_sys_scheme \<Rightarrow> bool" where
  "sys_cfg n s \<longleftrightarrow> queue_cfg (w_task (ps_world s)) n (sc_queue s) \<and> ids_ok (w_task (ps_world s)) n \<and>
     (\<forall>r. held s r \<longrightarrow> r < n)"

definition keeps :: "tref \<Rightarrow> ('l, 'x, 'z) sched_sys_scheme \<Rightarrow> ('l, 'x, 'z) sched_sys_scheme \<Rightarrow> bool" where
  "keeps n s s' \<longleftrightarrow> sys_cfg n s' \<and> wext (ps_world s) (ps_world s') \<and> (\<forall>r. accounted s r \<longrightarrow> accounted s' r)"

lemma keeps_refl: "sys_cfg n s \<Longrightarrow> keeps n s s"
  by (simp add: keeps_def)

lemma sys_cfg_world:
  "sys_cfg n s \<Longrightarrow> wext (ps_world s) (f (ps_world s)) \<Longrightarrow> sys_cfg n (upd_world f s)"
  using queue_cfg_ext ids_ok_ext by (fastforce simp: sys_cfg_def held_def upd_world_def)

text \<open>What putting a task into the queue or the tracker does to the rest.\<close>

definition placed :: "('l, 'x, 'z) sched_sys_scheme \<Rightarrow> tref \<Rightarrow> bool" where
  "placed s r \<longleftrightarrow> in_queue (sc_queue s) r \<or> delayed (sc_tracker s) r"

definition adds :: "tref \<Rightarrow> tref \<Rightarrow> ('l, 'x, 'z) sched_sys_scheme \<Rightarrow> ('l, 'x, 'z) sched_sys_scheme \<Rightarrow> bool" where
  "adds n r s s' \<longleftrightarrow> sys_cfg n s' \<and> wext (ps_world s) (ps_world s') \<and> ps_pool s' = ps_pool s \<and>
     sc_triggering s' = sc_triggering s \<and> sc_dispatching s' = sc_dispatching s \<and>
     sc_timeouts s' = sc_timeouts s \<and>
     (\<forall>r'. placed s r' \<longrightarrow> placed s' r') \<and>
     (\<forall>r'. r' \<noteq> r \<longrightarrow> t_status (w_task (ps_world s') r') = t_status (w_task (ps_world s) r')) \<and>
     (placed s' r \<or> t_status (w_task (ps_world s') r) = t_status (w_task (ps_world s) r))"

lemma adds_waiting: "adds n r s s' \<Longrightarrow> waiting s r' \<Longrightarrow> waiting s' r'"
  by (auto simp: adds_def waiting_def placed_def)

lemma placed_waiting: "placed s r \<Longrightarrow> waiting s r"
  by (auto simp: placed_def waiting_def)

lemma adds_accounted:
  assumes "adds n r s s'" and "accounted s r'"
  shows "accounted s' r'"
proof (cases "waiting s r'")
  case True
  with adds_waiting [OF assms(1)] show ?thesis by (simp add: accounted_def)
next
  case False
  with assms(2) have "settled s r'" by (simp add: accounted_def)
  moreover have "placed s' r' \<or> t_status (w_task (ps_world s') r') = t_status (w_task (ps_world s) r')"
    using assms(1) unfolding adds_def by (cases "r' = r") auto
  ultimately show ?thesis by (auto simp: accounted_def settled_def dest: placed_waiting)
qed

lemma adds_keeps:
  assumes "adds n r s s'"
  shows "keeps n s s'"
proof -
  have "sys_cfg n s'" "wext (ps_world s) (ps_world s')" using assms by (simp_all add: adds_def)
  with adds_accounted [OF assms] show ?thesis by (simp add: keeps_def)
qed

lemma adds_refl: "sys_cfg n s \<Longrightarrow> adds n r s s"
  by (simp add: adds_def)

lemma placed_world [simp]:
  "placed (upd_world f s) r = placed s r" "waiting (upd_world f s) r = waiting s r"
  by (simp_all add: placed_def waiting_def upd_world_def)

lemma adds_world:
  assumes "adds n r s s'" and "wext (ps_world s') (f (ps_world s'))"
    and "\<And>x. t_status (w_task (f (ps_world s')) x) = t_status (w_task (ps_world s') x)"
  shows "adds n r s (upd_world f s')"
proof -
  have "sys_cfg n (upd_world f s')" using assms(1,2) by (intro sys_cfg_world) (simp_all add: adds_def)
  with assms show ?thesis unfolding adds_def placed_world
    by (auto simp: upd_world_def intro: wext_trans)
qed

lemma sys_enqueue_adds:
  assumes cfg: "sys_cfg n s" and r: "r < n" and e: "sys_enqueue fromiso r s = (res, s')"
  shows "res = Inr () \<and> adds n r s s' \<and> placed s' r \<and> (\<forall>x. t_status (w_task (ps_world s') x) = t_status (w_task (ps_world s) x))"
proof -
  from e obtain q w where q: "enqueue fromiso r (sc_queue s) (ps_world s) = (res, q, w)"
    and s': "s' = s\<lparr>sc_queue := q, ps_world := w\<rparr>"
    by (auto simp: sys_enqueue_def split: prod.splits)
  from cfg have qc: "queue_cfg (w_task (ps_world s)) n (sc_queue s)" and ids: "ids_ok (w_task (ps_world s)) n"
    by (simp_all add: sys_cfg_def)
  note enq = enqueue_cfg [OF qc ids r q]
  have "sys_cfg n s'"
    using cfg enq(2) ids_ok_ext [OF ids enq(3)] by (auto simp: sys_cfg_def s' held_def)
  with enq show ?thesis by (auto simp: adds_def s' placed_def)
qed

lemma on_delayed_adds:
  assumes cfg: "sys_cfg n s" and r: "r < n"
  shows "adds n r s (on_delayed_task_ready fromiso r s) \<and> placed (on_delayed_task_ready fromiso r s) r"
proof -
  obtain res s' where e: "sys_enqueue fromiso r s = (res, s')" by fastforce
  note enq = sys_enqueue_adds [OF cfg r e]
  then have "on_delayed_task_ready fromiso r s = upd_world (emit (DelayedTaskReleased (t_id (w_task (ps_world s') r)))) s'"
    using e by (simp add: on_delayed_task_ready_def)
  with enq show ?thesis by (simp add: adds_world)
qed

lemma delayed_push: "delayed (d\<lparr>dt_heap := heappush (t, c, r) (dt_heap d), dt_counter := m\<rparr>) x \<longleftrightarrow> x = r \<or> delayed d x"
proof -
  have "set (heappush (t, c, r) (dt_heap d)) = insert (t, c, r) (set (dt_heap d))"
    by (metis mset_heappush set_mset_add_mset_insert set_mset_mset)
  then show ?thesis by (auto simp: delayed_def)
qed

lemma sys_add_delayed_adds:
  assumes cfg: "sys_cfg n s" and r: "r < n"
  shows "adds n r s (sys_add_delayed fromiso r d s) \<and> placed (sys_add_delayed fromiso r d s) r"
proof (cases "d \<le> 0")
  case True
  then have "sys_add_delayed fromiso r d s = on_delayed_task_ready fromiso r s"
    by (simp add: sys_add_delayed_def add_delayed_task_def)
  with on_delayed_adds [OF cfg r] show ?thesis by simp
next
  case False
  let ?d = "(sc_tracker s)\<lparr>dt_heap := heappush (now_of s + d, dt_counter (sc_tracker s), r) (dt_heap (sc_tracker s)),
      dt_counter := dt_counter (sc_tracker s) + 1\<rparr>"
  have eq: "sys_add_delayed fromiso r d s = s\<lparr>sc_tracker := ?d\<rparr>"
    using False by (simp add: sys_add_delayed_def add_delayed_task_def)
  have "sys_cfg n (s\<lparr>sc_tracker := ?d\<rparr>)"
    using cfg r by (auto simp: sys_cfg_def held_def delayed_push)
  then show ?thesis unfolding eq by (auto simp: adds_def placed_def delayed_push)
qed

lemma should_retry_prepares:
  assumes "should_retry t e = Inr True"
  shows "\<exists>d t'. prepare_retry t = (Inr d, t') \<and> t_id t' = t_id t"
proof -
  from assms obtain p n where p: "dget (meta_of t) ''retry_policy'' = Some (PRetryPolicy p)"
    and n: "ditem_or as_count 0 (meta_of t) ''retry_count'' = Inr n"
    by (auto simp: should_retry_def bindE_def split: option.splits pyval.splits sum.splits)
  from p obtain md where "t_metadata t = Some md" "meta_of t = md" by (auto simp: meta_of_def split: option.splits)
  with p n show ?thesis by (simp add: prepare_retry_def Let_def)
qed

lemma handle_task_failure_adds:
  assumes cfg: "sys_cfg n s" and r: "r < n"
  shows "adds n r s (snd (handle_task_failure fromiso r e s))"
proof -
  consider (error) x where "should_retry (w_task (ps_world s) r) e = Inl x"
    | (yes) "should_retry (w_task (ps_world s) r) e = Inr True"
    | (no) "should_retry (w_task (ps_world s) r) e = Inr False"
    by (metis (full_types) obj_sumE)
  then show ?thesis
  proof cases
    case error
    with cfg show ?thesis by (simp add: handle_task_failure_def adds_refl)
  next
    case no
    with cfg show ?thesis by (simp add: handle_task_failure_def adds_world adds_refl)
  next
    case yes
    from should_retry_prepares [OF yes] obtain d t where
      t: "prepare_retry (w_task (ps_world s) r) = (Inr d, t)" "t_id t = t_id (w_task (ps_world s) r)" by blast
    let ?s = "upd_world (upd_task r (\<lambda>_. t)) s"
    have ext: "wext (ps_world s) (upd_task r (\<lambda>_. t) (ps_world s))" using t(2) by (simp add: wext_def)
    have "sys_cfg n ?s" using cfg ext by (rule sys_cfg_world)
    note a = sys_add_delayed_adds [OF this r, of fromiso d]
    then have "adds n r s (sys_add_delayed fromiso r d ?s)"
      using ext by (auto simp: adds_def placed_def upd_world_def intro: wext_trans)
    with yes t(1) show ?thesis
      by (auto simp: handle_task_failure_def Let_def intro!: adds_world intro: wext_trans)
  qed
qed

section \<open>The sections of a worker\<close>

text \<open>
  A section changes one worker, may take from the pool's queue and may change task objects. A task it
  had to run it still has to run, or it has settled it.
\<close>

lemma keeps_worker:
  assumes cfg: "sys_cfg n s" and k: "dget (wp_workers (ps_pool s)) wid = Some k"
    and workers: "\<And>i. dget (wp_workers (ps_pool s')) i = (if i = wid then Some k' else dget (wp_workers (ps_pool s)) i)"
    and same: "sc_queue s' = sc_queue s" "sc_tracker s' = sc_tracker s" "sc_triggering s' = sc_triggering s"
      "sc_dispatching s' = sc_dispatching s" "sc_timeouts s' = sc_timeouts s"
    and ext: "wext (ps_world s) (ps_world s')"
    and q: "set (wp_task_queue (ps_pool s')) \<subseteq> set (wp_task_queue (ps_pool s))"
    and new: "\<And>r. in_hand (wk_pc k') = Some r \<or> wk_current_task k' = Some r \<Longrightarrow>
      in_hand (wk_pc k) = Some r \<or> wk_current_task k = Some r \<or> r \<in> set (wp_task_queue (ps_pool s))"
    and acc: "\<And>r. settled s r \<or> to_run (wk_pc k) = Some r \<or> r \<in> set (wp_task_queue (ps_pool s)) \<Longrightarrow>
      settled s' r \<or> to_run (wk_pc k') = Some r \<or> r \<in> set (wp_task_queue (ps_pool s'))"
  shows "keeps n s s'"
proof -
  have hands: "hands (ps_pool s') r \<Longrightarrow> held s r" for r
    using k new [of r] unfolding hands_def held_def workers by (auto split: if_splits)
  have "held s' r \<Longrightarrow> held s r" for r
    using hands [of r] q unfolding held_def same by auto
  then have "sys_cfg n s'"
    using cfg queue_cfg_ext ids_ok_ext ext unfolding sys_cfg_def same(1) by blast
  moreover have "accounted s' r" if a: "accounted s r" for r
  proof (cases "settled s r \<or> to_run (wk_pc k) = Some r \<or> r \<in> set (wp_task_queue (ps_pool s))")
    case True
    from acc [OF this] show ?thesis
      using workers [of wid] by (auto simp: accounted_def waiting_def with_worker_def)
  next
    case False
    with a k have "in_queue (sc_queue s) r \<or> delayed (sc_tracker s) r \<or> r \<in> set (sc_triggering s) \<or>
        sc_dispatching s = Some r \<or> (\<exists>i k. i \<noteq> wid \<and> dget (wp_workers (ps_pool s)) i = Some k \<and> to_run (wk_pc k) = Some r)"
      unfolding accounted_def waiting_def with_worker_def by (metis option.inject)
    then show ?thesis
      unfolding accounted_def waiting_def same with_worker_def workers by auto
  qed
  ultimately show ?thesis using ext by (simp add: keeps_def)
qed

lemma sched_frame [simp]:
  "sc_queue (upd_worker wid f s) = sc_queue s" "sc_tracker (upd_worker wid f s) = sc_tracker s"
  "sc_triggering (upd_worker wid f s) = sc_triggering s" "sc_dispatching (upd_worker wid f s) = sc_dispatching s"
  "sc_timeouts (upd_worker wid f s) = sc_timeouts s"
  "sc_queue (upd_pool g s) = sc_queue s" "sc_tracker (upd_pool g s) = sc_tracker s"
  "sc_triggering (upd_pool g s) = sc_triggering s" "sc_dispatching (upd_pool g s) = sc_dispatching s"
  "sc_timeouts (upd_pool g s) = sc_timeouts s"
  "sc_queue (upd_world h s) = sc_queue s" "sc_tracker (upd_world h s) = sc_tracker s"
  "sc_triggering (upd_world h s) = sc_triggering s" "sc_dispatching (upd_world h s) = sc_dispatching s"
  "sc_timeouts (upd_world h s) = sc_timeouts s"
  by (simp_all add: upd_worker_def upd_pool_def upd_world_def split: option.split)

lemma settled_frame [simp]:
  "settled (upd_worker wid f s) r = settled s r" "settled (upd_pool g s) r = settled s r"
  by (simp_all add: settled_def)

lemma run_head_keeps:
  assumes "sys_cfg n s" and "dget (wp_workers (ps_pool s)) wid = Some k" and "wk_pc k = Polling"
  shows "keeps n s (run_head wid s)"
  by (rule keeps_worker [OF assms(1,2), where k' = "if wk_stop_event k then k\<lparr>wk_state := W_STOPPED, wk_pc := Exited\<rparr>
        else k\<lparr>wk_pc := Getting\<rparr>"])
    (use assms in \<open>auto simp: run_head_def dget_upd_worker split: if_splits\<close>)

lemma run_get_keeps:
  assumes "sys_cfg n s" and "dget (wp_workers (ps_pool s)) wid = Some k" and "wk_pc k = Getting"
  shows "keeps n s (run_get wid s)"
proof (cases "wp_task_queue (ps_pool s)")
  case Nil
  then show ?thesis
    by (intro keeps_worker [OF assms(1,2), where k' = "(if wk_stop_event k then k
          else k\<lparr>wk_heartbeat_time := now_of s\<rparr>)\<lparr>wk_pc := Polling\<rparr>"])
      (use assms in \<open>auto simp: run_get_def dget_upd_worker split: if_splits\<close>)
next
  case (Cons r rs)
  then show ?thesis
    by (intro keeps_worker [OF assms(1,2), where k' = "k\<lparr>wk_pc := Fetched r\<rparr>"])
      (use assms in \<open>auto simp: run_get_def dget_upd_worker split: if_splits\<close>)
qed

lemma wext_task_status:
  "wext w (upd_task r task_start w)" "wext w (upd_task r task_complete w)" "wext w (upd_task r task_fail w)"
  by (rule wext_upd_task; simp add: task_start_def task_complete_def task_fail_def)+

lemma run_begin_keeps:
  assumes "sys_cfg n s" and "dget (wp_workers (ps_pool s)) wid = Some k" and "wk_pc k = Fetched r"
  shows "keeps n s (run_begin None wid r s)"
proof -
  let ?ks = "[TaskStarted (t_id (w_task (ps_world s) r)), WorkerHeartbeat wid (now_iso (ps_world s))]"
  let ?w = "upd_task r task_start (emit_all ?ks (ps_world s))"
  have eq: "run_begin None wid r s =
      upd_worker wid (\<lambda>k. k\<lparr>wk_pc := Executing r (now_of s)\<rparr>)
        ((upd_worker wid (\<lambda>k. k\<lparr>wk_state := W_RUNNING, wk_current_task := Some r,
            wk_heartbeat_time := now_of s, wk_task_start_time := Some (now_of s)\<rparr>) s)\<lparr>ps_world := ?w\<rparr>)"
    by (simp add: run_begin_def Let_def del: emits.simps emit_all.simps)
  have "wext (ps_world s) ?w" by (rule wext_trans [OF wext_emit_all wext_task_status(1)])
  then show ?thesis unfolding eq
    by (intro keeps_worker [OF assms(1,2), where k' = "k\<lparr>wk_state := W_RUNNING, wk_current_task := Some r,
            wk_heartbeat_time := now_of s, wk_task_start_time := Some (now_of s), wk_pc := Executing r (now_of s)\<rparr>"])
      (use assms in \<open>auto simp: dget_upd_worker upd_worker_def dget_update settled_def split: option.split\<close>)
qed

text \<open>What is relied on of the executors: they write the task they are given, and not its id.\<close>

definition exec_local :: "('l, 'x) exec_fun \<Rightarrow> bool" where
  "exec_local exec \<longleftrightarrow> (\<forall>x r h. t_id (snd (exec x r h) r) = t_id (h r) \<and>
     (\<forall>r'. r' \<noteq> r \<longrightarrow> snd (exec x r h) r' = h r'))"

lemma run_execute_keeps:
  assumes "sys_cfg n s" and "dget (wp_workers (ps_pool s)) wid = Some k" and "wk_pc k = Executing r t"
    and "exec_local exec"
  shows "keeps n s (run_execute caps fuel exec wid r t s)"
proof (cases "get_executor caps fuel (t_type (w_task (ps_world s) r)) (ps_registry s)")
  case (Pair x g)
  show ?thesis
  proof (cases x)
    case (Inl e)
    with Pair show ?thesis
      by (intro keeps_worker [OF assms(1,2), where k' = "k\<lparr>wk_pc := Raised r (exc_of e)\<rparr>"])
        (use assms in \<open>auto simp: run_execute_def upd_worker_def dget_update settled_def\<close>)
  next
    case (Inr y)
    obtain res h where e: "exec y r (w_task (ps_world s)) = (res, h)" by fastforce
    with assms(4) have h: "t_id (h r) = t_id (w_task (ps_world s) r)" "\<And>r'. r' \<noteq> r \<Longrightarrow> h r' = w_task (ps_world s) r'"
      unfolding exec_local_def by (metis snd_conv)+
    then have ids: "t_id (h r') = t_id (w_task (ps_world s) r')" for r' by (cases "r' = r") auto
    let ?pc = "case res of Inl e \<Rightarrow> Raised r e | Inr u \<Rightarrow> Returned r t"
    have "to_run ?pc = Some r" "in_hand ?pc = Some r" by (auto split: sum.split)
    moreover have "settled s r' \<Longrightarrow> r' \<noteq> r \<Longrightarrow>
        t_status (h r') = Task_COMPLETED \<or> t_status (h r') = Task_FAILED" for r'
      using h(2) by (simp add: settled_def)
    ultimately show ?thesis using Inr Pair e ids
      by (intro keeps_worker [OF assms(1,2), where k' = "k\<lparr>wk_pc := ?pc\<rparr>"])
        (use assms in \<open>auto simp: run_execute_def upd_worker_def dget_update settled_def wext_def\<close>)
  qed
qed

lemma hands_upd_worker:
  assumes "\<And>k. dget (wp_workers (ps_pool s)) wid = Some k \<Longrightarrow>
    in_hand (wk_pc (f k)) = in_hand (wk_pc k) \<and> wk_current_task (f k) = wk_current_task k"
  shows "hands (ps_pool (upd_worker wid f s)) r = hands (ps_pool s) r"
proof (cases "dget (wp_workers (ps_pool s)) wid")
  case (Some k)
  with assms [OF Some] show ?thesis
    unfolding hands_def by (auto simp: dget_upd_worker split: if_splits) (metis option.inject)+
qed (simp add: upd_worker_def)

lemma with_worker_upd_worker:
  assumes "\<And>k. dget (wp_workers (ps_pool s)) wid = Some k \<Longrightarrow> to_run (wk_pc (f k)) = to_run (wk_pc k)"
  shows "with_worker (ps_pool (upd_worker wid f s)) r = with_worker (ps_pool s) r"
proof (cases "dget (wp_workers (ps_pool s)) wid")
  case (Some k)
  with assms [OF Some] show ?thesis
    unfolding with_worker_def by (auto simp: dget_upd_worker split: if_splits) (metis option.inject)+
qed (simp add: upd_worker_def)

lemma with_worker_other:
  assumes "dget (wp_workers (ps_pool s)) wid = Some k" and "to_run (wk_pc k) \<noteq> Some x"
    and "with_worker (ps_pool s) x"
  shows "with_worker (ps_pool (upd_worker wid f s)) x"
proof -
  from assms(3) obtain i k' where i: "dget (wp_workers (ps_pool s)) i = Some k'" "to_run (wk_pc k') = Some x"
    by (auto simp: with_worker_def)
  with assms(1,2) have "i \<noteq> wid" by auto
  with i show ?thesis unfolding with_worker_def dget_upd_worker by auto
qed

lemma run_return_keeps:
  assumes "sys_cfg n s" and "dget (wp_workers (ps_pool s)) wid = Some k" and "wk_pc k = Returned r t"
  shows "keeps n s (run_return None wid r t s)"
proof -
  let ?s1 = "if t_status (w_task (ps_world s) r) \<noteq> Task_FAILED
      then upd_world (upd_task r task_complete) s else s"
  let ?w = "emit_all [TaskCompleted (t_id (w_task (ps_world s) r))] (ps_world ?s1)"
  let ?f = "\<lambda>k. k\<lparr>wk_tasks_processed := wk_tasks_processed k + 1, wk_pc := Cleanup r\<rparr>"
  have eq: "run_return None wid r t s =
      upd_worker wid ?f (upd_pool (on_task_completed (now_of s - t)) (?s1\<lparr>ps_world := ?w\<rparr>))"
    by (simp add: run_return_def Let_def del: emits.simps emit_all.simps)
  have "wext (ps_world s) (ps_world ?s1)" by (simp add: wext_task_status)
  then have ext: "wext (ps_world s) ?w" by (rule wext_trans [OF _ wext_emit_all])
  have same: "ps_pool ?s1 = ps_pool s" "sc_queue ?s1 = sc_queue s" "sc_tracker ?s1 = sc_tracker s"
    "sc_triggering ?s1 = sc_triggering s" "sc_dispatching ?s1 = sc_dispatching s" "sc_timeouts ?s1 = sc_timeouts s"
    by simp_all
  have st: "w_task ?w x = w_task (ps_world ?s1) x" for x by simp
  have settle: "settled (run_return None wid r t s) x" if "settled s x \<or> x = r" for x
    using that unfolding eq settled_def by (auto simp: task_complete_def)
  show ?thesis
    by (rule keeps_worker [OF assms(1,2), where k' = "?f k"])
      (use assms ext settle in \<open>auto simp: eq same dget_upd_worker on_task_completed_def\<close>)
qed

lemma run_finally_keeps:
  assumes "sys_cfg n s" and "pool_ok (ps_pool s)" and "dget (wp_workers (ps_pool s)) wid = Some k"
    and "wk_pc k = Cleanup r"
  shows "keeps n s (run_finally wid s)"
  unfolding run_finally_pool [OF assms(2,3,4)]
  by (rule keeps_worker [OF assms(1,3), where k' = "(if wk_stop_event k then k else k\<lparr>wk_state := W_IDLE\<rparr>)
        \<lparr>wk_current_task := None, wk_task_start_time := None, wk_heartbeat_time := now_of s, wk_pc := Polling\<rparr>"])
    (use assms in \<open>auto simp: dget_upd_worker\<close>)

text \<open>
  The handler of an exception: the task is failed, and the failure is final unless the callback puts
  the task back.
\<close>

lemma run_raise_keeps:
  assumes cfg: "sys_cfg n s" and ok: "pool_ok (ps_pool s)" and k: "dget (wp_workers (ps_pool s)) wid = Some k"
    and pc: "wk_pc k = Raised r e"
  shows "keeps n s (run_raise (Some (handle_task_failure fromiso)) wid r e s)"
proof -
  have cur: "wk_current_task k = Some r" using pool_okD(1) [OF ok k] pc by (simp add: worker_ok_def)
  then have "held s r" using k unfolding held_def hands_def by blast
  then have r: "r < n" using cfg unfolding sys_cfg_def by blast
  let ?s1 = "if t_status (w_task (ps_world s) r) \<noteq> Task_FAILED
      then upd_world (upd_task r task_fail) s else s"
  let ?s2 = "upd_pool (\<lambda>p. p\<lparr>wp_tasks_failed := wp_tasks_failed p + 1\<rparr>) ?s1"
  let ?s3 = "snd (handle_task_failure fromiso r e ?s2)"
  let ?f = "\<lambda>k. k\<lparr>wk_failures := wk_failures k + 1, wk_pc := Cleanup r\<rparr>"
  have eq: "run_raise (Some (handle_task_failure fromiso)) wid r e s = upd_worker wid ?f ?s3"
    using k cur by (simp add: run_raise_def Let_def on_task_failed_def)
  have cfg1: "sys_cfg n ?s1" using cfg by (simp add: sys_cfg_world wext_task_status)
  then have "sys_cfg n ?s2" by (auto simp: sys_cfg_def held_def hands_def)
  then have a: "adds n r ?s2 ?s3" using r by (rule handle_task_failure_adds)
  have same: "ps_pool ?s1 = ps_pool s" "placed ?s1 x = placed s x" "waiting ?s1 x = waiting s x"
    "sc_triggering ?s1 = sc_triggering s" "sc_dispatching ?s1 = sc_dispatching s" for x by simp_all
  have pool: "wp_workers (ps_pool ?s3) = wp_workers (ps_pool s)"
    "wp_task_queue (ps_pool ?s3) = wp_task_queue (ps_pool s)"
    using a by (simp_all add: adds_def same)
  have fin: "sys_cfg n (upd_worker wid ?f ?s3)"
  proof -
    have "hands (ps_pool (upd_worker wid ?f ?s3)) x = hands (ps_pool ?s3) x" for x
      by (rule hands_upd_worker) (use k pc pool(1) in auto)
    then have "held (upd_worker wid ?f ?s3) x \<Longrightarrow> held ?s3 x" for x unfolding held_def by simp
    with a show ?thesis unfolding adds_def sys_cfg_def by auto
  qed
  have ext: "wext (ps_world s) (ps_world (upd_worker wid ?f ?s3))"
    using a unfolding adds_def by (auto intro: wext_trans wext_task_status)
  have "accounted (upd_worker wid ?f ?s3) x" if "accounted s x" for x
  proof (cases "x = r")
    case True
    have "t_status (w_task (ps_world ?s2) r) = Task_FAILED" by (simp add: task_fail_def)
    with a have "placed ?s3 r \<or> settled ?s3 r" by (auto simp: adds_def settled_def)
    with True show ?thesis by (auto simp: accounted_def waiting_def placed_def)
  next
    case False
    have "accounted ?s2 x" using that False by (auto simp: accounted_def settled_def waiting_def placed_def with_worker_def)
    with a have "accounted ?s3 x" by (rule adds_accounted)
    moreover have "with_worker (ps_pool ?s3) x \<Longrightarrow> with_worker (ps_pool (upd_worker wid ?f ?s3)) x"
      by (rule with_worker_other [where k = k]) (use False k pc pool(1) in auto)
    ultimately show ?thesis by (auto simp: accounted_def waiting_def)
  qed
  with fin ext show ?thesis unfolding eq keeps_def by blast
qed

lemma worker_section_keeps:
  assumes "sys_cfg n s" and "pool_ok (ps_pool s)" and "exec_local exec"
  shows "keeps n s (worker_section caps fuel exec (Some (handle_task_failure fromiso)) None wid s)"
  using assms keeps_refl run_head_keeps run_get_keeps run_begin_keeps run_execute_keeps run_return_keeps
    run_raise_keeps run_finally_keeps
  by (auto simp: worker_section_def split: option.split worker_pc.split)

section \<open>The steps of the scheduler\<close>

lemma dispatch_keeps:
  assumes cfg: "sys_cfg n s" and free: "sc_dispatching s = None"
  shows "keeps n s (dispatch s)"
proof -
  obtain res q w where d: "dequeue (sc_queue s) (ps_world s) = (res, q, w)" by (metis prod.exhaust)
  have "queue_cfg (w_task (ps_world s)) n (sc_queue s)" using cfg by (simp add: sys_cfg_def)
  note deq = dequeue_cfg [OF this d]
  have ids: "ids_ok (w_task w) n" using cfg deq(3) by (simp add: sys_cfg_def)
  show ?thesis
  proof (cases "idle_workers (ps_pool s) \<noteq> [] \<and> \<not> is_empty (sc_queue s)")
    case True
    let ?s = "case res of Inl e \<Rightarrow> s\<lparr>sc_queue := q, ps_world := w\<rparr>
        | Inr r \<Rightarrow> s\<lparr>sc_queue := q, ps_world := w, sc_dispatching := Some r\<rparr>"
    have eq: "dispatch s = ?s" using True d by (auto simp: dispatch_def split: sum.split)
    have "held ?s r \<Longrightarrow> r < n" for r
      using cfg deq(5) free by (cases res) (auto simp: sys_cfg_def held_def)
    then have "sys_cfg n ?s" using deq(1) ids by (cases res) (simp_all add: sys_cfg_def)
    moreover have "accounted s r \<Longrightarrow> accounted ?s r" for r
      using deq(3) deq(4) [of r] free by (cases res) (auto simp: accounted_def waiting_def settled_def)
    ultimately show ?thesis unfolding eq keeps_def using deq(2) by (cases res) auto
  qed (use keeps_refl [OF cfg] in \<open>auto simp: dispatch_def\<close>)
qed

lemma hand_over_keeps:
  assumes cfg: "sys_cfg n s" and run: "sc_dispatching s = None \<or> wp_started (ps_pool s)"
  shows "keeps n s (hand_over s)"
proof (cases "sc_dispatching s")
  case (Some r)
  with cfg have "r < n" by (simp add: sys_cfg_def held_def)
  let ?s = "hand_over s"
  have eq: "ps_pool ?s = (ps_pool s)\<lparr>wp_task_queue := wp_task_queue (ps_pool s) @ [r], wp_unfinished := wp_unfinished (ps_pool s) + 1\<rparr>"
    "sc_queue ?s = sc_queue s" "sc_tracker ?s = sc_tracker s" "sc_triggering ?s = sc_triggering s"
    "sc_timeouts ?s = sc_timeouts s" "sc_dispatching ?s = None" "ps_world ?s = ps_world s"
    using Some run by (simp_all add: hand_over_def pool_submit_def upd_pool_def)
  have "held ?s x \<Longrightarrow> held s x" for x using Some by (auto simp: held_def eq hands_def)
  with cfg have "sys_cfg n ?s" unfolding sys_cfg_def eq by blast
  moreover have "accounted s x \<Longrightarrow> accounted ?s x" for x
    using Some by (auto simp: accounted_def waiting_def settled_def eq with_worker_def)
  ultimately show ?thesis by (simp add: keeps_def eq)
qed (use keeps_refl [OF cfg] in \<open>simp add: hand_over_def\<close>)

lemma tracker_pop_keeps:
  assumes cfg: "sys_cfg n s" and inv: "tracker_inv (sc_tracker s)"
  shows "keeps n s (tracker_pop s)"
proof -
  obtain rs d where d: "release_due (now_of s) (sc_tracker s) = (rs, d)" by fastforce
  let ?h = "dt_heap (sc_tracker s)"
  have rs: "set rs = (\<lambda>e. snd (snd e)) ` {e \<in> set ?h. fst e \<le> now_of s}"
    unfolding release_due_spec(1) [OF inv d] by auto
  have rest: "set (dt_heap d) = {e \<in> set ?h. now_of s < fst e}"
    using arg_cong [OF release_due_spec(2) [OF inv d], of set_mset] by simp
  have "set ?h = {e \<in> set ?h. fst e \<le> now_of s} \<union> {e \<in> set ?h. now_of s < fst e}" by auto
  then have split: "delayed (sc_tracker s) x \<longleftrightarrow> x \<in> set rs \<or> delayed d x" for x
    unfolding delayed_def rs rest by (metis (no_types, lifting) Un_iff image_Un)
  have eq: "tracker_pop s = s\<lparr>sc_tracker := d, sc_triggering := sc_triggering s @ rs\<rparr>"
    using d by (simp add: tracker_pop_def)
  have "held (tracker_pop s) x = held s x" for x unfolding eq held_def by (auto simp: split)
  then have "sys_cfg n (tracker_pop s)" using cfg by (auto simp: sys_cfg_def eq)
  moreover have "accounted s x \<Longrightarrow> accounted (tracker_pop s) x" for x
    unfolding eq accounted_def waiting_def settled_def by (auto simp: split)
  ultimately show ?thesis by (simp add: keeps_def eq)
qed

lemma tracker_trigger_keeps:
  assumes cfg: "sys_cfg n s"
  shows "keeps n s (tracker_trigger fromiso s)"
proof (cases "sc_triggering s")
  case (Cons r rs)
  let ?s = "s\<lparr>sc_triggering := rs\<rparr>" let ?s' = "on_delayed_task_ready fromiso r ?s"
  have r: "r < n" using cfg Cons by (simp add: sys_cfg_def held_def)
  have "sys_cfg n ?s" using cfg Cons by (auto simp: sys_cfg_def held_def)
  note a = on_delayed_adds [OF this r, of fromiso]
  have "accounted s x \<Longrightarrow> accounted ?s' x" for x
  proof -
    assume "accounted s x"
    then have "accounted ?s x \<or> x = r" using Cons by (auto simp: accounted_def waiting_def settled_def)
    then show ?thesis
    proof
      assume "accounted ?s x"
      with a show ?thesis by (blast intro: adds_accounted)
    next
      assume "x = r"
      with a show ?thesis by (simp add: accounted_def placed_waiting)
    qed
  qed
  with a Cons show ?thesis by (auto simp: tracker_trigger_def keeps_def adds_def)
qed (use keeps_refl [OF cfg] in \<open>simp add: tracker_trigger_def\<close>)

lemma keeps_pointwise:
  assumes "sys_cfg n s" and "ps_world s' = ps_world s" and "sc_queue s' = sc_queue s"
    and "\<And>r. held s' r \<Longrightarrow> held s r" and "\<And>r. waiting s r \<Longrightarrow> waiting s' r"
  shows "keeps n s s'"
  using assms unfolding keeps_def sys_cfg_def accounted_def settled_def by auto

lemma snapshot_keeps:
  assumes "sys_cfg n s"
  shows "keeps n s (s\<lparr>sc_timeouts := monitor_snapshot t p (sc_timeouts s)\<rparr>)"
  by (rule keeps_pointwise [OF assms]) (auto simp: held_def waiting_def monitor_snapshot_def)

lemma check_keeps:
  assumes "sys_cfg n s"
  shows "keeps n s (s\<lparr>sc_timeouts := monitor_check (w_task (ps_world s)) (ps_pool s) (sc_timeouts s)\<rparr>)"
proof (rule keeps_pointwise [OF assms])
  let ?m = "monitor_check (w_task (ps_world s)) (ps_pool s) (sc_timeouts s)"
  have "tmo_pc ?m = M_expired now wid r wids \<Longrightarrow> held s r" for now wid r wids
    unfolding monitor_check_def held_def hands_def
    by (auto split: monitor_pc.splits list.splits option.splits if_splits)
  then show "held (s\<lparr>sc_timeouts := ?m\<rparr>) r \<Longrightarrow> held s r" for r
    unfolding held_def [of "s\<lparr>sc_timeouts := ?m\<rparr>"] by (auto simp: held_def)
qed (simp_all add: waiting_def)

lemma expire_keeps:
  assumes cfg: "sys_cfg n s" and pc: "tmo_pc (sc_timeouts s) = M_expired now wid r wids"
  shows "keeps n s (monitor_expire (handle_task_timeout fromiso) wid r
      (s\<lparr>sc_timeouts := (sc_timeouts s)\<lparr>tmo_pc := M_scanning now wids\<rparr>\<rparr>))"
proof -
  let ?s0 = "s\<lparr>sc_timeouts := (sc_timeouts s)\<lparr>tmo_pc := M_scanning now wids\<rparr>\<rparr>"
  let ?s1 = "upd_world (upd_task r task_fail) (upd_worker wid (\<lambda>k. k\<lparr>wk_task_start_time := None\<rparr>) ?s0)"
  let ?t = "w_task (ps_world ?s1) r"
  let ?s2 = "upd_world (\<lambda>w. emit (TimeoutTriggered (t_id ?t) (timeout_limit_of ?t)) (emit (TaskTimedOut (t_id ?t)) w))
      (upd_pool (\<lambda>p. p\<lparr>wp_tasks_failed := wp_tasks_failed p + 1\<rparr>) ?s1)"
  let ?s3 = "snd (handle_task_failure fromiso r timeout_error ?s2)"
  have eq: "monitor_expire (handle_task_timeout fromiso) wid r ?s0 = ?s3"
    by (simp add: monitor_expire_def handle_task_timeout_def Let_def)
  have r: "r < n" using cfg pc by (auto simp: sys_cfg_def held_def)
  let ?u = "upd_worker wid (\<lambda>k. k\<lparr>wk_task_start_time := None\<rparr>) ?s0"
  have "hands (ps_pool ?s2) x = hands (ps_pool ?u) x" "with_worker (ps_pool ?s2) x = with_worker (ps_pool ?u) x" for x
    by (simp_all add: hands_def with_worker_def)
  moreover have "hands (ps_pool ?u) x = hands (ps_pool ?s0) x" for x by (rule hands_upd_worker) simp
  moreover have "with_worker (ps_pool ?u) x = with_worker (ps_pool ?s0) x" for x by (rule with_worker_upd_worker) simp
  ultimately have hands: "hands (ps_pool ?s2) x = hands (ps_pool s) x"
    "with_worker (ps_pool ?s2) x = with_worker (ps_pool s) x" for x by simp_all
  have held: "held ?s2 x \<Longrightarrow> held s x" for x unfolding held_def hands by auto
  have ext: "wext (ps_world s) (ps_world ?s2)"
    by (auto intro: wext_trans [OF wext_task_status(3) wext_emit_emit])
  have "queue_cfg (w_task (ps_world ?s2)) n (sc_queue ?s2)" "ids_ok (w_task (ps_world ?s2)) n"
    using cfg ext queue_cfg_ext ids_ok_ext unfolding sys_cfg_def by fastforce+
  then have "sys_cfg n ?s2" using cfg held unfolding sys_cfg_def by blast
  then have a: "adds n r ?s2 ?s3" using r by (rule handle_task_failure_adds)
  have "accounted ?s3 x" if "accounted s x" for x
  proof -
    have "accounted ?s2 x"
      using that unfolding accounted_def waiting_def hands settled_def
      by (auto simp: task_fail_def)
    with a show ?thesis by (rule adds_accounted)
  qed
  moreover have "sys_cfg n ?s3" "wext (ps_world s) (ps_world ?s3)"
    using a ext unfolding adds_def by (auto intro: wext_trans)
  ultimately show ?thesis unfolding eq keeps_def by blast
qed

section \<open>Supervision, start and stop\<close>

lemma keeps_pool:
  assumes cfg: "sys_cfg n s" and ext: "wext (ps_world s) (ps_world s')" and task: "w_task (ps_world s') = w_task (ps_world s)"
    and same: "sc_queue s' = sc_queue s" "dt_heap (sc_tracker s') = dt_heap (sc_tracker s)"
      "sc_triggering s' = sc_triggering s" "sc_dispatching s' = sc_dispatching s"
      "tmo_pc (sc_timeouts s') = tmo_pc (sc_timeouts s)"
      "wp_task_queue (ps_pool s') = wp_task_queue (ps_pool s)"
    and less: "\<And>x. hands (ps_pool s') x \<Longrightarrow> hands (ps_pool s) x"
    and more: "\<And>x. with_worker (ps_pool s) x \<Longrightarrow> with_worker (ps_pool s') x"
  shows "keeps n s s'"
proof -
  have d: "delayed (sc_tracker s') x = delayed (sc_tracker s) x" for x by (simp add: delayed_def same)
  have "held s' x \<Longrightarrow> held s x" for x using less unfolding held_def same d by auto
  then have "sys_cfg n s'" using cfg unfolding sys_cfg_def same task by blast
  moreover have "accounted s x \<Longrightarrow> accounted s' x" for x
    using more unfolding accounted_def waiting_def settled_def same task d by auto
  ultimately show ?thesis using ext by (simp add: keeps_def)
qed

lemma restart_failed_workers:
  assumes "wf_dict kvs" and "\<forall>(i, k) \<in> set kvs. dget ws i = Some k"
    and "restart_failed now kvs (ws, w) = (ws', w')"
  shows "dget ws' i = (case dget kvs i of
      Some k \<Rightarrow> if wk_state k = W_FAILED then Some (fresh_worker now i) else dget ws i
    | None \<Rightarrow> dget ws i) \<and> wext w w' \<and> w_task w' = w_task w"
  using assms
proof (induction kvs arbitrary: ws w)
  case (Cons a kvs)
  obtain j k where a: "a = (j, k)" by fastforce
  with Cons.prems have wf: "wf_dict kvs" and new: "j \<notin> set (dkeys kvs)" by (auto simp: wf_dict_def)
  let ?ws = "if wk_state k = W_FAILED then dset j (fresh_worker now j) ws else ws"
  let ?w = "if wk_state k = W_FAILED
      then emit (WorkerRecovered j) (emit (WorkerFailed j ''Worker thread crashed'') w) else w"
  have "\<forall>(i, v) \<in> set kvs. dget ?ws i = Some v"
    using Cons.prems(2) a new by (force simp: dget_update)
  moreover have "restart_failed now kvs (?ws, ?w) = (ws', w')"
    using Cons.prems(3) a by (auto simp: fresh_worker_def)
  ultimately have "dget ws' i = (case dget kvs i of
      Some k \<Rightarrow> if wk_state k = W_FAILED then Some (fresh_worker now i) else dget ?ws i
    | None \<Rightarrow> dget ?ws i) \<and> wext ?w w' \<and> w_task w' = w_task ?w"
    by (rule Cons.IH [OF wf])
  moreover have "wext w ?w" by simp
  moreover have "dget kvs j = None" using new by (simp add: dget_None_iff)
  ultimately show ?case using a
    by (auto simp: dget_update intro: wext_trans split: option.split)
qed simp

lemma supervise_keeps:
  assumes cfg: "sys_cfg n s" and ok: "pool_ok (ps_pool s)"
  shows "keeps n s (supervise s)"
proof (cases "wp_started (ps_pool s)")
  case True
  let ?ws = "wp_workers (ps_pool s)"
  obtain ws w where r: "restart_failed (now_of s) ?ws (?ws, ps_world s) = (ws, w)" by fastforce
  have wf: "wf_dict ?ws" using ok by (simp add: pool_ok_def)
  then have "\<forall>(i, k) \<in> set ?ws. dget ?ws i = Some k" by (auto simp: wf_dict_def)
  note look = restart_failed_workers [OF wf this r]
  have eq: "supervise s = s\<lparr>ps_pool := (ps_pool s)\<lparr>wp_workers := ws\<rparr>, ps_world := w\<rparr>"
    using True r by (simp add: supervise_def)
  have fresh: "wk_current_task (fresh_worker t i) = None" for t i
    by (simp add: fresh_worker_def worker_start_def worker_init_def)
  have failed: "wk_pc k = Exited" if "dget ?ws i = Some k" "wk_state k = W_FAILED" for i k
    using pool_okD(1) [OF ok that(1)] that(2) by (auto simp: worker_ok_def split: if_splits)
  show ?thesis
  proof (rule keeps_pool [OF cfg])
    show "hands (ps_pool (supervise s)) x \<Longrightarrow> hands (ps_pool s) x" for x
      unfolding eq hands_def using look by (auto simp: fresh split: option.splits if_splits)
    show "with_worker (ps_pool (supervise s)) x" if w: "with_worker (ps_pool s) x" for x
    proof -
      from w obtain i k where i: "dget ?ws i = Some k" "to_run (wk_pc k) = Some x" by (auto simp: with_worker_def)
      with failed have "wk_state k \<noteq> W_FAILED" by fastforce
      with look [of i] i have "dget ws i = Some k" by simp
      with i show ?thesis by (auto simp: eq with_worker_def)
    qed
  qed (use look in \<open>simp_all add: eq\<close>)
qed (use keeps_refl [OF cfg] in \<open>simp add: supervise_def\<close>)

lemma dget_stopped: "dget (dmap worker_stop ws) i = map_option worker_stop (dget ws i)"
  by (rule dget_dmap)

lemma ex_stopped:
  "(\<exists>i k. dget (dmap worker_stop ws) i = Some k \<and> P k) \<longleftrightarrow> (\<exists>i k. dget ws i = Some k \<and> P (worker_stop k))"
  unfolding dget_stopped map_option_eq_Some by blast

lemma worker_stop_current: "wk_current_task (worker_stop k) = wk_current_task k"
  by (simp add: worker_stop_def)

lemma stop_signal_hands:
  "hands (ps_pool (pool_stop_signal s)) x = hands (ps_pool s) x"
  "with_worker (ps_pool (pool_stop_signal s)) x = with_worker (ps_pool s) x"
  by (simp_all add: hands_def with_worker_def pool_stop_signal_def ex_stopped worker_stop_ok worker_stop_current)

lemma stop_signal_frame [simp]:
  "ps_world (pool_stop_signal s) = ps_world s" "sc_queue (pool_stop_signal s) = sc_queue s"
  "sc_tracker (pool_stop_signal s) = sc_tracker s" "sc_triggering (pool_stop_signal s) = sc_triggering s"
  "sc_dispatching (pool_stop_signal s) = sc_dispatching s" "sc_timeouts (pool_stop_signal s) = sc_timeouts s"
  "wp_task_queue (ps_pool (pool_stop_signal s)) = wp_task_queue (ps_pool s)"
  by (simp_all add: pool_stop_signal_def)

lemma runtime_stop_pool_keeps:
  assumes cfg: "sys_cfg n s"
  shows "keeps n s (runtime_stop_pool s)"
proof (rule keeps_pool [OF cfg])
  show "hands (ps_pool (runtime_stop_pool s)) x \<Longrightarrow> hands (ps_pool s) x"
    "with_worker (ps_pool s) x \<Longrightarrow> with_worker (ps_pool (runtime_stop_pool s)) x" for x
    by (simp_all add: runtime_stop_pool_def runtime_stop_done_def stop_signal_hands split: if_splits)
qed (simp_all add: runtime_stop_pool_def runtime_stop_done_def)

lemma runtime_stop_keeps:
  assumes cfg: "sys_cfg n s"
  shows "keeps n s (runtime_stop s)"
proof (cases "sc_started s")
  case True
  show ?thesis
    by (rule keeps_pool [OF cfg])
      (use True in \<open>auto simp: runtime_stop_def scheduler_stop_signal_def tracker_stop_def timeout_stop_def
        hands_def with_worker_def\<close>)
qed (use runtime_stop_pool_keeps [OF cfg] in \<open>simp add: runtime_stop_def\<close>)

lemma keeps_trans: "keeps n s s' \<Longrightarrow> keeps n s' s'' \<Longrightarrow> keeps n s s''"
  unfolding keeps_def by (blast intro: wext_trans)

lemma keeps_world:
  assumes "sys_cfg n s" and "wext (ps_world s) (f (ps_world s))" and "w_task (f (ps_world s)) = w_task (ps_world s)"
  shows "keeps n s (upd_world f s)"
  by (rule keeps_pool [OF assms(1)]) (use assms in auto)

lemma runtime_stop_scheduler_joined_keeps:
  assumes cfg: "sys_cfg n s"
  shows "keeps n s (runtime_stop_scheduler_joined s)"
proof -
  have "keeps n s (scheduler_stop_log s)"
    unfolding scheduler_stop_log_def by (rule keeps_world [OF cfg]) simp_all
  moreover from this have "keeps n (scheduler_stop_log s) (runtime_stop_scheduler_joined s)"
    unfolding runtime_stop_scheduler_joined_def by (intro runtime_stop_pool_keeps) (simp add: keeps_def)
  ultimately show ?thesis by (rule keeps_trans)
qed

lemma runtime_stop_pool_joined_keeps:
  assumes cfg: "sys_cfg n s"
  shows "keeps n s (runtime_stop_pool_joined s)"
proof -
  have "wext (ps_world s) (ps_world (runtime_stop_pool_joined s))"
    by (auto simp: runtime_stop_pool_joined_def runtime_stop_done_def pool_stop_log_def upd_world_def
        intro: wext_trans [OF wext_emit_all wext_emit])
  then show ?thesis
    by (intro keeps_pool [OF cfg])
      (auto simp: runtime_stop_pool_joined_def runtime_stop_done_def pool_stop_log_def upd_world_def)
qed

lemma pool_start_keeps:
  assumes cfg: "sys_cfg n s" and ok: "runtime_ok s" and quiet: "wp_started (ps_pool s) \<or> pool_stop_joined s"
  shows "keeps n s (pool_start s)"
proof (cases "wp_started (ps_pool s)")
  case False
  have new: "wp_workers (ps_pool (pool_start s)) = fresh_pool (now_of s) (wp_size (ps_pool s))"
    using ok False by (intro pool_start_workers) (simp_all add: runtime_ok_def)
  have old: "wk_pc k = Exited" if "dget (wp_workers (ps_pool s)) i = Some k" for i k
    using quiet False that unfolding pool_stop_joined_def worker_joinable_def list_all_iff
    by (force dest: map_of_SomeD)
  have "hands (ps_pool (pool_start s)) x \<Longrightarrow> False" for x
    unfolding hands_def new fresh_pool_def
    by (auto simp: fresh_worker_def worker_start_def worker_init_def dest!: map_of_SomeD)
  moreover have "with_worker (ps_pool s) x \<Longrightarrow> False" for x
    by (auto simp: with_worker_def dest: old)
  ultimately show ?thesis
    by (intro keeps_pool [OF cfg]) (auto simp: pool_start_def Let_def)
qed (use keeps_refl [OF cfg] in \<open>simp add: pool_start_def\<close>)

lemma runtime_start_keeps:
  assumes cfg: "sys_cfg n s" and ok: "runtime_ok s" and quiet: "wp_started (ps_pool s) \<or> pool_stop_joined s"
  shows "keeps n s (runtime_start s)"
proof -
  have 1: "keeps n s (pool_start s)" by (rule pool_start_keeps [OF assms])
  let ?s = "pool_start s"
  have pool: "ps_pool (runtime_start s) = ps_pool ?s" by (simp add: runtime_start_def scheduler_start_def)
  have "wext (ps_world ?s) (ps_world (runtime_start s))" by (simp add: runtime_start_def scheduler_start_def)
  moreover have "sys_cfg n ?s" using 1 by (simp add: keeps_def)
  moreover have "w_task (ps_world (runtime_start s)) = w_task (ps_world ?s)" "sc_queue (runtime_start s) = sc_queue ?s"
    "dt_heap (sc_tracker (runtime_start s)) = dt_heap (sc_tracker ?s)" "sc_triggering (runtime_start s) = sc_triggering ?s"
    "sc_dispatching (runtime_start s) = sc_dispatching ?s" "tmo_pc (sc_timeouts (runtime_start s)) = tmo_pc (sc_timeouts ?s)"
    by (simp_all add: runtime_start_def scheduler_start_def tracker_start_def timeout_start_def)
  ultimately have "keeps n ?s (runtime_start s)"
    by (intro keeps_pool) (simp_all only: pool)
  with 1 show ?thesis by (rule keeps_trans)
qed

section \<open>Submission\<close>

definition default_admission :: "('l, 'x, 'z) sched_sys_scheme \<Rightarrow> bool" where
  "default_admission s \<longleftrightarrow>
     (case sc_admission s of None \<Rightarrow> True | Some c \<Rightarrow> ac_plugins c = ac_plugins default_controller)"

lemma admit_default:
  assumes "default_admission s" and "admit render r s = (res, s')"
  shows "(res = Inr r \<or> (\<exists>e. res = Inl e)) \<and> (\<exists>f. s' = upd_world f s \<and> wext (ps_world s) (f (ps_world s)) \<and>
    (\<forall>x. t_status (w_task (f (ps_world s)) x) = t_status (w_task (ps_world s) x)))"
proof (cases "sc_admission s")
  case None
  with assms have "res = Inr r" "s' = upd_world id s" by (auto simp: admit_def upd_world_def)
  then show ?thesis by (intro conjI exI [of _ id]) auto
next
  case (Some c)
  then have "c = default_controller" using assms(1) by (simp add: default_admission_def)
  then obtain h where h: "admission_submit render default_controller r (w_task (ps_world s)) = (res, h)"
    and s': "s' = upd_world (\<lambda>w. w\<lparr>w_task := h\<rparr>) s"
    using assms(2) Some by (auto simp: admit_def split: prod.splits)
  note d = admission_default [OF h]
  have "t_id (h x) = t_id (w_task (ps_world s) x)" "t_status (h x) = t_status (w_task (ps_world s) x)" for x
    using d(2,3,5) by (cases "x = r"; simp)+
  then show ?thesis using d(1) s' by (intro conjI exI [of _ "\<lambda>w. w\<lparr>w_task := h\<rparr>"]) (auto simp: wext_def)
qed

lemma schedule_keeps:
  assumes cfg: "sys_cfg n s" and r: "r < n" and adm: "default_admission s"
    and e: "schedule en r d s = (res, s')"
  shows "keeps n s s'" and "res = Inr () \<Longrightarrow> accounted s' r"
proof -
  obtain ans s1 where a: "admit (en_render en) r s = (ans, s1)" by fastforce
  from admit_default [OF adm a] obtain f where ans: "ans = Inr r \<or> (\<exists>e. ans = Inl e)"
    and s1: "s1 = upd_world f s" and ext: "wext (ps_world s) (f (ps_world s))"
    and st: "\<And>x. t_status (w_task (f (ps_world s)) x) = t_status (w_task (ps_world s) x)" by blast
  have cfg1: "sys_cfg n s1" unfolding s1 using cfg ext by (rule sys_cfg_world)
  have k1: "keeps n s s1" using cfg1 ext st by (auto simp: keeps_def s1 accounted_def settled_def)
  have k2: "adds n r s1 s2 \<Longrightarrow> keeps n s s2" for s2
    by (rule keeps_trans [OF k1 adds_keeps])
  have "keeps n s s' \<and> (res = Inr () \<longrightarrow> accounted s' r)"
  proof (cases ans)
    case (Inl x)
    with e a k1 show ?thesis by (auto simp: schedule_def)
  next
    case (Inr r')
    with ans have r': "r' = r" by simp
    show ?thesis
    proof (cases "d > 0")
      case True
      note add = sys_add_delayed_adds [OF cfg1 r, of "en_fromiso en" d]
      let ?s2 = "upd_world (emit (RetryScheduled (t_id (w_task (ps_world s1) r)) d)) (sys_add_delayed (en_fromiso en) r d s1)"
      have "s' = ?s2" using e a Inr r' True by (simp add: schedule_def)
      with add show ?thesis
        by (auto simp: accounted_def intro!: k2 adds_world placed_waiting)
    next
      case False
      then have "sys_enqueue (en_fromiso en) r s1 = (res, s')" using e a Inr r' by (simp add: schedule_def)
      with sys_enqueue_adds [OF cfg1 r] show ?thesis
        by (auto simp: accounted_def intro!: k2 placed_waiting)
    qed
  qed
  then show "keeps n s s'" and "res = Inr () \<Longrightarrow> accounted s' r" by blast+
qed

lemma log_submitted_frame:
  "log_submitted t w = (res, w') \<Longrightarrow> w_task w' = w_task w \<and> wext w w'"
  by (auto simp: log_submitted_def Let_def wext_def split: option.splits if_splits)

text \<open>The configuration of the runtime as a whole: ids are drawn from a stream without repetitions.\<close>

definition rt_cfg :: "('l, 'x) runtime_sys \<Rightarrow> bool" where
  "rt_cfg s \<longleftrightarrow> runtime_ok s \<and> sys_cfg (rt_next s) s \<and> default_admission s \<and> inj (w_uuid (ps_world s)) \<and>
     (\<forall>m \<ge> w_drawn (ps_world s). \<forall>r < rt_next s. t_id (w_task (ps_world s) r) \<noteq> w_uuid (ps_world s) m)"

lemma rt_cfg_init: "inj (w_uuid w) \<Longrightarrow> rt_cfg (runtime_init w g)"
  using runtime_ok_init [of w g]
  by (auto simp: rt_cfg_def sys_cfg_def runtime_init_def queue_cfg_def queue_init_def ids_ok_def held_def
      delayed_def tracker_init_def timeout_init_def hands_def pool_init_def fifo_init_def default_admission_def)

lemma rt_cfg_keeps:
  assumes "rt_cfg s" and "runtime_ok s'" and "keeps (rt_next s) s s'" and "rt_next s' = rt_next s"
    and "sc_admission s' = sc_admission s"
  shows "rt_cfg s'"
proof -
  have ext: "wext (ps_world s) (ps_world s')" and "sys_cfg (rt_next s) s'" using assms(3) by (simp_all add: keeps_def)
  with assms show ?thesis unfolding rt_cfg_def default_admission_def wext_def by auto
qed

lemma submit_keeps:
  assumes cfg: "rt_cfg s" and e: "submit_task en title ty md d s = (res, s')"
  shows "rt_cfg s' \<and> rt_next s \<le> rt_next s' \<and> (\<forall>r < rt_next s. accounted s r \<longrightarrow> accounted s' r) \<and>
    (\<forall>r. res = Inr r \<longrightarrow> r = rt_next s \<and> rt_next s' = Suc r \<and> accounted s' r)"
proof -
  let ?w = "ps_world s" and ?n = "rt_next s"
  have ok: "runtime_ok s'"
    using rt_step_ok [OF rt_step.rt_submit [OF e, of True]] cfg by (simp add: rt_cfg_def)
  from cfg have sys: "sys_cfg ?n s" and adm: "default_admission s" and inj: "inj (w_uuid ?w)"
    and fresh: "\<And>m r. w_drawn ?w \<le> m \<Longrightarrow> r < ?n \<Longrightarrow> t_id (w_task ?w r) \<noteq> w_uuid ?w m"
    by (auto simp: rt_cfg_def)
  have new: "sys_cfg (Suc ?n) (s\<lparr>rt_next := Suc ?n, rt_tasks := m, ps_world := w\<rparr>) \<and>
      (\<forall>r < ?n. accounted (s\<lparr>rt_next := Suc ?n, rt_tasks := m, ps_world := w\<rparr>) r = accounted s r) \<and>
      w_uuid w = w_uuid ?w \<and> Suc (w_drawn ?w) \<le> w_drawn w \<and>
      (\<forall>k \<ge> Suc (w_drawn ?w). \<forall>r < Suc ?n. t_id (w_task w r) \<noteq> w_uuid ?w k)"
    if t: "t_id t = w_uuid ?w (w_drawn ?w)" and w: "wext (new_task_world t s) w"
      "w_task w = w_task (new_task_world t s)" for t m w
  proof -
    have h: "w_task w = (w_task ?w)(?n := t)" using w by (simp add: new_task_world_def)
    have "queue_cfg (w_task w) (Suc ?n) (sc_queue s)"
      using sys unfolding sys_cfg_def queue_cfg_def h by (force simp: less_Suc_eq)
    moreover have "ids_ok (w_task w) (Suc ?n)"
    proof -
      have "inj_on (\<lambda>r. t_id (w_task w r)) {..<?n}"
        using sys unfolding h sys_cfg_def ids_ok_def by (simp add: inj_on_def)
      moreover have "t_id (w_task w ?n) \<notin> (\<lambda>r. t_id (w_task w r)) ` ({..<?n} - {?n})"
        using fresh [OF order_refl] t by (fastforce simp: h)
      ultimately show ?thesis by (simp add: ids_ok_def lessThan_Suc)
    qed
    moreover have "\<forall>r. held s r \<longrightarrow> r < Suc ?n" using sys by (auto simp: sys_cfg_def less_Suc_eq)
    moreover have "t_id (w_task w r) \<noteq> w_uuid ?w k" if "Suc (w_drawn ?w) \<le> k" "r < Suc ?n" for k r
    proof -
      have "w_uuid ?w (w_drawn ?w) \<noteq> w_uuid ?w k" using that(1) inj by (auto dest: injD)
      with that fresh [of k r] t show ?thesis unfolding h by (auto simp: less_Suc_eq)
    qed
    ultimately show ?thesis
      using w(1) by (auto simp: sys_cfg_def held_def accounted_def waiting_def settled_def h wext_def new_task_world_def)
  qed
  have id: "t_id t = w_uuid ?w (w_drawn ?w)"
    if "task_init (w_uuid ?w (w_drawn ?w)) (w_now ?w) title ty md = Inr t" for t
    using that by (auto simp: task_init_def split: if_splits)
  from e show ?thesis
  proof (cases rule: submit_task_cases)
    case (untitled x)
    have "keeps ?n s s'" unfolding untitled(3) using sys by (intro keeps_world) (simp_all add: wext_def)
    moreover have "rt_next s' = ?n" "sc_admission s' = sc_admission s" by (simp_all add: untitled(3) upd_world_def)
    ultimately show ?thesis using rt_cfg_keeps [OF cfg ok] untitled by (simp add: keeps_def)
  next
    case (duplicate t x)
    have "s' = s\<lparr>rt_next := Suc ?n, rt_tasks := rt_tasks s, ps_world := new_task_world t s\<rparr>"
      using duplicate(4) by simp
    with new [OF id [OF duplicate(1)], of "new_task_world t s" "rt_tasks s"] ok adm inj duplicate(3)
    show ?thesis by (auto simp: rt_cfg_def default_admission_def)
  next
    case (unlogged t m x w)
    from new [OF id [OF unlogged(1)], of w m] log_submitted_frame [OF unlogged(3)] ok adm inj unlogged(4,5)
    show ?thesis by (auto simp: rt_cfg_def default_admission_def)
  next
    case (scheduled t m w ans)
    let ?s = "s\<lparr>rt_next := Suc ?n, rt_tasks := m, ps_world := w\<rparr>"
    note n = new [OF id [OF scheduled(1)], of w m]
    have cfg1: "sys_cfg (Suc ?n) ?s" "\<forall>r < ?n. accounted ?s r = accounted s r" "w_uuid w = w_uuid ?w"
      "\<forall>k \<ge> w_drawn w. \<forall>r < Suc ?n. t_id (w_task w r) \<noteq> w_uuid ?w k"
      using n log_submitted_frame [OF scheduled(3)] by auto
    have "default_admission ?s" using adm by (simp add: default_admission_def)
    note k = schedule_keeps [OF cfg1(1) _ this scheduled(4)]
    have same: "rt_next s' = Suc ?n" "sc_admission s' = sc_admission s"
      using schedule_control [of ?s en ?n d] scheduled(4) by (simp_all add: same_control_def)
    have "rt_cfg s'"
      using k(1) ok cfg1 adm inj same unfolding rt_cfg_def keeps_def default_admission_def wext_def by auto
    with k cfg1(2) same scheduled(5) show ?thesis by (auto simp: keeps_def split: sum.splits)
  qed
qed

section \<open>Every step and every run\<close>

lemma next_frame [simp]:
  "rt_next (upd_world f s) = rt_next s" "sc_admission (upd_world f s) = sc_admission s"
  by (simp_all add: upd_world_def)

lemma step_next:
  "rt_next (runtime_start s) = rt_next s" "sc_admission (runtime_start s) = sc_admission s"
  "rt_next (runtime_stop s) = rt_next s" "sc_admission (runtime_stop s) = sc_admission s"
  "rt_next (runtime_stop_scheduler_joined s) = rt_next s"
  "sc_admission (runtime_stop_scheduler_joined s) = sc_admission s"
  "rt_next (runtime_stop_pool_joined s) = rt_next s" "sc_admission (runtime_stop_pool_joined s) = sc_admission s"
  "rt_next (supervise s) = rt_next s" "sc_admission (supervise s) = sc_admission s"
  "rt_next (dispatch s) = rt_next s" "sc_admission (dispatch s) = sc_admission s"
  "rt_next (hand_over s) = rt_next s" "sc_admission (hand_over s) = sc_admission s"
  "rt_next (tracker_pop s) = rt_next s" "sc_admission (tracker_pop s) = sc_admission s"
  by (simp_all add: runtime_start_def scheduler_start_def pool_start_def Let_def runtime_stop_def
      runtime_stop_pool_def runtime_stop_done_def runtime_stop_scheduler_joined_def scheduler_stop_log_def
      scheduler_stop_signal_def pool_stop_signal_def runtime_stop_pool_joined_def pool_stop_log_def supervise_def
      dispatch_def hand_over_def tracker_pop_def upd_pool_def split: prod.split option.split sum.split)

lemma control_next: "same_control s s' \<Longrightarrow> rt_next s' = rt_next s \<and> sc_admission s' = sc_admission s"
  by (simp add: same_control_def)

lemma trigger_next:
  fixes s :: "('l, 'x) runtime_sys"
  shows "rt_next (tracker_trigger fromiso s) = rt_next s \<and> sc_admission (tracker_trigger fromiso s) = sc_admission s"
proof (cases "sc_triggering s")
  case (Cons r rs)
  with control_next [OF on_delayed_control [of "s\<lparr>sc_triggering := rs\<rparr>" fromiso r]] show ?thesis
    by (simp add: tracker_trigger_def)
qed (simp add: tracker_trigger_def)

lemma expire_next:
  fixes s :: "('l, 'x) runtime_sys"
  shows "rt_next (monitor_expire (handle_task_timeout fromiso) wid r s) = rt_next s \<and>
   sc_admission (monitor_expire (handle_task_timeout fromiso) wid r s) = sc_admission s"
  unfolding monitor_expire_def
  by (rule control_next) (rule same_control_trans [OF _ handle_task_timeout_control], simp)

text \<open>A step other than a submission keeps the configuration and the accounts; so does a submission.\<close>

lemma rt_step_keeps:
  assumes step: "rt_step en False s s'" and cfg: "rt_cfg s" and exec: "exec_local (en_exec en)"
  shows "rt_cfg s' \<and> rt_next s \<le> rt_next s' \<and> (\<forall>r < rt_next s. accounted s r \<longrightarrow> accounted s' r)"
proof (cases "\<exists>title ty md d res. submit_task en title ty md d s = (res, s')")
  case True
  with submit_keeps [OF cfg] show ?thesis by blast
next
  case False
  have ok: "runtime_ok s" and sys: "sys_cfg (rt_next s) s" using cfg by (simp_all add: rt_cfg_def)
  from ok have pool: "pool_ok (ps_pool s)" and trk: "tracker_inv (sc_tracker s)"
    and disp: "sc_dispatching s = None \<or> wp_started (ps_pool s)" by (simp_all add: runtime_ok_def)
  from step False have "(keeps (rt_next s) s s' \<or> (\<exists>t. s' = upd_world (\<lambda>w. w\<lparr>w_now := t\<rparr>) s)) \<and>
      rt_next s' = rt_next s \<and> sc_admission s' = sc_admission s"
  proof cases
    case (rt_worker fault wid)
    then show ?thesis
      using worker_section_keeps [OF sys pool exec]
        control_next [OF worker_section_control [of s "en_caps en" "en_fuel en" "en_exec en" "en_fromiso en" None wid]]
      by auto
  next
    case rt_start
    with runtime_start_keeps [OF sys ok] show ?thesis by (simp add: step_next)
  next
    case rt_stop
    with runtime_stop_keeps [OF sys] show ?thesis by (simp add: step_next)
  next
    case rt_stop_scheduler
    with runtime_stop_scheduler_joined_keeps [OF sys] show ?thesis by (simp add: step_next)
  next
    case rt_stop_pool
    with runtime_stop_pool_joined_keeps [OF sys] show ?thesis by (simp add: step_next)
  next
    case rt_supervise
    with supervise_keeps [OF sys pool] show ?thesis by (simp add: step_next)
  next
    case rt_dispatch
    with dispatch_keeps [OF sys] show ?thesis by (simp add: step_next)
  next
    case rt_hand_over
    with hand_over_keeps [OF sys disp] show ?thesis by (simp add: step_next)
  next
    case rt_pop
    with tracker_pop_keeps [OF sys trk] show ?thesis by (simp add: step_next)
  next
    case rt_trigger
    with tracker_trigger_keeps [OF sys] trigger_next [of "en_fromiso en" s] show ?thesis by simp
  next
    case rt_snapshot
    with snapshot_keeps [OF sys] show ?thesis by simp
  next
    case rt_check
    with check_keeps [OF sys] show ?thesis by simp
  next
    case (rt_expire now wid r wids)
    let ?s = "s\<lparr>sc_timeouts := (sc_timeouts s)\<lparr>tmo_pc := M_scanning now wids\<rparr>\<rparr>"
    from rt_expire(1) expire_keeps [OF sys rt_expire(2)] expire_next [of "en_fromiso en" wid r ?s]
    show ?thesis by simp
  next
    case (rt_tick t)
    then show ?thesis by auto
  qed blast
  then consider (kept) "keeps (rt_next s) s s'" "rt_next s' = rt_next s" "sc_admission s' = sc_admission s"
    | (tick) t where "s' = upd_world (\<lambda>w. w\<lparr>w_now := t\<rparr>) s" by blast
  then show ?thesis
  proof cases
    case kept
    with rt_cfg_keeps [OF cfg rt_step_ok [OF step ok]] show ?thesis by (simp add: keeps_def)
  next
    case tick
    have "sys_cfg (rt_next s) s'" using sys unfolding tick sys_cfg_def by (auto simp: held_def)
    with cfg rt_step_ok [OF step ok] show ?thesis
      by (auto simp: tick rt_cfg_def default_admission_def accounted_def settled_def)
  qed
qed

lemma rt_run_keeps:
  assumes "rt_run en False s s'" and "rt_cfg s" and "exec_local (en_exec en)"
  shows "rt_cfg s' \<and> rt_next s \<le> rt_next s' \<and> (\<forall>r < rt_next s. accounted s r \<longrightarrow> accounted s' r)"
  using assms
proof (induction rule: rt_run.induct)
  case (rt_trans s s' s'')
  with rt_step_keeps [OF rt_trans(2) _ rt_trans(5)] show ?case by fastforce
qed simp

end
