(* ===== verification/Task_Execution.thy ===== *)
theory Task_Execution
  imports Task_Accounting
begin

text \<open>
  How the runtime serves its queue: the path of one task from the queue through the main loop of the
  scheduler and one worker, section by section, and the same for every waiting task. Only the threads
  on the path move; what the other threads may do meanwhile is the matter of \<open>Task_Accounting\<close>.
\<close>

section \<open>One section at a time\<close>

definition turn :: "('l, 'x) env \<Rightarrow> string \<Rightarrow> ('l, 'x) runtime_sys \<Rightarrow> ('l, 'x) runtime_sys" where
  "turn en wid s = worker_section (en_caps en) (en_fuel en) (en_exec en)
     (Some (handle_task_failure (en_fromiso en))) None wid s"

text \<open>
  Where a task on the path has got to: the worker's point, the tasks waiting in the pool, the counts of
  unfinished and completed tasks, the world, the queue and the registry. A worker at its loop head is
  idle, and nobody has told it to stop.
\<close>

definition stage ::
  "string \<Rightarrow> worker_pc \<Rightarrow> tref list \<Rightarrow> nat \<Rightarrow> nat \<Rightarrow> world \<Rightarrow> task_queue \<Rightarrow> ('l, 'x) registry \<Rightarrow>
   ('l, 'x) runtime_sys \<Rightarrow> bool" where
  "stage wid pc rs un n w q g s \<longleftrightarrow>
     (\<exists>k. dget (wp_workers (ps_pool s)) wid = Some k \<and> wk_pc k = pc \<and> \<not> wk_stop_event k \<and>
          (pc = Polling \<longrightarrow> wk_state k = W_IDLE)) \<and>
     wp_started (ps_pool s) \<and> wp_task_queue (ps_pool s) = rs \<and> wp_unfinished (ps_pool s) = un \<and>
     wp_tasks_completed (ps_pool s) = n \<and> ps_world s = w \<and> ps_registry s = g \<and>
     sc_started s \<and> sc_dispatching s = None \<and> sc_queue s = q"

lemma emit_no_store: "w_log w = None \<Longrightarrow> emit k w = w"
  by (simp add: emit_def)

lemma emits_all: "emits None ks w = (None, emit_all ks w)"
proof (induction ks arbitrary: w)
  case (Cons k ks)
  have "w_log w = None \<Longrightarrow> emit_all ks w = w" for w :: world
    by (induction ks) (simp_all add: emit_no_store)
  with Cons show ?case by (simp add: emit_no_store)
qed simp

lemmas turn_defs = turn_def worker_section_def stage_def upd_worker_def upd_pool_def upd_world_def dget_update Let_def

lemma turn_head: "stage wid Polling rs un n w q g s \<Longrightarrow> stage wid Getting rs un n w q g (turn en wid s)"
  by (auto simp: turn_defs run_head_def)

lemma turn_get: "stage wid Getting (r # rs) un n w q g s \<Longrightarrow> stage wid (Fetched r) rs un n w q g (turn en wid s)"
  by (auto simp: turn_defs run_get_def)

lemma turn_begin:
  "stage wid (Fetched r) rs un n w q g s \<Longrightarrow>
   stage wid (Executing r (w_now w)) rs un n
     (upd_task r task_start (emit (WorkerHeartbeat wid (now_iso w)) (emit (TaskStarted (t_id (w_task w r))) w))) q g
     (turn en wid s)"
  by (auto simp: turn_defs run_begin_def emits_all simp del: emits.simps)

lemma turn_execute:
  assumes "stage wid (Executing r t) rs un n w q g s"
    and "get_executor (en_caps en) (en_fuel en) (t_type (w_task w r)) g = (Inr x, g')"
    and "en_exec en x r (w_task w) = (Inr u, h)"
  shows "stage wid (Returned r t) rs un n (w\<lparr>w_task := h\<rparr>) q g' (turn en wid s)"
  using assms by (auto simp: turn_defs run_execute_def)

lemma turn_return:
  assumes "stage wid (Returned r t) rs un n w q g s" and "t_status (w_task w r) \<noteq> Task_FAILED"
  shows "stage wid (Cleanup r) rs un (Suc n)
    (emit (TaskCompleted (t_id (w_task w r))) (upd_task r task_complete w)) q g (turn en wid s)"
  using assms by (auto simp: turn_defs run_return_def emits_all on_task_completed_def simp del: emits.simps)

lemma turn_finally: "stage wid (Cleanup r) rs (Suc un) n w q g s \<Longrightarrow> stage wid Polling rs un n w q g (turn en wid s)"
  by (auto simp: turn_defs run_finally_def)

section \<open>From the queue to the pool\<close>

lemma dispatched:
  assumes "stage wid Polling rs un n w q g s" and "queue_inv q" and "policy_pending (q_policy q) = i # js"
    and "dget (q_storage q) i = Some r" and "t_id (w_task w r) = i"
  obtains q' where "stage wid Polling (rs @ [r]) (Suc un) n (emit (TaskDequeued i) w) q' g (hand_over (dispatch s))"
    and "rt_run en faults s (hand_over (dispatch s))"
    and "queue_inv q'" and "policy_pending (q_policy q') = js" and "q_storage q' = dpop i (q_storage q)"
proof -
  from dequeue_nonempty [OF assms(2,3), of w] assms(4,5) obtain q' where
    q': "dequeue q w = (Inr r, q', emit (TaskDequeued i) w)" "q_storage q' = dpop i (q_storage q)"
      "q_policy q' = snd (policy_next (q_policy q))" by auto
  from assms(1) obtain k where k: "dget (wp_workers (ps_pool s)) wid = Some k" "wk_state k = W_IDLE"
    by (auto simp: stage_def)
  then have "k \<in> set (idle_workers (ps_pool s))"
    by (auto simp: idle_workers_def workers_in_def dest: map_of_SomeD intro: rev_image_eqI)
  then have "idle_workers (ps_pool s) \<noteq> []" by auto
  moreover have "\<not> is_empty q" using assms(4) by (auto simp: is_empty_def)
  ultimately have d: "dispatch s = s\<lparr>sc_queue := q', ps_world := emit (TaskDequeued i) w, sc_dispatching := Some r\<rparr>"
    using assms(1) q'(1) by (auto simp: dispatch_def stage_def)
  have "sc_started s" "sc_dispatching s = None" using assms(1) by (auto simp: stage_def)
  then have "rt_run en faults s (hand_over (dispatch s))"
    by (blast intro: rt_run.rt_trans rt_run.rt_refl rt_step.rt_dispatch rt_step.rt_hand_over)
  moreover have "stage wid Polling (rs @ [r]) (Suc un) n (emit (TaskDequeued i) w) q' g (hand_over (dispatch s))"
    using assms(1) by (auto simp: stage_def hand_over_def d pool_submit_def upd_pool_def)
  moreover have "policy_pending (q_policy q') = js"
    using pol.nxt_pending [OF queue_invD(2) [OF assms(2)]] assms(3) q'(3) by simp
  ultimately show ?thesis using that q'(2) dequeue_inv [OF assms(2) q'(1)] by blast
qed

lemma turn_step: "rt_step en faults s (turn en wid s)"
  unfolding turn_def by (rule rt_step.rt_worker) simp

section \<open>One task\<close>

lemma serve_one:
  assumes s: "stage wid Polling [] un n w q g s" and inv: "queue_inv q" and pend: "policy_pending (q_policy q) = i # js"
    and r: "dget (q_storage q) i = Some r" "t_id (w_task w r) = i"
    and found: "get_executor (en_caps en) (en_fuel en) (t_type (w_task w r)) g = (Inr x, g')"
    and ex: "en_exec en x r ((w_task w)(r := task_start (w_task w r))) = (Inr u, h)"
    and h: "t_id (h r) = i" "t_status (h r) \<noteq> Task_FAILED"
  obtains s' w' q' where "rt_run en faults s s'" and "stage wid Polling [] un (Suc n) w' q' g' s'"
    and "queue_inv q'" and "policy_pending (q_policy q') = js" and "q_storage q' = dpop i (q_storage q)"
    and "w_task w' = h(r := task_complete (h r))" and "now_iso w' = now_iso w"
    and "\<And>l. w_log w = Some l \<Longrightarrow> \<exists>es. w_log w' = Some (l @ es) \<and>
      map ev_kind es = [TaskDequeued i, TaskStarted i, WorkerHeartbeat wid (now_iso w), TaskCompleted i]"
proof -
  from dispatched [OF s inv pend r] obtain q' where
    q': "stage wid Polling ([] @ [r]) (Suc un) n (emit (TaskDequeued i) w) q' g (hand_over (dispatch s))"
      "rt_run en faults s (hand_over (dispatch s))"
      "queue_inv q'" "policy_pending (q_policy q') = js" "q_storage q' = dpop i (q_storage q)" by metis
  let ?w1 = "emit (TaskDequeued i) w"
  let ?w2 = "upd_task r task_start (emit (WorkerHeartbeat wid (now_iso ?w1)) (emit (TaskStarted (t_id (w_task ?w1 r))) ?w1))"
  let ?w3 = "?w2\<lparr>w_task := h\<rparr>"
  let ?w4 = "emit (TaskCompleted (t_id (w_task ?w3 r))) (upd_task r task_complete ?w3)"
  let ?t = "turn en wid"
  let ?s' = "(?t ^^ 6) (hand_over (dispatch s))"
  have began: "stage wid (Executing r (w_now ?w1)) [] (Suc un) n ?w2 q' g ((?t ^^ 3) (hand_over (dispatch s)))"
    using turn_begin [OF turn_get [OF turn_head [OF q'(1) [simplified]]]] by (simp add: numeral_3_eq_3)
  have "t_type (w_task ?w2 r) = t_type (w_task w r)" by (simp add: task_start_def)
  then have "get_executor (en_caps en) (en_fuel en) (t_type (w_task ?w2 r)) g = (Inr x, g')" using found by simp
  moreover have "en_exec en x r (w_task ?w2) = (Inr u, h)" using ex by simp
  ultimately have "stage wid (Returned r (w_now ?w1)) [] (Suc un) n ?w3 q' g' ((?t ^^ 4) (hand_over (dispatch s)))"
    using turn_execute [OF began] by (simp add: eval_nat_numeral)
  from turn_finally [OF turn_return [OF this]] h(2)
  have last: "stage wid Polling [] un (Suc n) ?w4 q' g' ?s'" by (simp add: eval_nat_numeral)
  have run: "rt_run en faults s ((?t ^^ m) (hand_over (dispatch s)))" for m
    by (induction m) (auto intro: q'(2) rt_run.rt_trans turn_step)
  have "\<exists>es. w_log ?w4 = Some (l @ es) \<and>
      map ev_kind es = [TaskDequeued i, TaskStarted i, WorkerHeartbeat wid (now_iso w), TaskCompleted i]"
    if "w_log w = Some l" for l
    using that r(2) h(1) by (auto simp: emit_def mk_event_def)
  moreover have "w_task ?w4 = h(r := task_complete (h r))" "now_iso ?w4 = now_iso w" by simp_all
  ultimately show ?thesis using that [OF run last q'(3-5)] by blast
qed

section \<open>All waiting tasks\<close>

text \<open>
  Executors that serve every task: each task type has an executor, whatever lazily built executors the
  registry has already kept, and an executor returns, changes no other task, leaves the task's id
  alone and does not fail a running task.
\<close>

definition executes :: "('l, 'x) env \<Rightarrow> ('l, 'x) registry set \<Rightarrow> bool" where
  "executes en G \<longleftrightarrow>
     (\<forall>g \<in> G. \<forall>ty. \<exists>x g'. get_executor (en_caps en) (en_fuel en) ty g = (Inr x, g') \<and> g' \<in> G) \<and>
     (\<forall>x r h. \<exists>h'. en_exec en x r h = (Inr (), h') \<and> t_id (h' r) = t_id (h r) \<and>
        (t_status (h r) = Task_RUNNING \<longrightarrow> t_status (h' r) \<noteq> Task_FAILED) \<and> (\<forall>r'. r' \<noteq> r \<longrightarrow> h' r' = h r'))"

definition task_events :: "string \<Rightarrow> string \<Rightarrow> string \<Rightarrow> event_kind list" where
  "task_events wid now i = [TaskDequeued i, TaskStarted i, WorkerHeartbeat wid now, TaskCompleted i]"

definition filed :: "tstore \<Rightarrow> (string \<times> tref) list \<Rightarrow> bool" where
  "filed h m \<longleftrightarrow> (\<forall>(i, r) \<in> set m. t_id (h r) = i)"

lemma executes_task:
  assumes "executes en G"
  obtains h' where "en_exec en x r h = (Inr (), h')" and "t_id (h' r) = t_id (h r)"
    and "t_status (h r) = Task_RUNNING \<Longrightarrow> t_status (h' r) \<noteq> Task_FAILED" and "\<And>r'. r' \<noteq> r \<Longrightarrow> h' r' = h r'"
proof -
  note every = conjunct2 [OF assms [unfolded executes_def], THEN spec, THEN spec, THEN spec, of x r h]
  then obtain h' where "en_exec en x r h = (Inr (), h') \<and> t_id (h' r) = t_id (h r) \<and>
    (t_status (h r) = Task_RUNNING \<longrightarrow> t_status (h' r) \<noteq> Task_FAILED) \<and> (\<forall>r'. r' \<noteq> r \<longrightarrow> h' r' = h r')" ..
  with that show ?thesis by simp
qed

lemma rt_run_append: "rt_run en faults s' s'' \<Longrightarrow> rt_run en faults s s' \<Longrightarrow> rt_run en faults s s''"
  by (induction rule: rt_run.induct) (auto intro: rt_run.rt_trans)

lemma serve_all:
  assumes "stage wid Polling [] un n w q g s" and "queue_inv q" and "filed (w_task w) (q_storage q)"
    and "g \<in> G" and "executes en G" and "policy_pending (q_policy q) = js"
  shows "\<exists>s' w' q' g'. rt_run en faults s s' \<and> stage wid Polling [] un (n + length js) w' q' g' s' \<and>
    queue_inv q' \<and> q_storage q' = [] \<and>
    (\<forall>(i, r) \<in> set (q_storage q). t_status (w_task w' r) = Task_COMPLETED) \<and>
    (\<forall>r. r \<notin> snd ` set (q_storage q) \<longrightarrow> w_task w' r = w_task w r) \<and>
    (\<forall>l. w_log w = Some l \<longrightarrow> (\<exists>es. w_log w' = Some (l @ es) \<and>
       map ev_kind es = concat (map (task_events wid (now_iso w)) js)))"
  using assms
proof (induction js arbitrary: s n w q g)
  case Nil
  with pending_length [of q] have "q_storage q = []" by simp
  with Nil show ?case by (intro exI [of _ s] exI [of _ w] exI [of _ q] exI [of _ g]) (auto intro: rt_run.rt_refl)
next
  case (Cons i js)
  from queue_invD(3) [OF Cons.prems(2)] Cons.prems(6) have "i \<in> set (dkeys (q_storage q))" by auto
  then obtain r where r: "dget (q_storage q) i = Some r" using key_dget_Some by metis
  with Cons.prems(3) have id: "t_id (w_task w r) = i" by (auto simp: filed_def dest: map_of_SomeD)
  from Cons.prems(4,5) obtain x g' where g': "get_executor (en_caps en) (en_fuel en) (t_type (w_task w r)) g = (Inr x, g')"
    "g' \<in> G" unfolding executes_def by blast
  let ?h0 = "(w_task w)(r := task_start (w_task w r))"
  obtain h where h0: "en_exec en x r ?h0 = (Inr (), h)" "t_id (h r) = t_id (?h0 r)" "t_status (h r) \<noteq> Task_FAILED"
    "\<And>r'. r' \<noteq> r \<Longrightarrow> h r' = ?h0 r'"
    using executes_task [OF Cons.prems(5), of x r ?h0] by (auto simp: task_start_def)
  then have h: "t_id (h r) = i" "\<And>r'. r' \<noteq> r \<Longrightarrow> h r' = w_task w r'" by (simp_all add: task_start_def id)
  from serve_one [OF Cons.prems(1,2,6) r id g'(1) h0(1) h(1) h0(3)] obtain s1 w1 q1 where
    s1: "rt_run en faults s s1" "stage wid Polling [] un (Suc n) w1 q1 g' s1" "queue_inv q1"
      "policy_pending (q_policy q1) = js" "q_storage q1 = dpop i (q_storage q)"
      "w_task w1 = h(r := task_complete (h r))" "now_iso w1 = now_iso w"
    and log1: "\<And>l. w_log w = Some l \<Longrightarrow> \<exists>es. w_log w1 = Some (l @ es) \<and> map ev_kind es = task_events wid (now_iso w) i"
    unfolding task_events_def by metis
  have other: "j \<noteq> i \<and> r' \<noteq> r \<and> (j, r') \<in> set (q_storage q) \<and> w_task w1 r' = w_task w r'"
    if "(j, r') \<in> set (q_storage q1)" for j r'
  proof -
    from that s1(5) have j: "(j, r') \<in> set (q_storage q)" "j \<noteq> i" by (auto simp: AList.delete_eq)
    with Cons.prems(3) id have "r' \<noteq> r" by (auto simp: filed_def)
    with j h(2) s1(6) show ?thesis by simp
  qed
  then have "filed (w_task w1) (q_storage q1)" using Cons.prems(3) by (fastforce simp: filed_def)
  from Cons.IH [OF s1(2,3) this g'(2) Cons.prems(5) s1(4)] obtain s2 w2 q2 g2 where
    s2: "rt_run en faults s1 s2" "stage wid Polling [] un (Suc n + length js) w2 q2 g2 s2" "queue_inv q2" "q_storage q2 = []"
    and ends: "\<And>j r'. (j, r') \<in> set (q_storage q1) \<Longrightarrow> t_status (w_task w2 r') = Task_COMPLETED"
    and same: "\<And>r'. r' \<notin> snd ` set (q_storage q1) \<Longrightarrow> w_task w2 r' = w_task w1 r'"
    and log2: "\<And>l. w_log w1 = Some l \<Longrightarrow> \<exists>es. w_log w2 = Some (l @ es) \<and>
      map ev_kind es = concat (map (task_events wid (now_iso w1)) js)" by blast
  have "r \<notin> snd ` set (q_storage q1)" by (auto dest!: other)
  with same s1(6) have "t_status (w_task w2 r) = Task_COMPLETED" by (simp add: task_complete_def)
  moreover have "r' = r \<or> (j, r') \<in> set (q_storage q1)" if "(j, r') \<in> set (q_storage q)" for j r'
  proof (cases "j = i")
    case True
    with that r queue_invD(1) [OF Cons.prems(2)] map_of_is_SomeI [of "q_storage q" j r'] show ?thesis
      by (simp add: wf_dict_def)
  next
    case False
    with that s1(5) show ?thesis by (auto simp: AList.delete_eq)
  qed
  ultimately have "\<forall>(j, r') \<in> set (q_storage q). t_status (w_task w2 r') = Task_COMPLETED" using ends by blast
  moreover have "w_task w2 r' = w_task w r'" if "r' \<notin> snd ` set (q_storage q)" for r'
  proof -
    have "r' \<noteq> r" using that r by (force dest: map_of_SomeD)
    moreover have "r' \<notin> snd ` set (q_storage q1)" using that other by force
    ultimately show ?thesis using same h(2) s1(6) by simp
  qed
  moreover have "\<exists>es. w_log w2 = Some (l @ es) \<and> map ev_kind es = concat (map (task_events wid (now_iso w)) (i # js))"
    if "w_log w = Some l" for l
  proof -
    from log1 [OF that] obtain es1 where es1: "w_log w1 = Some (l @ es1)" "map ev_kind es1 = task_events wid (now_iso w) i"
      by blast
    from log2 [OF this(1)] obtain es2 where "w_log w2 = Some ((l @ es1) @ es2)"
      "map ev_kind es2 = concat (map (task_events wid (now_iso w1)) js)" by blast
    with es1 s1(7) show ?thesis by (intro exI [of _ "es1 @ es2"]) simp
  qed
  moreover have "stage wid Polling [] un (n + length (i # js)) w2 q2 g2 s2" using s2(2) by simp
  ultimately show ?case using rt_run_append [OF s2(1) s1(1)] s2(3,4) by blast
qed

section \<open>From submission to completion\<close>

fun submit_all ::
  "('l, 'x) env \<Rightarrow> (string \<times> task_type \<times> pydict option) list \<Rightarrow> ('l, 'x) runtime_sys \<Rightarrow>
   (py_error + tref) list \<times> ('l, 'x) runtime_sys" where
  "submit_all en [] s = ([], s)"
| "submit_all en ((title, ty, md) # xs) s =
     (case submit_task en title ty md 0 s of
        (res, s') \<Rightarrow> (case submit_all en xs s' of (rss, s'') \<Rightarrow> (res # rss, s'')))"

text \<open>A runtime that has not been started, after the submission of the tasks \<open>rs\<close>.\<close>

definition submitted :: "('l, 'x) registry \<Rightarrow> tref list \<Rightarrow> ('l, 'x) runtime_sys \<Rightarrow> bool" where
  "submitted g rs s \<longleftrightarrow>
     rt_cfg s \<and> queue_inv (sc_queue s) \<and>
     policy_pending (q_policy (sc_queue s)) = map (\<lambda>r. t_id (w_task (ps_world s) r)) rs \<and>
     q_storage (sc_queue s) = map (\<lambda>r. (t_id (w_task (ps_world s) r), r)) rs \<and>
     ps_pool s = (case pool_init 4 of Inr p \<Rightarrow> p) \<and> ps_registry s = g \<and> \<not> sc_started s \<and> sc_dispatching s = None"

lemma submitted_init: "inj (w_uuid w) \<Longrightarrow> submitted g [] (runtime_init w g)"
  using rt_cfg_init [of w g] queue_inv_init_default [of None]
  by (simp add: submitted_def) (simp add: runtime_init_def queue_init_def fifo_init_def)

lemma submitted_one:
  assumes sub: "submitted g rs s" and e: "submit_task en title ty md 0 s = (Inr r, s')"
  shows "submitted g (rs @ [r]) s'"
proof -
  let ?w = "ps_world s" and ?n = "rt_next s"
  from sub have cfg: "rt_cfg s" and inv: "queue_inv (sc_queue s)" by (simp_all add: submitted_def)
  from submit_keeps [OF cfg e] have r: "r = ?n" and cfg': "rt_cfg s'" by auto
  from cfg have sys: "sys_cfg ?n s" and adm: "default_admission s"
    and fresh: "\<And>r. r < ?n \<Longrightarrow> t_id (w_task ?w r) \<noteq> w_uuid ?w (w_drawn ?w)" by (auto simp: rt_cfg_def)
  from sys obtain f where q: "q_max_size (sc_queue s) = None" "q_policy (sc_queue s) = FIFO f"
    and stored: "\<And>i r. dget (q_storage (sc_queue s)) i = Some r \<Longrightarrow> r < ?n" by (auto simp: sys_cfg_def queue_cfg_def)
  have "wf_dict (q_storage (sc_queue s))" by (rule queue_invD(1) [OF inv])
  with sub stored have old: "r' < ?n" if "r' \<in> set rs" for r'
    using that by (auto simp: submitted_def wf_dict_def)
  from e show ?thesis
  proof (cases rule: submit_task_cases)
    case (scheduled t m w ans)
    let ?s = "s\<lparr>rt_next := Suc ?n, rt_tasks := m, ps_world := w\<rparr>"
    let ?id = "\<lambda>r. t_id (w_task w r)"
    from scheduled(5) have ans: "ans = Inr ()" by (cases ans) auto
    have wt: "w_task w = (w_task ?w)(?n := t)"
      using log_submitted_frame [OF scheduled(3)] by (simp add: new_task_world_def)
    have new: "?id ?n = w_uuid ?w (w_drawn ?w)" using scheduled(1) by (auto simp: wt task_init_def split: if_splits)
    have same: "?id r' = t_id (w_task ?w r')" if "r' \<in> set rs" for r' using old [OF that] by (simp add: wt)
    have ids: "map (\<lambda>r. t_id (w_task ?w r)) rs = map ?id rs"
      "map (\<lambda>r. (t_id (w_task ?w r), r)) rs = map (\<lambda>r. (?id r, r)) rs" using same by simp_all
    obtain a s1 where a: "admit (en_render en) ?n ?s = (a, s1)" by fastforce
    have "default_admission ?s" using adm by (simp add: default_admission_def)
    from admit_default [OF this a] obtain ff where s1: "s1 = upd_world ff ?s" and ext: "wext w (ff w)"
      and "a = Inr ?n \<or> (\<exists>e. a = Inl e)" by auto
    with a scheduled(4) ans have enq: "sys_enqueue (en_fromiso en) ?n (upd_world ff ?s) = (Inr (), s')"
      by (auto simp: schedule_def)
    have keep: "t_id (w_task (ff w) x) = ?id x" for x using ext by (simp add: wext_def)
    have nf: "\<not> queue_full (sc_queue s)" using q(1) by (simp add: queue_full_def)
    have "?id ?n \<notin> ?id ` set rs" using fresh old same new by force
    then have unknown: "?id ?n \<notin> set (fifo_order f)" "?id ?n \<notin> set (dkeys (q_storage (sc_queue s)))"
      using sub q(2) ids by (auto simp: submitted_def comp_def)
    obtain qq wq where eq: "enqueue (en_fromiso en) ?n (sc_queue s) (ff w) = (Inr (), qq, wq)"
      "s' = (upd_world ff ?s)\<lparr>sc_queue := qq, ps_world := wq\<rparr>"
      using enq by (auto simp: sys_enqueue_def split: prod.splits)
    have "enqueueable ?n (sc_queue s) (ff w)" using unknown q(2) by (simp add: enqueueable_def keep)
    from enqueue_inv [OF inv this eq(1)] have "queue_inv qq" .
    moreover have "policy_pending (q_policy qq) = fifo_order f @ [?id ?n]"
      "q_storage qq = q_storage (sc_queue s) @ [(?id ?n, ?n)]" "t_id (w_task wq x) = ?id x" for x
      using eq(1) nf q(2) unknown by (auto simp: enqueue_accepted keep fifo_add_def update_fresh_append)
    ultimately show ?thesis
      using sub cfg' q(2) ids r unfolding submitted_def eq(2) by (simp add: upd_world_def)
  qed auto
qed

lemma submitted_all:
  "submit_all en xs s = (map Inr rs, s') \<Longrightarrow> submitted g rs0 s \<Longrightarrow> submitted g (rs0 @ rs) s'"
proof (induction en xs s arbitrary: rs rs0 rule: submit_all.induct)
  case (2 en title ty md xs s)
  obtain res s1 where e: "submit_task en title ty md 0 s = (res, s1)" by fastforce
  obtain rss s2 where all: "submit_all en xs s1 = (rss, s2)" by fastforce
  from 2(2) e all obtain r rs' where rs: "rs = r # rs'" "res = Inr r" "rss = map Inr rs'" "s2 = s'"
    by (auto simp: Cons_eq_map_conv)
  from 2(1) [OF e [symmetric] _ submitted_one [OF 2(3) e [unfolded rs(2)]]] all rs show ?case by simp
qed simp

lemma emit_all_tasks: "w_task (emit_all ks w) = w_task w"
  by (induction ks arbitrary: w) simp_all

lemma started_stage:
  assumes "submitted g rs s"
  shows "stage (worker_name 0) Polling [] 0 0 (ps_world (runtime_start s)) (sc_queue s) g (runtime_start s)"
    and "w_task (ps_world (runtime_start s)) = w_task (ps_world s)"
proof -
  let ?k = "fresh_worker (now_of s) (worker_name 0)"
  have p: "ps_pool s = \<lparr>wp_size = 4, wp_workers = [], wp_task_queue = [], wp_unfinished = 0, wp_started = False,
      wp_tasks_completed = 0, wp_tasks_failed = 0, wp_total_execution_time = 0, wp_start_time = None\<rparr>"
    using assms by (simp add: submitted_def pool_init_def)
  let ?ws = "launch (now_of s) [0..<4] []"
  have "dget ?ws (worker_name 0) = Some ?k" by (subst launch_fresh) (simp_all add: upt_rec)
  then have "dget (wp_workers (ps_pool (pool_start s))) (worker_name 0) = Some ?k"
    "wp_started (ps_pool (pool_start s))" "wp_task_queue (ps_pool (pool_start s)) = []"
    "wp_unfinished (ps_pool (pool_start s)) = 0" "wp_tasks_completed (ps_pool (pool_start s)) = 0"
    by (simp_all add: pool_start_def p Let_def)
  moreover have "wk_stop_event ?k = False" by (simp add: fresh_worker_def worker_start_def worker_init_def)
  moreover have "sc_started (pool_start s) = False" "sc_dispatching (pool_start s) = None"
    "sc_queue (pool_start s) = sc_queue s" "ps_registry (pool_start s) = g"
    "w_task (ps_world (pool_start s)) = w_task (ps_world s)"
    using assms by (simp_all add: submitted_def pool_start_def p Let_def emit_all_tasks)
  ultimately show "stage (worker_name 0) Polling [] 0 0 (ps_world (runtime_start s)) (sc_queue s) g (runtime_start s)"
    and "w_task (ps_world (runtime_start s)) = w_task (ps_world s)"
    by (simp_all add: stage_def runtime_start_def scheduler_start_def upd_world_def)
qed

text \<open>The path of the submitted tasks after the start.\<close>

lemma submitted_served:
  assumes "submitted g rs s" and "g \<in> G" and "executes en G"
  shows "\<exists>s' q' g' w'. rt_run en faults (runtime_start s) s' \<and>
    stage (worker_name 0) Polling [] 0 (length rs) w' q' g' s' \<and> q_storage q' = [] \<and>
    (\<forall>r \<in> set rs. t_status (w_task w' r) = Task_COMPLETED) \<and>
    (\<forall>l. w_log (ps_world (runtime_start s)) = Some l \<longrightarrow> (\<exists>es. w_log w' = Some (l @ es) \<and> map ev_kind es =
       concat (map (\<lambda>r. task_events (worker_name 0) (now_iso (ps_world (runtime_start s))) (t_id (w_task (ps_world s) r))) rs)))"
proof -
  note st = started_stage [OF assms(1)]
  have "queue_inv (sc_queue s)" and "filed (w_task (ps_world (runtime_start s))) (q_storage (sc_queue s))"
    and pend: "policy_pending (q_policy (sc_queue s)) = map (\<lambda>r. t_id (w_task (ps_world s) r)) rs"
    and refs: "snd ` set (q_storage (sc_queue s)) = set rs"
    using assms(1) st(2) by (auto simp: submitted_def filed_def image_image)
  from serve_all [OF st(1) this(1,2) assms(2,3) pend, of faults] obtain s' w' q' g' where
    s': "rt_run en faults (runtime_start s) s'" "stage (worker_name 0) Polling [] 0 (length rs) w' q' g' s'"
      "q_storage q' = []" and ends: "\<forall>(i, r) \<in> set (q_storage (sc_queue s)). t_status (w_task w' r) = Task_COMPLETED"
    and log: "\<forall>l. w_log (ps_world (runtime_start s)) = Some l \<longrightarrow> (\<exists>es. w_log w' = Some (l @ es) \<and> map ev_kind es =
       concat (map (task_events (worker_name 0) (now_iso (ps_world (runtime_start s))))
         (map (\<lambda>r. t_id (w_task (ps_world s) r)) rs)))"
    by auto
  have "\<forall>r \<in> set rs. t_status (w_task w' r) = Task_COMPLETED" unfolding refs [symmetric] using ends by auto
  moreover note log [unfolded map_map comp_def]
  ultimately show ?thesis using s' by blast
qed

end
