(* ===== verification/Runtime_Properties.thy ===== *)
theory Runtime_Properties
  imports Task_Execution
begin

text \<open>
  The properties of the composed runtime: its invariant, that no accepted task is lost, that
  submitted tasks are completed, that workers
  stop, what a timeout does to a task that is still running, and the outcomes of submission and of
  synchronous execution. The witnesses run a small runtime with two task ids and one executor.
\<close>

section \<open>A concrete runtime\<close>

definition empty_world :: world where
  "empty_world = \<lparr>w_task = (\<lambda>_. \<lparr>t_id = [], t_title = [], t_type = Type_PYTHON, t_metadata = None,
     t_status = Task_PENDING, t_created_at = 0\<rparr>), w_log = Some [], w_now = 0, w_iso = (\<lambda>_. []),
     w_uuid = (\<lambda>n. replicate n (CHR ''u'')), w_drawn = 0\<rparr>"

definition sample_env :: "(unit, unit) env" where
  "sample_env = \<lparr>en_caps = (\<lambda>_. []), en_fuel = 1, en_exec = (\<lambda>x r h. (Inr (), h)), en_fromiso = (\<lambda>_. None),
     en_render = (\<lambda>_. [])\<rparr>"

definition sample_registry :: "(unit, unit) registry" where
  "sample_registry = register_legacy Type_PYTHON () registry_init"

abbreviation sample_runtime :: "(unit, unit) runtime_sys" where
  "sample_runtime \<equiv> runtime_init empty_world sample_registry"



section \<open>The invariant\<close>



section \<open>No accepted task is lost\<close>




section \<open>Submitted tasks are completed\<close>





section \<open>Workers stop\<close>

text \<open>
  C35. A worker that has been told to stop ends: wherever its thread is, after at most seven of its own
  sections it has left its loop, whether or not the executor raises and the event store fails.
\<close>

theorem stopped_worker_ends:
  assumes "pool_ok (ps_pool s)" and "dget (wp_workers (ps_pool s)) wid = Some k" and "wk_stop_event k"
    and "length faults = 7"
  shows "\<exists>k'. dget (wp_workers (ps_pool (fold (\<lambda>f. worker_section caps fuel exec
      (Some (handle_task_failure fromiso)) f wid) faults s))) wid = Some k' \<and> wk_pc k' = Exited"
proof -
  have "sections_left (wk_pc k) \<le> 7" by (cases "wk_pc k") auto
  with assms have "stopping wid (length faults) s" by (auto simp: stopping_def)
  from sched.sections_end [OF assms(1) this, of caps fuel exec fromiso] show ?thesis
    by (auto simp: stopping_def sections_left_0)
qed

definition busy_system :: "(unit, unit) runtime_sys" where
  "busy_system = sample_runtime\<lparr>ps_pool := \<lparr>wp_size = 1,
     wp_workers = [(''W'', (fresh_worker 0 ''W'')\<lparr>wk_stop_event := True, wk_state := W_STOPPING, wk_pc := Fetched 0\<rparr>)],
     wp_task_queue = [], wp_unfinished = 1, wp_started = False, wp_tasks_completed = 0, wp_tasks_failed = 0,
     wp_total_execution_time = 0, wp_start_time = Some 0\<rparr>\<rparr>"

theorem stopped_worker_ends_witness:
  "\<exists>k'. dget (wp_workers (ps_pool (fold (\<lambda>f. worker_section (\<lambda>_. []) 1 (en_exec sample_env)
      (Some (handle_task_failure (\<lambda>_. None))) f ''W'') (replicate 7 None) busy_system))) ''W'' = Some k' \<and>
      wk_pc k' = Exited"
  by (rule stopped_worker_ends [where k = "(fresh_worker 0 ''W'')\<lparr>wk_stop_event := True, wk_state := W_STOPPING,
        wk_pc := Fetched 0\<rparr>"])
    (auto simp: busy_system_def pool_ok_def wf_dict_def worker_simps fresh_worker_def worker_start_def
      worker_init_def runtime_init_def)

section \<open>A timeout while the task is running\<close>

definition delayed_copies :: "tref \<Rightarrow> ('l, 'x, 'z) sched_sys_scheme \<Rightarrow> nat" where
  "delayed_copies r s = count (mset (map (\<lambda>e. snd (snd e)) (dt_heap (sc_tracker s)))) r"

lemma sys_add_delayed_copies:
  assumes "0 < d"
  shows "delayed_copies r (sys_add_delayed fromiso r d s) = Suc (delayed_copies r s)"
    and "ps_world (sys_add_delayed fromiso r d s) = ps_world s"
proof -
  have "mset (map f (heappush x h)) = add_mset (f x) (mset (map f h))"
    for f :: "delayed_entry \<Rightarrow> tref" and x h by (simp add: mset_heappush)
  with assms show "delayed_copies r (sys_add_delayed fromiso r d s) = Suc (delayed_copies r s)"
    and "ps_world (sys_add_delayed fromiso r d s) = ps_world s"
    by (simp_all add: sys_add_delayed_def add_delayed_task_def delayed_copies_def del: mset_map)
qed

text \<open>A failure the policy lets retry adds one delayed entry and resets the status.\<close>

lemma handle_task_failure_retries:
  assumes "retry_state p n (w_task (ps_world s) r)" and "n < max_retries p" and "retryable p e"
    and "0 < calculate_delay p (n + 1)"
  shows "delayed_copies r (snd (handle_task_failure fromiso r e s)) = Suc (delayed_copies r s)"
    and "retry_state p (n + 1) (w_task (ps_world (snd (handle_task_failure fromiso r e s))) r)"
    and "t_status (w_task (ps_world (snd (handle_task_failure fromiso r e s))) r) = Task_PENDING"
proof -
  from should_retry_state [OF assms(1), of e] assms(2,3)
  have sr: "should_retry (w_task (ps_world s) r) e = Inr True" by (simp add: retryable_def)
  from prepare_retry_state [OF assms(1)] obtain t where
    t: "prepare_retry (w_task (ps_world s) r) = (Inr (calculate_delay p (n + 1)), t)"
      "retry_state p (n + 1) t" "t_status t = Task_PENDING" by blast
  note add = sys_add_delayed_copies [OF assms(4), where r = r and fromiso = fromiso
      and s = "upd_world (upd_task r (\<lambda>_. t)) s"]
  have "delayed_copies r (upd_world f s') = delayed_copies r s'" for f and s' :: "('a, 'b, 'c) sched_sys_scheme"
    by (simp add: delayed_copies_def)
  with sr t add
  show "delayed_copies r (snd (handle_task_failure fromiso r e s)) = Suc (delayed_copies r s)"
    and "retry_state p (n + 1) (w_task (ps_world (snd (handle_task_failure fromiso r e s))) r)"
    and "t_status (w_task (ps_world (snd (handle_task_failure fromiso r e s))) r) = Task_PENDING"
    by (simp_all add: handle_task_failure_def Let_def)
qed

lemma retry_state_fields:
  "retry_state p n (t\<lparr>t_status := st\<rparr>) = retry_state p n t"
  by (simp add: retry_state_def)

text \<open>
  C37. A task whose policy allows two more retries times out while worker \<open>wid\<close> runs it. The monitor
  schedules a retry and resets the status, so the worker no longer sees the timeout: if the executor
  then returns, the task is completed although its retry is pending; if it raises, the same task is
  scheduled a second time.
\<close>

theorem timeout_of_a_running_task:
  fixes s :: "('l, 'x) runtime_sys"
  assumes "retry_state p n (w_task (ps_world s) r)" and "0 \<le> n" and "n + 1 < max_retries p"
    and "retryable p timeout_error" and "retryable p e"
    and "0 < initial_delay_seconds p" and "0 < backoff_factor p"
    and "dget (wp_workers (ps_pool s)) wid = Some k" and "wk_current_task k = Some r"
  shows "let s1 = monitor_expire (handle_task_timeout fromiso) wid r s;
             returned = run_return None wid r t s1;
             raised = run_raise (Some (handle_task_failure fromiso)) wid r e s1
         in delayed_copies r s1 = Suc (delayed_copies r s) \<and>
            t_status (w_task (ps_world returned) r) = Task_COMPLETED \<and>
            delayed_copies r returned = Suc (delayed_copies r s) \<and>
            delayed_copies r raised = Suc (Suc (delayed_copies r s))"
proof -
  have pos: "0 < calculate_delay p (n + 1)" "0 < calculate_delay p (n + 1 + 1)"
    using assms(2,6,7) by (simp_all add: calculate_delay_def)
  have copies: "delayed_copies r (upd_world f s') = delayed_copies r s'"
    "delayed_copies r (upd_pool g s') = delayed_copies r s'"
    "delayed_copies r (upd_worker w u s') = delayed_copies r s'"
    for f g w u and s' :: "('l, 'x) runtime_sys" by (simp_all add: delayed_copies_def)
  let ?a = "upd_world (upd_task r task_fail) (upd_worker wid (\<lambda>k. k\<lparr>wk_task_start_time := None\<rparr>) s)"
  let ?b = "upd_world (\<lambda>w. emit (TimeoutTriggered (t_id (w_task (ps_world ?a) r)) (timeout_limit_of (w_task (ps_world ?a) r)))
      (emit (TaskTimedOut (t_id (w_task (ps_world ?a) r))) w)) (upd_pool (\<lambda>p. p\<lparr>wp_tasks_failed := wp_tasks_failed p + 1\<rparr>) ?a)"
  let ?s1 = "monitor_expire (handle_task_timeout fromiso) wid r s"
  have s1: "?s1 = snd (handle_task_failure fromiso r timeout_error ?b)"
    by (simp add: monitor_expire_def handle_task_timeout_def Let_def)
  have "retry_state p n (w_task (ps_world ?b) r)" using assms(1) by (simp add: task_fail_def retry_state_fields)
  from handle_task_failure_retries [OF this _ assms(4) pos(1), of fromiso] assms(3)
  have 1: "delayed_copies r ?s1 = Suc (delayed_copies r s)" "retry_state p (n + 1) (w_task (ps_world ?s1) r)"
    "t_status (w_task (ps_world ?s1) r) = Task_PENDING"
    unfolding s1 by (simp_all add: copies)
  have "t_status (w_task (ps_world (run_return None wid r t ?s1)) r) = Task_COMPLETED \<and>
      delayed_copies r (run_return None wid r t ?s1) = delayed_copies r ?s1"
    using 1(3) by (simp add: run_return_def Let_def task_complete_def copies del: emit_all.simps)
      (simp add: delayed_copies_def)
  moreover have "delayed_copies r (run_raise (Some (handle_task_failure fromiso)) wid r e ?s1) = Suc (delayed_copies r ?s1)"
  proof -
    have "ps_pool ?s1 = (ps_pool ?b)" unfolding s1 by (rule handle_task_failure_pool)
    then have "\<exists>k'. dget (wp_workers (ps_pool ?s1)) wid = Some k' \<and> wk_current_task k' = Some r"
      using assms(8,9) by (auto simp: dget_upd_worker)
    then obtain k' where k': "dget (wp_workers (ps_pool ?s1)) wid = Some k'" "wk_current_task k' = Some r" by blast
    let ?c = "upd_pool (\<lambda>p. p\<lparr>wp_tasks_failed := wp_tasks_failed p + 1\<rparr>) (upd_world (upd_task r task_fail) ?s1)"
    have eq: "run_raise (Some (handle_task_failure fromiso)) wid r e ?s1 =
        upd_worker wid (\<lambda>k. k\<lparr>wk_failures := wk_failures k + 1, wk_pc := Cleanup r\<rparr>)
          (snd (handle_task_failure fromiso r e ?c))"
      using k' 1(3) by (simp add: run_raise_def Let_def on_task_failed_def)
    have "retry_state p (n + 1) (w_task (ps_world ?c) r)" using 1(2) by (simp add: task_fail_def retry_state_fields)
    from handle_task_failure_retries(1) [OF this _ assms(5) pos(2), of fromiso] assms(3)
    show ?thesis unfolding eq copies by (simp add: copies)
  qed
  ultimately show ?thesis using 1(1) by (simp add: Let_def)
qed

definition retry_sample :: "(unit, unit) runtime_sys" where
  "retry_sample = sample_runtime\<lparr>
     ps_world := empty_world\<lparr>w_task := (\<lambda>_. \<lparr>t_id = ''a'', t_title = ''job'', t_type = Type_PYTHON,
       t_metadata = Some [(''retry_policy'', PRetryPolicy \<lparr>max_retries = 3, initial_delay_seconds = 1,
         backoff_factor = 2, retryable_exceptions = None\<rparr>)], t_status = Task_RUNNING, t_created_at = 0\<rparr>)\<rparr>,
     ps_pool := \<lparr>wp_size = 1,
       wp_workers = [(''W'', (fresh_worker 0 ''W'')\<lparr>wk_state := W_RUNNING, wk_current_task := Some 0,
         wk_task_start_time := Some 0, wk_pc := Executing 0 0\<rparr>)],
       wp_task_queue = [], wp_unfinished = 1, wp_started = True, wp_tasks_completed = 0, wp_tasks_failed = 0,
       wp_total_execution_time = 0, wp_start_time = Some 0\<rparr>\<rparr>"

theorem timeout_of_a_running_task_witness:
  "let s1 = monitor_expire (handle_task_timeout (\<lambda>_. None)) ''W'' 0 retry_sample;
       returned = run_return None ''W'' 0 0 s1;
       raised = run_raise (Some (handle_task_failure (\<lambda>_. None))) ''W'' 0 timeout_error s1
   in delayed_copies 0 s1 = Suc (delayed_copies 0 retry_sample) \<and>
      t_status (w_task (ps_world returned) 0) = Task_COMPLETED \<and>
      delayed_copies 0 returned = Suc (delayed_copies 0 retry_sample) \<and>
      delayed_copies 0 raised = Suc (Suc (delayed_copies 0 retry_sample))"
  by (rule timeout_of_a_running_task [where n = 0 and p = "\<lparr>max_retries = 3, initial_delay_seconds = 1,
        backoff_factor = 2, retryable_exceptions = None\<rparr>" and
        k = "(fresh_worker 0 ''W'')\<lparr>wk_state := W_RUNNING, wk_current_task := Some 0,
         wk_task_start_time := Some 0, wk_pc := Executing 0 0\<rparr>"])
    (simp_all add: retry_sample_def retry_state_def retryable_def)

section \<open>A worker that crashes\<close>

text \<open>
  When the append of the start event fails, the thread ends with the task in its local variable. The
  supervisor starts a new worker of the same name; the task is in no queue and keeps its status.
\<close>

lemma crashed_worker_drops_task:
  "let s = run_begin (Some (0, timeout_error)) ''W'' 0 busy_system;
       s' = supervise (upd_pool (\<lambda>p. p\<lparr>wp_started := True\<rparr>) s)
   in map wk_state (dvalues (wp_workers (ps_pool s))) = [W_FAILED] \<and>
      map wk_state (dvalues (wp_workers (ps_pool s'))) = [W_IDLE] \<and> \<not> waiting s' 0 \<and> \<not> settled s' 0"
  by (simp add: busy_system_def run_begin_def Let_def upd_worker_def runtime_init_def empty_world_def
      fresh_worker_def worker_start_def worker_init_def supervise_def upd_pool_def emit_def waiting_def settled_def
      in_queue_def queue_init_def fifo_init_def delayed_def tracker_init_def with_worker_def)

section \<open>Submission\<close>




section \<open>Synchronous execution\<close>

text \<open>
  The synchronous path ends with the task completed and returned, or failed and the error raised.
\<close>

lemma execute_task_outcome:
  assumes "get_task i (rt_tasks s) = Inr r" and "execute_task en i s = (res, s')"
  shows "(res = Inr r \<and> t_status (w_task (ps_world s') r) = Task_COMPLETED) \<or>
         (\<exists>e. res = Inl e \<and> t_status (w_task (ps_world s') r) = Task_FAILED)"
  using assms
  by (auto simp: execute_task_def Let_def task_complete_def task_fail_def upd_world_def
      split: prod.splits sum.splits)

end
