(* ===== verification/Execution_Models.thy ===== *)
theory Execution_Models
  imports Prelude
begin

text \<open>
  The execution models: \<^verbatim>\<open>executors/domain/models.py\<close>. Frozen dataclasses are records; \<open>to_dict\<close> and
  \<open>from_dict\<close> convert them to and from dictionaries of primitives, and \<open>from_dict\<close> undoes \<open>to_dict\<close>.
\<close>

section \<open>Status and data\<close>

datatype execution_status =
    X_QUEUED | X_PREPARING | X_RUNNING | X_SUCCEEDED | X_FAILED | X_TIMED_OUT | X_CANCELLED | X_RETRYING | X_RECOVERED

fun execution_status_value :: "execution_status \<Rightarrow> string" where
  "execution_status_value X_QUEUED = ''Queued''"
| "execution_status_value X_PREPARING = ''Preparing''"
| "execution_status_value X_RUNNING = ''Running''"
| "execution_status_value X_SUCCEEDED = ''Succeeded''"
| "execution_status_value X_FAILED = ''Failed''"
| "execution_status_value X_TIMED_OUT = ''TimedOut''"
| "execution_status_value X_CANCELLED = ''Cancelled''"
| "execution_status_value X_RETRYING = ''Retrying''"
| "execution_status_value X_RECOVERED = ''Recovered''"

text \<open>\<open>ExecutionStatus(v)\<close>\<close>

definition execution_status_of :: "string \<Rightarrow> py_error + execution_status" where
  "execution_status_of v =
     (case List.find (\<lambda>s. execution_status_value s = v)
             [X_QUEUED, X_PREPARING, X_RUNNING, X_SUCCEEDED, X_FAILED, X_TIMED_OUT, X_CANCELLED, X_RETRYING, X_RECOVERED] of
        None \<Rightarrow> Inl (ValueError ''not a valid ExecutionStatus'') | Some s \<Rightarrow> Inr s)"

lemma execution_status_of_value [simp]: "execution_status_of (execution_status_value s) = Inr s"
  by (cases s) (simp_all add: execution_status_of_def)

record execution_capabilities =
  xc_tags :: "string list"
  xc_version :: string

record execution_metadata =
  xm_started_at :: "string option"
  xm_completed_at :: "string option"
  xm_duration_seconds :: rat
  xm_extra :: pydict
  xm_version :: string

record execution_error =
  xe_message :: string
  xe_error_type :: string
  xe_stack_trace :: "string option"
  xe_is_transient :: bool
  xe_version :: string

record execution_policy =
  xp_timeout_seconds :: "rat option"
  xp_max_retries :: int
  xp_retry_delay_seconds :: rat
  xp_priority :: int
  xp_cpu_limit :: "rat option"
  xp_memory_limit_mb :: "int option"
  xp_version :: string

record execution_request =
  xq_executor_type :: string
  xq_payload :: pydict
  xq_policy :: execution_policy
  xq_version :: string

record execution_result =
  xr_status :: execution_status
  xr_output :: pyval
  xr_error :: "execution_error option"
  xr_metadata :: execution_metadata
  xr_version :: string

text \<open>Of the services, which are objects of other components, only their presence matters here.\<close>

record execution_services =
  xv_metrics :: bool
  xv_event_store :: bool
  xv_state_store :: bool
  xv_configuration :: pydict
  xv_version :: string

record execution_context =
  xx_runtime_id :: string
  xx_task_id :: string
  xx_worker_id :: string
  xx_correlation_id :: "string option"
  xx_causation_id :: "string option"
  xx_deadline :: "rat option"
  xx_resource_limits :: pydict
  xx_services :: "execution_services option"
  xx_version :: string

text \<open>The defaults of the dataclasses.\<close>

definition default_metadata :: execution_metadata where
  "default_metadata = \<lparr>xm_started_at = None, xm_completed_at = None, xm_duration_seconds = 0, xm_extra = [],
     xm_version = ''1.0.0''\<rparr>"

definition default_policy :: execution_policy where
  "default_policy = \<lparr>xp_timeout_seconds = None, xp_max_retries = 0, xp_retry_delay_seconds = 1, xp_priority = 0,
     xp_cpu_limit = None, xp_memory_limit_mb = None, xp_version = ''1.0.0''\<rparr>"

definition new_error :: "string \<Rightarrow> string \<Rightarrow> execution_error" where
  "new_error msg ty = \<lparr>xe_message = msg, xe_error_type = ty, xe_stack_trace = None, xe_is_transient = False,
     xe_version = ''1.0.0''\<rparr>"

definition new_result :: "execution_status \<Rightarrow> execution_result" where
  "new_result st = \<lparr>xr_status = st, xr_output = PNone, xr_error = None, xr_metadata = default_metadata,
     xr_version = ''1.0.0''\<rparr>"

section \<open>Conversions\<close>

definition capabilities_to_dict :: "execution_capabilities \<Rightarrow> pydict" where
  "capabilities_to_dict c = [(''tags'', PList (map PStr (xc_tags c))), (''version'', PStr (xc_version c))]"

definition capabilities_from_dict :: "pydict \<Rightarrow> py_error + execution_capabilities" where
  "capabilities_from_dict d =
     bindE (ditem_or as_str_list [] d ''tags'') (\<lambda>tags.
     bindE (ditem_or as_str ''1.0.0'' d ''version'') (\<lambda>ver. Inr \<lparr>xc_tags = tags, xc_version = ver\<rparr>))"

definition metadata_to_dict :: "execution_metadata \<Rightarrow> pydict" where
  "metadata_to_dict m =
     [(''started_at'', popt PStr (xm_started_at m)), (''completed_at'', popt PStr (xm_completed_at m)),
      (''duration_seconds'', PFloat (xm_duration_seconds m)), (''extra'', PDict (xm_extra m)),
      (''version'', PStr (xm_version m))]"

definition metadata_from_dict :: "pydict \<Rightarrow> py_error + execution_metadata" where
  "metadata_from_dict d =
     bindE (ditem_or as_opt_str None d ''started_at'') (\<lambda>sa.
     bindE (ditem_or as_opt_str None d ''completed_at'') (\<lambda>ca.
     bindE (ditem_or as_float 0 d ''duration_seconds'') (\<lambda>du.
     bindE (ditem_or as_dict [] d ''extra'') (\<lambda>ex.
     bindE (ditem_or as_str ''1.0.0'' d ''version'') (\<lambda>ver.
       Inr \<lparr>xm_started_at = sa, xm_completed_at = ca, xm_duration_seconds = du, xm_extra = ex, xm_version = ver\<rparr>)))))"

definition error_to_dict :: "execution_error \<Rightarrow> pydict" where
  "error_to_dict e =
     [(''message'', PStr (xe_message e)), (''error_type'', PStr (xe_error_type e)),
      (''stack_trace'', popt PStr (xe_stack_trace e)), (''is_transient'', PBool (xe_is_transient e)),
      (''version'', PStr (xe_version e))]"

definition error_from_dict :: "pydict \<Rightarrow> py_error + execution_error" where
  "error_from_dict d =
     bindE (ditem_or as_str [] d ''message'') (\<lambda>msg.
     bindE (ditem_or as_str ''UnknownError'' d ''error_type'') (\<lambda>ty.
     bindE (ditem_or as_opt_str None d ''stack_trace'') (\<lambda>st.
     bindE (ditem_or as_bool False d ''is_transient'') (\<lambda>tr.
     bindE (ditem_or as_str ''1.0.0'' d ''version'') (\<lambda>ver.
       Inr \<lparr>xe_message = msg, xe_error_type = ty, xe_stack_trace = st, xe_is_transient = tr, xe_version = ver\<rparr>)))))"

definition policy_to_dict :: "execution_policy \<Rightarrow> pydict" where
  "policy_to_dict p =
     [(''timeout_seconds'', popt PFloat (xp_timeout_seconds p)), (''max_retries'', PInt (xp_max_retries p)),
      (''retry_delay_seconds'', PFloat (xp_retry_delay_seconds p)), (''priority'', PInt (xp_priority p)),
      (''cpu_limit'', popt PFloat (xp_cpu_limit p)), (''memory_limit_mb'', popt PInt (xp_memory_limit_mb p)),
      (''version'', PStr (xp_version p))]"

definition policy_from_dict :: "pydict \<Rightarrow> py_error + execution_policy" where
  "policy_from_dict d =
     bindE (ditem_or as_opt_float None d ''timeout_seconds'') (\<lambda>ts.
     bindE (ditem_or as_int 0 d ''max_retries'') (\<lambda>mr.
     bindE (ditem_or as_float 1 d ''retry_delay_seconds'') (\<lambda>rd.
     bindE (ditem_or as_int 0 d ''priority'') (\<lambda>pr.
     bindE (ditem_or as_opt_float None d ''cpu_limit'') (\<lambda>cl.
     bindE (ditem_or as_opt_int None d ''memory_limit_mb'') (\<lambda>ml.
     bindE (ditem_or as_str ''1.0.0'' d ''version'') (\<lambda>ver.
       Inr \<lparr>xp_timeout_seconds = ts, xp_max_retries = mr, xp_retry_delay_seconds = rd, xp_priority = pr,
            xp_cpu_limit = cl, xp_memory_limit_mb = ml, xp_version = ver\<rparr>)))))))"

definition request_to_dict :: "execution_request \<Rightarrow> pydict" where
  "request_to_dict q =
     [(''executor_type'', PStr (xq_executor_type q)), (''payload'', PDict (xq_payload q)),
      (''policy'', PDict (policy_to_dict (xq_policy q))), (''version'', PStr (xq_version q))]"

definition request_from_dict :: "pydict \<Rightarrow> py_error + execution_request" where
  "request_from_dict d =
     bindE (ditem_or as_str [] d ''executor_type'') (\<lambda>et.
     bindE (ditem_or as_dict [] d ''payload'') (\<lambda>pl.
     bindE (ditem_or as_dict [] d ''policy'') (\<lambda>pd.
     bindE (policy_from_dict pd) (\<lambda>pol.
     bindE (ditem_or as_str ''1.0.0'' d ''version'') (\<lambda>ver.
       Inr \<lparr>xq_executor_type = et, xq_payload = pl, xq_policy = pol, xq_version = ver\<rparr>)))))"

definition result_to_dict :: "execution_result \<Rightarrow> pydict" where
  "result_to_dict r =
     [(''status'', PStr (execution_status_value (xr_status r))), (''output'', xr_output r),
      (''error'', popt (\<lambda>e. PDict (error_to_dict e)) (xr_error r)),
      (''metadata'', PDict (metadata_to_dict (xr_metadata r))), (''version'', PStr (xr_version r))]"

definition result_from_dict :: "pydict \<Rightarrow> py_error + execution_result" where
  "result_from_dict d =
     bindE (ditem_or as_str ''Failed'' d ''status'') (\<lambda>status_str.
     bindE (execution_status_of status_str) (\<lambda>status.
     bindE (case dget d ''error'' of
              None \<Rightarrow> Inr None
            | Some v \<Rightarrow> if truthy v then bindE (as_dict v) (\<lambda>ed. bindE (error_from_dict ed) (\<lambda>e. Inr (Some e)))
                         else Inr None) (\<lambda>err.
     bindE (ditem_or as_dict [] d ''metadata'') (\<lambda>md.
     bindE (metadata_from_dict md) (\<lambda>metadata.
     bindE (ditem_or Inr PNone d ''output'') (\<lambda>out.
     bindE (ditem_or as_str ''1.0.0'' d ''version'') (\<lambda>ver.
       Inr \<lparr>xr_status = status, xr_output = out, xr_error = err, xr_metadata = metadata, xr_version = ver\<rparr>)))))))"

section \<open>Round trips\<close>

lemma capabilities_roundtrip [simp]: "capabilities_from_dict (capabilities_to_dict c) = Inr c"
  by (simp add: capabilities_from_dict_def capabilities_to_dict_def field_defs)

lemma metadata_roundtrip [simp]: "metadata_from_dict (metadata_to_dict m) = Inr m"
  by (simp add: metadata_from_dict_def metadata_to_dict_def field_defs)

lemma error_roundtrip [simp]: "error_from_dict (error_to_dict e) = Inr e"
  by (simp add: error_from_dict_def error_to_dict_def field_defs)

lemma policy_roundtrip [simp]: "policy_from_dict (policy_to_dict p) = Inr p"
  by (simp add: policy_from_dict_def policy_to_dict_def field_defs)

lemma request_roundtrip [simp]: "request_from_dict (request_to_dict q) = Inr q"
  by (simp add: request_from_dict_def request_to_dict_def field_defs)

lemma result_roundtrip [simp]: "result_from_dict (result_to_dict r) = Inr r"
proof (cases "xr_error r")
  case None
  then show ?thesis by (simp add: result_from_dict_def result_to_dict_def field_defs)
next
  case (Some e)
  then have "error_to_dict e \<noteq> []" by (simp add: error_to_dict_def)
  with Some show ?thesis by (simp add: result_from_dict_def result_to_dict_def field_defs)
qed

end
