(* ===== verification/Execution_Pipeline.thy ===== *)
theory Execution_Pipeline
  imports Execution_Models Runtime_Events Task_Model
begin

text \<open>
  The execution pipeline: \<^verbatim>\<open>executors/middleware/base.py\<close> and \<open>concrete.py\<close>.

  A call gets a request, a context and the world and returns a result, raises, or never returns
  (\<open>C_hang\<close>). The world holds the clock, which sleeping advances, the renderings of times and numbers,
  generated ids, and what services have recorded; a target may extend it with a state of its own. What a timed out thread still does in
  the background is taken to have happened when the timeout is reported.
\<close>

section \<open>Calls\<close>

datatype log_line =
    Log_started string string
  | Log_succeeded string rat
  | Log_failed string string rat string

record exec_world =
  xw_now :: rat
  xw_iso :: "rat \<Rightarrow> string"
  xw_repr :: "rat \<Rightarrow> string"
  xw_gmtime :: "rat \<Rightarrow> string"
  xw_uuid :: "nat \<Rightarrow> string"
  xw_drawn :: nat
  xw_lines :: "log_line list"
  xw_recorded :: "(string \<times> string \<times> rat) list"
  xw_events :: "event_kind list"

datatype call_outcome = C_return execution_result | C_raise exc | C_hang

type_synonym 'z call =
  "execution_request \<Rightarrow> execution_context \<Rightarrow> 'z exec_world_scheme \<Rightarrow> call_outcome \<times> 'z exec_world_scheme"

definition builtin_exc :: "string \<Rightarrow> string \<Rightarrow> exc" where
  "builtin_exc cls msg = \<lparr>exc_mro = [cls, ''Exception'', ''BaseException'', ''object''], exc_msg = msg\<rparr>"

section \<open>Middleware\<close>

definition add_line :: "log_line \<Rightarrow> 'z exec_world_scheme \<Rightarrow> 'z exec_world_scheme" where
  "add_line l w = w\<lparr>xw_lines := xw_lines w @ [l]\<rparr>"

definition logging_process :: "'z call \<Rightarrow> 'z call" where
  "logging_process next_call req ctx w =
     (let start_time = xw_now w
      in case next_call req ctx (add_line (Log_started (xx_task_id ctx) (xq_executor_type req)) w) of
           (C_return result, w1) \<Rightarrow>
             (let duration = xw_now w1 - start_time
              in (C_return result,
                  add_line
                    (if xr_status result = X_SUCCEEDED then Log_succeeded (xx_task_id ctx) duration
                     else Log_failed (xx_task_id ctx) (execution_status_value (xr_status result)) duration
                            (case xr_error result of None \<Rightarrow> ''Unknown execution error'' | Some e \<Rightarrow> xe_message e)) w1))
         | other \<Rightarrow> other)"

definition metrics_process :: "'z call \<Rightarrow> 'z call" where
  "metrics_process next_call req ctx w =
     (case next_call req ctx w of
        (C_return result, w1) \<Rightarrow>
          (C_return result,
           (case xx_services ctx of
              None \<Rightarrow> w1
            | Some sv \<Rightarrow>
                if xv_metrics sv
                then w1\<lparr>xw_recorded := xw_recorded w1 @
                        [(xq_executor_type req, execution_status_value (xr_status result), xw_now w1 - xw_now w)]\<rparr>
                else w1))
      | other \<Rightarrow> other)"

text \<open>\<open>x or y\<close> on optional strings.\<close>

definition or_str :: "string option \<Rightarrow> string \<Rightarrow> string" where
  "or_str x y = (case x of None \<Rightarrow> y | Some s \<Rightarrow> if s = [] then y else s)"

definition tracing_process :: "'z call \<Rightarrow> 'z call" where
  "tracing_process next_call req ctx w =
     (let given = (case xx_correlation_id ctx of None \<Rightarrow> False | Some s \<Rightarrow> s \<noteq> []);
          correlation_id = or_str (xx_correlation_id ctx) (xw_uuid w (xw_drawn w));
          w1 = (if given then w else w\<lparr>xw_drawn := Suc (xw_drawn w)\<rparr>);
          causation_id = or_str (xx_causation_id ctx) (xx_task_id ctx)
      in next_call req (ctx\<lparr>xx_correlation_id := Some correlation_id, xx_causation_id := Some causation_id\<rparr>) w1)"

text \<open>
  \<open>thread.join(timeout)\<close>: the thread is still alive when the call has taken longer than the timeout or
  does not return. An exception outside \<open>Exception\<close> ends the thread without a result.
\<close>

definition timed_out_result :: "rat \<Rightarrow> 'z exec_world_scheme \<Rightarrow> execution_result" where
  "timed_out_result timeout w =
     (new_result X_TIMED_OUT)
       \<lparr>xr_error := Some ((new_error (''Execution exceeded timeout limit of '' @ xw_repr w timeout @ '' seconds.'') ''TimeoutError'')\<lparr>xe_is_transient := True\<rparr>),
        xr_metadata := default_metadata\<lparr>xm_started_at := Some (xw_iso w (xw_now w)),
          xm_completed_at := Some (xw_iso w (xw_now w)), xm_duration_seconds := timeout\<rparr>\<rparr>"

definition timeout_process :: "'z call \<Rightarrow> 'z call" where
  "timeout_process next_call req ctx w =
     (case xp_timeout_seconds (xq_policy req) of
        None \<Rightarrow> next_call req ctx w
      | Some timeout \<Rightarrow>
          if timeout \<le> 0 then next_call req ctx w
          else case next_call req ctx w of
                 (out, w1) \<Rightarrow>
                   if out = C_hang \<or> xw_now w1 > xw_now w + timeout
                   then (let w2 = w1\<lparr>xw_now := xw_now w + timeout\<rparr> in (C_return (timed_out_result timeout w2), w2))
                   else case out of
                          C_raise e \<Rightarrow>
                            (if isinstance_exc e ''Exception'' then C_raise e
                             else C_return ((new_result X_FAILED)
                               \<lparr>xr_error := Some (new_error ''Thread finished without output'' ''InternalError'')\<rparr>), w1)
                        | _ \<Rightarrow> (out, w1))"

text \<open>
  Whether the error is transient is computed and not used. \<open>time.sleep\<close> raises on a negative delay.
\<close>

function retry_loop :: "'z call \<Rightarrow> execution_request \<Rightarrow> execution_context \<Rightarrow> int \<Rightarrow> 'z exec_world_scheme \<Rightarrow>
    call_outcome \<times> 'z exec_world_scheme" where
  "retry_loop next_call req ctx attempts w =
     (case next_call req ctx w of
        (C_return result, w1) \<Rightarrow>
          if xr_status result = X_SUCCEEDED then (C_return result, w1)
          else if attempts \<ge> xp_max_retries (xq_policy req) then (C_return result, w1)
          else (let delay = xp_retry_delay_seconds (xq_policy req);
                    w2 = (case xx_services ctx of
                            None \<Rightarrow> w1
                          | Some sv \<Rightarrow>
                              if xv_event_store sv
                              then w1\<lparr>xw_events := xw_events w1 @ [TaskRetried (xx_task_id ctx) (attempts + 1)]\<rparr>
                              else w1)
                in if delay < 0 then (C_raise (builtin_exc ''ValueError'' ''sleep length must be non-negative''), w2)
                   else retry_loop next_call req ctx (attempts + 1) (w2\<lparr>xw_now := xw_now w2 + delay\<rparr>))
      | other \<Rightarrow> other)"
  by pat_completeness auto
termination
  by (relation "measure (\<lambda>(next_call, req, ctx, attempts, w). nat (xp_max_retries (xq_policy req) - attempts))") auto

declare retry_loop.simps [simp del]

definition retry_process :: "'z call \<Rightarrow> 'z call" where
  "retry_process next_call req ctx w = retry_loop next_call req ctx 0 w"

section \<open>The pipeline\<close>

fun execute_chain :: "('z call \<Rightarrow> 'z call) list \<Rightarrow> 'z call \<Rightarrow> 'z call" where
  "execute_chain [] target_call = target_call"
| "execute_chain (m # ms) target_call = (\<lambda>req ctx w. m (execute_chain ms target_call) req ctx w)"

datatype middleware =
    LoggingMiddleware | MetricsMiddleware | TracingMiddleware | TimeoutMiddleware | RetryMiddleware

fun process :: "middleware \<Rightarrow> 'z call \<Rightarrow> 'z call" where
  "process LoggingMiddleware = logging_process"
| "process MetricsMiddleware = metrics_process"
| "process TracingMiddleware = tracing_process"
| "process TimeoutMiddleware = timeout_process"
| "process RetryMiddleware = retry_process"

definition pipeline_execute :: "middleware list \<Rightarrow> 'z call \<Rightarrow> 'z call" where
  "pipeline_execute ms target_call = execute_chain (map process ms) target_call"

section \<open>Time\<close>

text \<open>The clock never runs backwards over a call; a bounded call returns or raises in time.\<close>

definition forward :: "execution_request \<Rightarrow> 'z call \<Rightarrow> bool" where
  "forward req f \<longleftrightarrow> (\<forall>ctx w. xw_now w \<le> xw_now (snd (f req ctx w)))"

definition bounded :: "execution_request \<Rightarrow> rat \<Rightarrow> 'z call \<Rightarrow> bool" where
  "bounded req b f \<longleftrightarrow> (\<forall>ctx w. fst (f req ctx w) \<noteq> C_hang \<and> xw_now (snd (f req ctx w)) \<le> xw_now w + b)"

text \<open>The time a chain may take under a policy, when it has a timeout in force somewhere.\<close>

fun time_bound :: "execution_policy \<Rightarrow> middleware list \<Rightarrow> rat option" where
  "time_bound p [] = None"
| "time_bound p (TimeoutMiddleware # ms) =
     (case xp_timeout_seconds p of
        None \<Rightarrow> time_bound p ms
      | Some t \<Rightarrow>
          if t \<le> 0 then time_bound p ms
          else Some (case time_bound p ms of None \<Rightarrow> t | Some b \<Rightarrow> min t b))"
| "time_bound p (RetryMiddleware # ms) =
     map_option (\<lambda>b. let n = of_nat (nat (xp_max_retries p)) in (n + 1) * b + n * xp_retry_delay_seconds p)
       (time_bound p ms)"
| "time_bound p (_ # ms) = time_bound p ms"

lemma forwardD: "forward req f \<Longrightarrow> f req ctx w = (out, w1) \<Longrightarrow> xw_now w \<le> xw_now w1"
  by (metis forward_def snd_conv)

lemma boundedD:
  assumes "bounded req b f" and "f req ctx w = (out, w1)"
  shows "out \<noteq> C_hang" and "xw_now w1 \<le> xw_now w + b"
  using assms by (metis bounded_def fst_conv, metis bounded_def snd_conv)

lemma add_line_now [simp]: "xw_now (add_line l w) = xw_now w"
  by (simp add: add_line_def)

lemma logging_time:
  "fst (logging_process f req ctx w) = C_hang \<longleftrightarrow> fst (f req ctx (add_line (Log_started (xx_task_id ctx) (xq_executor_type req)) w)) = C_hang"
  "xw_now (snd (logging_process f req ctx w)) = xw_now (snd (f req ctx (add_line (Log_started (xx_task_id ctx) (xq_executor_type req)) w)))"
  by (auto simp: logging_process_def Let_def split: prod.split call_outcome.split)

lemma metrics_time:
  "fst (metrics_process f req ctx w) = fst (f req ctx w)"
  "xw_now (snd (metrics_process f req ctx w)) = xw_now (snd (f req ctx w))"
  by (auto simp: metrics_process_def split: prod.split call_outcome.split option.split)

lemma tracing_as_call:
  "\<exists>ctx1 w1. tracing_process f req ctx w = f req ctx1 w1 \<and> xw_now w1 = xw_now w"
  unfolding tracing_process_def Let_def by (rule exI, rule exI, rule conjI [OF refl]) simp

lemma passes_time:
  assumes "m \<in> {LoggingMiddleware, MetricsMiddleware, TracingMiddleware}"
  shows "forward req f \<Longrightarrow> forward req (process m f)"
    and "bounded req b f \<Longrightarrow> bounded req b (process m f)"
proof -
  have call: "\<exists>ctx1 w1. xw_now w1 = xw_now w \<and> (fst (process m f req ctx w) = C_hang \<longleftrightarrow> fst (f req ctx1 w1) = C_hang) \<and>
        xw_now (snd (process m f req ctx w)) = xw_now (snd (f req ctx1 w1))" for ctx w
  proof -
    consider "m = LoggingMiddleware" | "m = MetricsMiddleware" | "m = TracingMiddleware"
      using assms by auto
    then show ?thesis
    proof cases
      case 1
      show ?thesis
        by (rule exI [of _ ctx], rule exI [of _ "add_line (Log_started (xx_task_id ctx) (xq_executor_type req)) w"])
          (simp add: 1 logging_time)
    next
      case 2
      show ?thesis by (rule exI [of _ ctx], rule exI [of _ w]) (simp add: 2 metrics_time)
    next
      case 3
      obtain ctx1 w1 where "tracing_process f req ctx w = f req ctx1 w1" "xw_now w1 = xw_now w"
        using tracing_as_call [of f req ctx w] by blast
      then show ?thesis by (intro exI [of _ ctx1] exI [of _ w1]) (simp add: 3)
    qed
  qed
  show "forward req (process m f)" if "forward req f"
    unfolding forward_def
  proof (intro allI)
    fix ctx w
    from call [of w ctx] that show "xw_now w \<le> xw_now (snd (process m f req ctx w))" unfolding forward_def by metis
  qed
  show "bounded req b (process m f)" if "bounded req b f"
    unfolding bounded_def
  proof (intro allI)
    fix ctx w
    from call [of w ctx] that
    show "fst (process m f req ctx w) \<noteq> C_hang \<and> xw_now (snd (process m f req ctx w)) \<le> xw_now w + b"
      unfolding bounded_def by metis
  qed
qed

lemma timeout_off:
  "(case xp_timeout_seconds (xq_policy req) of None \<Rightarrow> True | Some t \<Rightarrow> t \<le> 0) \<Longrightarrow> timeout_process f req = f req"
  by (auto simp: timeout_process_def fun_eq_iff split: option.splits)

lemma forward_timeout:
  assumes "forward req f"
  shows "forward req (timeout_process f)"
  unfolding forward_def
proof (intro allI)
  fix ctx w
  obtain out w1 where f: "f req ctx w = (out, w1)" by fastforce
  with assms have "xw_now w \<le> xw_now w1" by (rule forwardD)
  then show "xw_now w \<le> xw_now (snd (timeout_process f req ctx w))"
    by (auto simp: timeout_process_def f Let_def split: option.split call_outcome.split)
qed

lemma bounded_timeout:
  assumes t: "xp_timeout_seconds (xq_policy req) = Some t" "0 < t"
  shows "bounded req t (timeout_process f)"
    and "bounded req b f \<Longrightarrow> bounded req b (timeout_process f)"
proof -
  show "bounded req t (timeout_process f)"
    unfolding bounded_def
  proof (intro allI)
    fix ctx w
    obtain out w1 where f: "f req ctx w = (out, w1)" by fastforce
    show "fst (timeout_process f req ctx w) \<noteq> C_hang \<and> xw_now (snd (timeout_process f req ctx w)) \<le> xw_now w + t"
      using t by (auto simp: timeout_process_def f Let_def split: call_outcome.split)
  qed
  show "bounded req b (timeout_process f)" if "bounded req b f"
    unfolding bounded_def
  proof (intro allI)
    fix ctx w
    obtain out w1 where f: "f req ctx w = (out, w1)" by fastforce
    from boundedD [OF that f]
    show "fst (timeout_process f req ctx w) \<noteq> C_hang \<and> xw_now (snd (timeout_process f req ctx w)) \<le> xw_now w + b"
      using t by (auto simp: timeout_process_def f Let_def split: call_outcome.split)
  qed
qed

section \<open>Attempts\<close>

text \<open>
  The worlds between the attempts of a retry: after each of the first \<open>i\<close> attempts the retry is
  recorded and the delay slept. An attempt is final when it succeeds, raises or does not return.
\<close>

definition after_attempt :: "execution_request \<Rightarrow> execution_context \<Rightarrow> nat \<Rightarrow> 'z exec_world_scheme \<Rightarrow> 'z exec_world_scheme" where
  "after_attempt req ctx i w =
     (let w1 = (case xx_services ctx of
                  None \<Rightarrow> w
                | Some sv \<Rightarrow>
                    if xv_event_store sv then w\<lparr>xw_events := xw_events w @ [TaskRetried (xx_task_id ctx) (int i)]\<rparr>
                    else w)
      in w1\<lparr>xw_now := xw_now w1 + xp_retry_delay_seconds (xq_policy req)\<rparr>)"

fun attempt_world :: "'z call \<Rightarrow> execution_request \<Rightarrow> execution_context \<Rightarrow> 'z exec_world_scheme \<Rightarrow> nat \<Rightarrow> 'z exec_world_scheme" where
  "attempt_world f req ctx w 0 = w"
| "attempt_world f req ctx w (Suc i) = after_attempt req ctx (Suc i) (snd (f req ctx (attempt_world f req ctx w i)))"

fun final_outcome :: "call_outcome \<Rightarrow> bool" where
  "final_outcome (C_return r) = (xr_status r = X_SUCCEEDED)"
| "final_outcome _ = True"

definition attempt :: "'z call \<Rightarrow> execution_request \<Rightarrow> execution_context \<Rightarrow> 'z exec_world_scheme \<Rightarrow> nat \<Rightarrow> call_outcome \<times> 'z exec_world_scheme" where
  "attempt f req ctx w i = f req ctx (attempt_world f req ctx w i)"

lemma after_attempt_now: "xw_now (after_attempt req ctx i w) = xw_now w + xp_retry_delay_seconds (xq_policy req)"
  by (auto simp: after_attempt_def Let_def split: option.split)

lemma retry_step:
  assumes "0 \<le> xp_retry_delay_seconds (xq_policy req)"
    and "\<not> final_outcome (fst (attempt f req ctx w i))" and "int i < xp_max_retries (xq_policy req)"
  shows "retry_loop f req ctx (int i) (attempt_world f req ctx w i) =
    retry_loop f req ctx (int (Suc i)) (attempt_world f req ctx w (Suc i))"
  using assms
  by (subst retry_loop.simps)
    (auto simp: attempt_def after_attempt_def Let_def add.commute split: prod.split call_outcome.split option.split)

lemma retry_stop:
  assumes "final_outcome (fst (attempt f req ctx w i)) \<or> xp_max_retries (xq_policy req) \<le> int i"
  shows "retry_loop f req ctx (int i) (attempt_world f req ctx w i) = attempt f req ctx w i"
  using assms
  by (subst retry_loop.simps) (auto simp: attempt_def split: prod.split call_outcome.split)

lemma retry_reaches:
  assumes "0 \<le> xp_retry_delay_seconds (xq_policy req)"
    and "\<forall>j < i. \<not> final_outcome (fst (attempt f req ctx w j))"
    and "i \<le> nat (xp_max_retries (xq_policy req))"
  shows "retry_process f req ctx w = retry_loop f req ctx (int i) (attempt_world f req ctx w i)"
  using assms(2,3)
proof (induction i)
  case 0
  show ?case by (simp add: retry_process_def)
next
  case (Suc i)
  then show ?case using retry_step [OF assms(1), of f ctx w i] by simp
qed

lemma retry_outcome:
  assumes "0 \<le> xp_retry_delay_seconds (xq_policy req)"
    and "\<forall>j < i. \<not> final_outcome (fst (attempt f req ctx w j))"
    and "i \<le> nat (xp_max_retries (xq_policy req))"
    and "final_outcome (fst (attempt f req ctx w i)) \<or> i = nat (xp_max_retries (xq_policy req))"
  shows "retry_process f req ctx w = attempt f req ctx w i"
  using retry_reaches [OF assms(1-3)] retry_stop [of f req ctx w i] assms(4) by auto

lemma retry_outcome_exists:
  "\<exists>i \<le> n. (\<forall>j < i. \<not> final_outcome (fst (attempt f req ctx w j))) \<and> (final_outcome (fst (attempt f req ctx w i)) \<or> i = n)"
proof (induction n)
  case (Suc n)
  then obtain i where i: "i \<le> n" "\<forall>j < i. \<not> final_outcome (fst (attempt f req ctx w j))"
    "final_outcome (fst (attempt f req ctx w i)) \<or> i = n" by blast
  show ?case
  proof (cases "final_outcome (fst (attempt f req ctx w i))")
    case True
    with i show ?thesis by (intro exI [of _ i]) simp
  next
    case False
    with i have "\<forall>j < Suc n. \<not> final_outcome (fst (attempt f req ctx w j))" by (auto simp: less_Suc_eq)
    then show ?thesis by blast
  qed
qed simp

lemma attempt_time:
  assumes "bounded req b f"
  shows "xw_now (attempt_world f req ctx w i) \<le> xw_now w + of_nat i * (b + xp_retry_delay_seconds (xq_policy req))"
proof (induction i)
  case (Suc i)
  have "xw_now (snd (f req ctx (attempt_world f req ctx w i))) \<le> xw_now (attempt_world f req ctx w i) + b"
    using assms by (simp add: bounded_def)
  with Suc show ?case by (simp add: after_attempt_now algebra_simps)
qed simp

lemma attempt_forward:
  assumes "forward req f" and "0 \<le> xp_retry_delay_seconds (xq_policy req)"
  shows "xw_now w \<le> xw_now (attempt_world f req ctx w i)"
proof (induction i)
  case (Suc i)
  have "xw_now (attempt_world f req ctx w i) \<le> xw_now (snd (f req ctx (attempt_world f req ctx w i)))"
    using assms(1) by (simp add: forward_def)
  with Suc assms(2) show ?case by (simp add: after_attempt_now)
qed simp

lemma retry_time:
  assumes d: "0 \<le> xp_retry_delay_seconds (xq_policy req)" and fwd: "forward req f"
  shows "forward req (retry_process f)"
    and "bounded req b f \<Longrightarrow>
      bounded req ((of_nat (nat (xp_max_retries (xq_policy req))) + 1) * b +
        of_nat (nat (xp_max_retries (xq_policy req))) * xp_retry_delay_seconds (xq_policy req)) (retry_process f)"
proof -
  let ?n = "nat (xp_max_retries (xq_policy req))"
  let ?d = "xp_retry_delay_seconds (xq_policy req)"
  have run: "\<exists>i \<le> ?n. retry_process f req ctx w = attempt f req ctx w i" for ctx w
    using retry_outcome_exists [of ?n f req ctx w] retry_outcome [OF d, of _ f ctx w] by blast
  show "forward req (retry_process f)"
    unfolding forward_def
  proof (intro allI)
    fix ctx w
    obtain i where "retry_process f req ctx w = attempt f req ctx w i" using run [of ctx w] by blast
    moreover have "xw_now (attempt_world f req ctx w i) \<le> xw_now (snd (attempt f req ctx w i))"
      using fwd by (simp add: forward_def attempt_def)
    ultimately show "xw_now w \<le> xw_now (snd (retry_process f req ctx w))"
      using attempt_forward [OF fwd d, of w ctx i] by simp
  qed
  show "bounded req ((of_nat ?n + 1) * b + of_nat ?n * ?d) (retry_process f)" if b: "bounded req b f"
    unfolding bounded_def
  proof (intro allI)
    fix ctx w
    obtain i where i: "i \<le> ?n" "retry_process f req ctx w = attempt f req ctx w i" using run [of ctx w] by blast
    have "0 \<le> b"
      using forwardD [OF fwd, of ctx w] boundedD(2) [OF b, of ctx w] by (cases "f req ctx w") force
    with d have "of_nat i * (b + ?d) \<le> of_nat ?n * (b + ?d)"
      using i(1) by (intro mult_right_mono) auto
    moreover have "xw_now (snd (attempt f req ctx w i)) \<le> xw_now (attempt_world f req ctx w i) + b"
      and "fst (attempt f req ctx w i) \<noteq> C_hang"
      using b by (simp_all add: bounded_def attempt_def)
    ultimately show "fst (retry_process f req ctx w) \<noteq> C_hang \<and>
        xw_now (snd (retry_process f req ctx w)) \<le> xw_now w + ((of_nat ?n + 1) * b + of_nat ?n * ?d)"
      using attempt_time [OF b, of ctx w i] i(2) by (simp add: algebra_simps)
  qed
qed

lemma chain_Cons: "pipeline_execute (m # ms) f = process m (pipeline_execute ms f)"
  by (simp add: pipeline_execute_def)

lemma chain_Nil: "pipeline_execute [] f = f"
  by (simp add: pipeline_execute_def)

lemma pipeline_forward:
  assumes "forward req f" and "0 \<le> xp_retry_delay_seconds (xq_policy req)"
  shows "forward req (pipeline_execute ms f)"
  using assms
proof (induction ms)
  case (Cons m ms)
  then have f: "forward req (pipeline_execute ms f)" by simp
  show ?case
    unfolding chain_Cons
    using passes_time(1) [OF _ f, of m] forward_timeout [OF f] retry_time(1) [OF Cons.prems(2) f] by (cases m) auto
qed (simp add: chain_Nil)

lemma pipeline_bounded:
  assumes "forward req f" and d: "0 \<le> xp_retry_delay_seconds (xq_policy req)"
    and "time_bound (xq_policy req) ms = Some b"
  shows "bounded req b (pipeline_execute ms f)"
  using assms(3)
proof (induction ms arbitrary: b)
  case (Cons m ms)
  have fwd: "forward req (pipeline_execute ms f)" by (rule pipeline_forward) (use assms in auto)
  note IH = Cons.IH
  show ?case
  proof (cases m)
    case TimeoutMiddleware
    show ?thesis
    proof (cases "case xp_timeout_seconds (xq_policy req) of None \<Rightarrow> True | Some t \<Rightarrow> t \<le> 0")
      case True
      then have "process m (pipeline_execute ms f) req = pipeline_execute ms f req"
        using timeout_off [of req] by (simp add: TimeoutMiddleware)
      moreover have "bounded req b (pipeline_execute ms f)"
        by (rule IH) (use Cons.prems TimeoutMiddleware True in \<open>auto split: option.splits\<close>)
      ultimately show ?thesis by (simp add: chain_Cons bounded_def)
    next
      case False
      then obtain t where t: "xp_timeout_seconds (xq_policy req) = Some t" "0 < t" by (auto split: option.splits)
      show ?thesis
        using bounded_timeout [OF t, where f = "pipeline_execute ms f"] IH Cons.prems t
        by (cases "time_bound (xq_policy req) ms") (auto simp: TimeoutMiddleware chain_Cons min_def)
    qed
  next
    case RetryMiddleware
    with Cons.prems obtain c where c: "time_bound (xq_policy req) ms = Some c" by auto
    show ?thesis
      using retry_time(2) [OF d fwd IH [OF c]] Cons.prems by (simp add: RetryMiddleware chain_Cons c Let_def)
  qed (use IH Cons.prems passes_time(2) [of m _ _ "pipeline_execute ms f"] in \<open>auto simp: chain_Cons\<close>)
qed simp

end
