(* ===== verification/Executors.thy ===== *)
theory Executors
  imports Execution_Pipeline
begin

text \<open>
  The executors: the adapter of \<^verbatim>\<open>executors/adapters/legacy_adapter.py\<close>, the environment of
  \<^verbatim>\<open>executors/environment/local.py\<close> and the mock, function, shell, Python and HTTP executors.

  What the operating system, the network and the code of a task do is a parameter: starting a process,
  opening a URL and calling a function take the world and return an outcome and the world in which it
  is known. A process or a call that is cut off by a timeout leaves the world of its end with the clock
  set back to the timeout. Payload entries are read at the types the executors use them at; where Python
  would fail on another type later, reading it is a type error here.
\<close>

section \<open>Text\<close>

definition upper_char :: "char \<Rightarrow> char" where
  "upper_char c = (let n = (of_char c :: nat) in if 97 \<le> n \<and> n \<le> 122 then char_of (n - 32) else c)"

section \<open>Executors and the legacy adapter\<close>

text \<open>An executor of the new interface: its class name and its hooks.\<close>

record 'w executor =
  ex_class :: string
  ex_before :: "execution_request \<Rightarrow> execution_context \<Rightarrow> 'w \<Rightarrow> exc option \<times> 'w"
  ex_execute :: "execution_request \<Rightarrow> execution_context \<Rightarrow> 'w \<Rightarrow> call_outcome \<times> 'w"
  ex_after :: "execution_request \<Rightarrow> execution_result \<Rightarrow> execution_context \<Rightarrow> 'w \<Rightarrow> exc option \<times> 'w"
  ex_cleanup :: "execution_request \<Rightarrow> execution_context \<Rightarrow> 'w \<Rightarrow> exc option \<times> 'w"

text \<open>The executors of the repository have hooks that do nothing.\<close>

definition plain_executor :: "string \<Rightarrow> (execution_request \<Rightarrow> execution_context \<Rightarrow> 'w \<Rightarrow> call_outcome \<times> 'w) \<Rightarrow> 'w executor" where
  "plain_executor cls f =
     \<lparr>ex_class = cls, ex_before = (\<lambda>req ctx w. (None, w)), ex_execute = f,
      ex_after = (\<lambda>req result ctx w. (None, w)), ex_cleanup = (\<lambda>req ctx w. (None, w))\<rparr>"

datatype adapter_outcome = A_return | A_raise exc | A_hang

definition legacy_timeout :: "task \<Rightarrow> rat option" where
  "legacy_timeout t =
     (case dget (meta_of t) ''timeout_policy'' of
        Some (PTimeoutPolicy p) \<Rightarrow> Some (timeout_seconds p)
      | _ \<Rightarrow> None)"

definition legacy_request :: "string \<Rightarrow> task \<Rightarrow> py_error + execution_request" where
  "legacy_request cls t =
     bindE (ditem_or as_int 0 (meta_of t) ''max_retries'') (\<lambda>mr.
     bindE (ditem_or as_float 1 (meta_of t) ''retry_delay'') (\<lambda>rd.
       Inr \<lparr>xq_executor_type = cls,
            xq_payload = [(''task_id'', PStr (t_id t)), (''title'', PStr (t_title t)), (''metadata'', PDict (meta_of t))],
            xq_policy = default_policy\<lparr>xp_timeout_seconds := legacy_timeout t, xp_max_retries := mr,
              xp_retry_delay_seconds := rd\<rparr>,
            xq_version = ''1.0.0''\<rparr>))"

text \<open>The adapter's store, when it has one, and whether that has an event store.\<close>

definition legacy_context :: "bool option \<Rightarrow> task \<Rightarrow> py_error + execution_context" where
  "legacy_context store t =
     bindE (ditem_or as_opt_str None (meta_of t) ''correlation_id'') (\<lambda>corr.
     bindE (ditem_or as_opt_str None (meta_of t) ''causation_id'') (\<lambda>caus.
       Inr \<lparr>xx_runtime_id = ''default-runtime'', xx_task_id = t_id t, xx_worker_id = ''LegacyWorker'',
            xx_correlation_id = corr, xx_causation_id = caus, xx_deadline = None, xx_resource_limits = [],
            xx_services = Some \<lparr>xv_metrics = False, xv_event_store = (store = Some True),
              xv_state_store = (store \<noteq> None), xv_configuration = [], xv_version = ''1.0.0''\<rparr>,
            xx_version = ''1.0.0''\<rparr>))"

definition lifecycle ::
  "'w executor \<Rightarrow> execution_request \<Rightarrow> execution_context \<Rightarrow> 'w \<Rightarrow> adapter_outcome \<times> 'w" where
  "lifecycle ex req ctx w =
     (case ex_execute ex req ctx w of
        (C_hang, w1) \<Rightarrow> (A_hang, w1)
      | (C_raise e, w1) \<Rightarrow> (A_raise e, w1)
      | (C_return result, w1) \<Rightarrow>
          (case ex_after ex req result ctx w1 of
             (Some e, w2) \<Rightarrow> (A_raise e, w2)
           | (None, w2) \<Rightarrow>
               (if xr_status result \<noteq> X_SUCCEEDED
                then A_raise (builtin_exc ''RuntimeError''
                       (case xr_error result of None \<Rightarrow> ''Execution failed'' | Some e \<Rightarrow> xe_message e))
                else A_return, w2)))"

text \<open>An exception of the cleanup replaces the one in flight.\<close>

definition legacy_execute :: "bool option \<Rightarrow> 'w executor \<Rightarrow> task \<Rightarrow> 'w \<Rightarrow> adapter_outcome \<times> 'w" where
  "legacy_execute store ex t w =
     (case bindE (legacy_request (ex_class ex) t) (\<lambda>req. bindE (legacy_context store t) (\<lambda>ctx. Inr (req, ctx))) of
        Inl e \<Rightarrow> (A_raise (builtin_exc ''TypeError'' []), w)
      | Inr (req, ctx) \<Rightarrow>
          (case ex_before ex req ctx w of
             (Some e, w1) \<Rightarrow> (A_raise e, w1)
           | (None, w1) \<Rightarrow>
               (case lifecycle ex req ctx w1 of
                  (A_hang, w2) \<Rightarrow> (A_hang, w2)
                | (out, w2) \<Rightarrow>
                    (case ex_cleanup ex req ctx w2 of
                       (Some e, w3) \<Rightarrow> (A_raise e, w3)
                     | (None, w3) \<Rightarrow> (out, w3)))))"

section \<open>The mock executor\<close>

definition span_metadata :: "rat \<Rightarrow> 'z exec_world_scheme \<Rightarrow> execution_metadata" where
  "span_metadata start_time w =
     default_metadata\<lparr>xm_started_at := Some (xw_gmtime w start_time),
       xm_completed_at := Some (xw_gmtime w (xw_now w)), xm_duration_seconds := xw_now w - start_time\<rparr>"

definition capabilities :: "string list \<Rightarrow> execution_capabilities" where
  "capabilities tags = \<lparr>xc_tags = tags, xc_version = ''1.0.0''\<rparr>"

definition mock_capabilities :: execution_capabilities where
  "mock_capabilities = capabilities [''mock'', ''local'', ''sync'']"

definition mock_execute :: "'z call" where
  "mock_execute req ctx w =
     (let start_time = xw_now w; pl = xq_payload req
      in case bindE (ditem_or as_float 0 pl ''delay_seconds'') (\<lambda>delay.
              bindE (ditem_or as_bool False pl ''is_transient'') (\<lambda>tr.
              bindE (ditem_or as_str ''Mock forced execution failure'' pl ''error_message'') (\<lambda>msg. Inr (delay, tr, msg)))) of
           Inl e \<Rightarrow> (C_raise (builtin_exc ''TypeError'' []), w)
         | Inr (delay, tr, msg) \<Rightarrow>
             (let w1 = (if delay > 0 then w\<lparr>xw_now := xw_now w + delay\<rparr> else w);
                  force_error = (case dget pl ''force_error'' of None \<Rightarrow> False | Some v \<Rightarrow> truthy v)
              in if force_error
                 then (C_return ((new_result X_FAILED)
                         \<lparr>xr_error := Some ((new_error msg ''MockExecutorError'')\<lparr>xe_is_transient := tr\<rparr>),
                          xr_metadata := span_metadata start_time w1\<rparr>), w1)
                 else (C_return ((new_result X_SUCCEEDED)
                         \<lparr>xr_output := (case dget pl ''output'' of None \<Rightarrow> PStr ''Mock Success'' | Some v \<Rightarrow> v),
                          xr_metadata := span_metadata start_time w1\<rparr>), w1)))"

section \<open>The function executor\<close>

text \<open>What calling a Python function comes to.\<close>

datatype call_value = V_returns pyval | V_raises exc | V_never

text \<open>
  A registered function is its parameters, each with or without a default, and what a call with keyword
  arguments does.
\<close>

datatype injected =
    I_value pyval
  | I_logger
  | I_event_store
  | I_state_store
  | I_config pydict
  | I_context execution_context

record 'w py_function =
  fn_params :: "(string \<times> bool) list"
  fn_call :: "(string \<times> injected) list \<Rightarrow> 'w \<Rightarrow> call_value \<times> 'w"

record 'w function_executor =
  fx_functions :: "(string \<times> 'w py_function) list"
  fx_dependencies :: pydict

definition register_function :: "string \<Rightarrow> 'w py_function \<Rightarrow> 'w function_executor \<Rightarrow> 'w function_executor" where
  "register_function nm func x = x\<lparr>fx_functions := dset nm func (fx_functions x)\<rparr>"

definition register_dependency :: "string \<Rightarrow> pyval \<Rightarrow> 'w function_executor \<Rightarrow> 'w function_executor" where
  "register_dependency nm v x = x\<lparr>fx_dependencies := dset nm v (fx_dependencies x)\<rparr>"

definition function_capabilities :: execution_capabilities where
  "function_capabilities = capabilities [''function'', ''local'', ''dependency-injection'']"

definition resolve_param ::
  "pydict \<Rightarrow> pydict \<Rightarrow> execution_context \<Rightarrow> string \<Rightarrow> injected option" where
  "resolve_param kws deps ctx p =
     (case dget kws p of
        Some v \<Rightarrow> Some (I_value v)
      | None \<Rightarrow>
          (case dget deps p of
             Some v \<Rightarrow> Some (I_value v)
           | None \<Rightarrow>
               (case xx_services ctx of
                  Some sv \<Rightarrow>
                    if p = ''logger'' then Some I_logger
                    else if p = ''event_store'' \<and> xv_event_store sv then Some I_event_store
                    else if p = ''state_store'' \<and> xv_state_store sv then Some I_state_store
                    else if p = ''config'' \<and> xv_configuration sv \<noteq> [] then Some (I_config (xv_configuration sv))
                    else if p = ''context'' then Some (I_context ctx)
                    else None
                | None \<Rightarrow> if p = ''context'' then Some (I_context ctx) else None)))"

fun inject ::
  "pydict \<Rightarrow> pydict \<Rightarrow> execution_context \<Rightarrow> (string \<times> bool) list \<Rightarrow> exc + (string \<times> injected) list" where
  "inject kws deps ctx [] = Inr []"
| "inject kws deps ctx ((p, has_default) # ps) =
     (case resolve_param kws deps ctx p of
        Some v \<Rightarrow> bindE (inject kws deps ctx ps) (\<lambda>xs. Inr ((p, v) # xs))
      | None \<Rightarrow>
          if has_default then inject kws deps ctx ps
          else Inl (builtin_exc ''RuntimeError''
                 (''Dependency injection failed: Parameter '' @ squoted p @ '' is required but not resolved.'')))"

definition function_execute :: "'z exec_world_scheme function_executor \<Rightarrow> 'z call" where
  "function_execute x req ctx w =
     (case bindE (ditem_or as_opt_str None (xq_payload req) ''function_name'') (\<lambda>func_name.
           bindE (ditem_or as_dict [] (xq_payload req) ''kwargs'') (\<lambda>kws. Inr (func_name, kws))) of
        Inl e \<Rightarrow> (C_raise (builtin_exc ''TypeError'' []), w)
      | Inr (func_name, kws) \<Rightarrow>
          if or_str func_name [] = []
          then (C_raise (builtin_exc ''ValueError''
                  (''ExecutionRequest payload must contain '' @ squoted ''function_name'' @ ''.'')), w)
          else
            (case dget (fx_functions x) (or_str func_name []) of
               None \<Rightarrow> (C_raise (builtin_exc ''ValueError''
                         (''No function registered with name: '' @ or_str func_name [])), w)
             | Some func \<Rightarrow>
                 (case inject kws (fx_dependencies x) ctx (fn_params func) of
                    Inl e \<Rightarrow> (C_raise e, w)
                  | Inr args \<Rightarrow>
                      (case fn_call func args w of
                         (V_never, w1) \<Rightarrow> (C_hang, w1)
                       | (V_returns output, w1) \<Rightarrow>
                           (C_return ((new_result X_SUCCEEDED)\<lparr>xr_output := output,
                              xr_metadata := span_metadata (xw_now w) w1\<rparr>), w1)
                       | (V_raises e, w1) \<Rightarrow>
                           (if isinstance_exc e ''Exception''
                            then C_return ((new_result X_FAILED)
                                   \<lparr>xr_error := Some (new_error (exc_msg e) (hd (exc_mro e))),
                                    xr_metadata := span_metadata (xw_now w) w1\<rparr>)
                            else C_raise e, w1)))))"

end
