(* ===== verification/Local_Environment.thy ===== *)
theory Local_Environment
  imports Executors
begin

text \<open>
  The local execution environment of \<^verbatim>\<open>executors/environment/local.py\<close> and the executors that run
  in it: \<open>shell_executor.py\<close> with the standard library's \<open>shlex.split\<close>, and \<open>python_executor.py\<close>.
\<close>

section \<open>The environment\<close>

text \<open>
  A started process exits by itself, at the time of the world returned with it, or never does; killed
  after a time it leaves what it has written by then, unless something else keeps its pipes open.
\<close>

datatype proc =
    P_fails exc
  | P_runs "(int \<times> string \<times> string) option" "rat \<Rightarrow> (string \<times> string) option"

record 'w environment =
  env_chroot :: "string option"
  env_makedirs :: "string \<Rightarrow> 'w \<Rightarrow> exc option \<times> 'w"
  env_popen :: "string list \<Rightarrow> string option \<Rightarrow> 'w \<Rightarrow> proc \<times> 'w"

datatype 'w runnable = R_command "string list" | R_mistyped_command | R_callable "'w \<Rightarrow> call_value \<times> 'w" | R_other

definition env_capabilities :: execution_capabilities where
  "env_capabilities = capabilities [''local'', ''host'', ''cpu'', ''trusted'']"

definition chroot_of :: "'w environment \<Rightarrow> string option" where
  "chroot_of env = (case env_chroot env of None \<Rightarrow> None | Some d \<Rightarrow> if d = [] then None else Some d)"

definition before_run :: "'w environment \<Rightarrow> 'w \<Rightarrow> exc option \<times> 'w" where
  "before_run env w = (case chroot_of env of None \<Rightarrow> (None, w) | Some d \<Rightarrow> env_makedirs env d w)"

definition datetime_iso :: "rat \<Rightarrow> 'z exec_world_scheme \<Rightarrow> string" where
  "datetime_iso t w = xw_iso w (if t = 0 then xw_now w else t)"

definition run_metadata :: "rat \<Rightarrow> pydict \<Rightarrow> 'z exec_world_scheme \<Rightarrow> execution_metadata" where
  "run_metadata start_time extra w =
     default_metadata\<lparr>xm_started_at := Some (datetime_iso start_time w), xm_completed_at := Some (xw_iso w (xw_now w)),
       xm_duration_seconds := xw_now w - start_time, xm_extra := extra\<rparr>"

definition timeout_exc :: "string \<Rightarrow> exc" where
  "timeout_exc msg = \<lparr>exc_mro = [''TimeoutError'', ''OSError'', ''Exception'', ''BaseException'', ''object''],
     exc_msg = msg\<rparr>"

definition expired :: "rat option \<Rightarrow> bool \<Rightarrow> rat \<Rightarrow> rat \<Rightarrow> rat option" where
  "expired timeout never start end_time =
     (case timeout of
        None \<Rightarrow> None
      | Some t \<Rightarrow> if never \<or> end_time > start + max 0 t then Some t else None)"

definition run_subprocess ::
  "'z exec_world_scheme environment \<Rightarrow> string list \<Rightarrow> rat option \<Rightarrow> 'z exec_world_scheme \<Rightarrow> call_outcome \<times> 'z exec_world_scheme" where
  "run_subprocess env cmd timeout w =
     (case env_popen env cmd (chroot_of env) w of
        (P_fails e, w1) \<Rightarrow> (C_raise e, w1)
      | (P_runs finish killed, w1) \<Rightarrow>
          (case expired timeout (finish = None) (xw_now w) (xw_now w1) of
             Some t \<Rightarrow>
               (let w2 = w1\<lparr>xw_now := xw_now w + max 0 t\<rparr>
                in case killed (max 0 t) of
                     None \<Rightarrow> (C_hang, w2)
                   | Some (out, err) \<Rightarrow>
                       (C_raise (timeout_exc (''Subprocess execution timed out after '' @ xw_repr w t @
                          '' seconds. Stdout: '' @ out @ ''. Stderr: '' @ err)), w2))
           | None \<Rightarrow>
               (case finish of
                  None \<Rightarrow> (C_hang, w1)
                | Some (code, out, err) \<Rightarrow>
                    (let md = run_metadata (xw_now w)
                           [(''stdout'', PStr out), (''stderr'', PStr err), (''exit_code'', PInt code)] w1
                     in (C_return
                           (if code \<noteq> 0
                            then (new_result X_FAILED)\<lparr>xr_output := PStr out,
                                   xr_error := Some (new_error (''Process exited with non-zero code '' @ int_str code @
                                     ''. Stderr: '' @ err) ''SubprocessError''), xr_metadata := md\<rparr>
                            else (new_result X_SUCCEEDED)\<lparr>xr_output := PStr out, xr_metadata := md\<rparr>), w1)))))"

text \<open>
  With a timeout the function runs in a thread that catches \<open>Exception\<close>; one outside that class ends
  the thread with neither a result nor an exception, and the output is \<open>None\<close>.
\<close>

definition run_callable ::
  "('z exec_world_scheme \<Rightarrow> call_value \<times> 'z exec_world_scheme) \<Rightarrow> rat option \<Rightarrow> 'z exec_world_scheme \<Rightarrow>
   call_outcome \<times> 'z exec_world_scheme" where
  "run_callable target timeout w =
     (let threaded = (case timeout of None \<Rightarrow> False | Some t \<Rightarrow> t \<noteq> 0);
          finish = (\<lambda>v w1. (C_return ((new_result X_SUCCEEDED)\<lparr>xr_output := v,
                              xr_metadata := run_metadata (xw_now w) [] w1\<rparr>), w1))
      in case target w of
           (out, w1) \<Rightarrow>
             (case (if threaded then expired timeout (out = V_never) (xw_now w) (xw_now w1) else None) of
                Some t \<Rightarrow>
                  (C_raise (timeout_exc (''Callable execution exceeded timeout threshold of '' @ xw_repr w t @ '' seconds.'')),
                   w1\<lparr>xw_now := xw_now w + max 0 t\<rparr>)
              | None \<Rightarrow>
                  (case out of
                     V_never \<Rightarrow> (C_hang, w1)
                   | V_returns v \<Rightarrow> finish v w1
                   | V_raises e \<Rightarrow>
                       if threaded \<and> \<not> isinstance_exc e ''Exception'' then finish PNone w1 else (C_raise e, w1))))"

definition run_in_env ::
  "'z exec_world_scheme environment \<Rightarrow> execution_request \<Rightarrow> 'z exec_world_scheme runnable \<Rightarrow> 'z exec_world_scheme \<Rightarrow>
   call_outcome \<times> 'z exec_world_scheme" where
  "run_in_env env req target w =
     (case before_run env w of
        (Some e, w1) \<Rightarrow> (C_raise e, w1)
      | (None, w1) \<Rightarrow>
          (case (case target of
                   R_command cmd \<Rightarrow> run_subprocess env cmd (xp_timeout_seconds (xq_policy req)) w1
                 | R_mistyped_command \<Rightarrow> (C_raise (builtin_exc ''TypeError'' []), w1)
                 | R_callable f \<Rightarrow> run_callable f (xp_timeout_seconds (xq_policy req)) w1
                 | R_other \<Rightarrow> (C_raise (builtin_exc ''ValueError''
                     ''Target execution object must be a shell command list or a Python callable.''), w1)) of
             (C_raise e, w2) \<Rightarrow>
               if isinstance_exc e ''TimeoutError''
               then (C_return ((new_result X_TIMED_OUT)
                       \<lparr>xr_error := Some ((new_error (exc_msg e) ''TimeoutError'')\<lparr>xe_is_transient := True\<rparr>),
                        xr_metadata := run_metadata (xw_now w) [] w2\<rparr>), w2)
               else if isinstance_exc e ''Exception''
               then (C_return ((new_result X_FAILED)
                       \<lparr>xr_error := Some (new_error (exc_msg e) (hd (exc_mro e))),
                        xr_metadata := run_metadata (xw_now w) [] w2\<rparr>), w2)
               else (C_raise e, w2)
           | other \<Rightarrow> other))"

section \<open>The shell executor\<close>

text \<open>
  \<open>shlex.split\<close>: the state is between words, in a word, in quotes, or after a backslash with the state
  to come back to; beside it the characters of the word so far and whether it had quotes.
\<close>

datatype shlex_state = Sh_space | Sh_word | Sh_quote char | Sh_escape shlex_state

abbreviation sq :: char where "sq \<equiv> CHR 0x27"
abbreviation dq :: char where "dq \<equiv> CHR 0x22"
abbreviation backslash :: char where "backslash \<equiv> CHR 0x5C"

definition shlex_space :: "char \<Rightarrow> bool" where
  "shlex_space c \<longleftrightarrow> c = CHR '' '' \<or> c = CHR 0x09 \<or> c = CHR 0x0D \<or> c = CHR 0x0A"

fun shlex_from :: "shlex_state \<Rightarrow> string \<Rightarrow> bool \<Rightarrow> string \<Rightarrow> string + string list" where
  "shlex_from Sh_space tok q [] = Inr []"
| "shlex_from Sh_word tok q [] = Inr (if tok \<noteq> [] \<or> q then [tok] else [])"
| "shlex_from (Sh_quote d) tok q [] = Inl ''No closing quotation''"
| "shlex_from (Sh_escape st) tok q [] = Inl ''No escaped character''"
| "shlex_from Sh_space tok q (c # cs) =
     (if shlex_space c then shlex_from Sh_space [] False cs
      else if c = backslash then shlex_from (Sh_escape Sh_word) [] False cs
      else if c = sq \<or> c = dq then shlex_from (Sh_quote c) [] False cs
      else shlex_from Sh_word [c] False cs)"
| "shlex_from Sh_word tok q (c # cs) =
     (if shlex_space c
      then (if tok \<noteq> [] \<or> q then (case shlex_from Sh_space [] False cs of Inl e \<Rightarrow> Inl e | Inr ws \<Rightarrow> Inr (tok # ws))
            else shlex_from Sh_space [] False cs)
      else if c = sq \<or> c = dq then shlex_from (Sh_quote c) tok q cs
      else if c = backslash then shlex_from (Sh_escape Sh_word) tok q cs
      else shlex_from Sh_word (tok @ [c]) q cs)"
| "shlex_from (Sh_quote d) tok q (c # cs) =
     (if c = d then shlex_from Sh_word tok True cs
      else if c = backslash \<and> d = dq then shlex_from (Sh_escape (Sh_quote d)) tok True cs
      else shlex_from (Sh_quote d) (tok @ [c]) True cs)"
| "shlex_from (Sh_escape st) tok q (c # cs) =
     shlex_from st
       (case st of
          Sh_quote d \<Rightarrow> if c \<noteq> backslash \<and> c \<noteq> d then tok @ [backslash, c] else tok @ [c]
        | _ \<Rightarrow> tok @ [c]) q cs"

definition shlex_split :: "string \<Rightarrow> string + string list" where
  "shlex_split s = shlex_from Sh_space [] False s"

definition shell_capabilities :: execution_capabilities where
  "shell_capabilities = capabilities [''shell'', ''filesystem'', ''subprocess'', ''trusted'']"

definition shell_execute :: "'z exec_world_scheme environment \<Rightarrow> 'z call" where
  "shell_execute env req ctx w =
     (let cmd = (case dget (xq_payload req) ''command'' of None \<Rightarrow> PNone | Some v \<Rightarrow> v)
      in if \<not> truthy cmd
         then (C_raise (builtin_exc ''ValueError'' (''ExecutionRequest payload must contain '' @ squoted ''command'' @
                 '' (string or list of strings).'')), w)
         else case cmd of
                PStr s \<Rightarrow>
                  (case shlex_split s of
                     Inl msg \<Rightarrow> (C_raise (builtin_exc ''ValueError'' msg), w)
                   | Inr ws \<Rightarrow> run_in_env env req (R_command ws) w)
              | PList xs \<Rightarrow>
                  run_in_env env req
                    (case mapE as_str xs of Inl e \<Rightarrow> R_mistyped_command | Inr ws \<Rightarrow> R_command ws) w
              | _ \<Rightarrow> run_in_env env req R_other w)"

section \<open>The Python executor\<close>

text \<open>A callable: whether a call binds to its signature, with the message when not, and the call.\<close>

record 'w pycallable =
  pc_bind :: "pyval list \<Rightarrow> pydict \<Rightarrow> string option"
  pc_call :: "pyval list \<Rightarrow> pydict \<Rightarrow> 'w \<Rightarrow> call_value \<times> 'w"

definition python_capabilities :: execution_capabilities where
  "python_capabilities = capabilities [''python'', ''local'', ''cpu'', ''trusted'', ''sync'']"

definition nullary :: "('w \<Rightarrow> call_value \<times> 'w) \<Rightarrow> 'w pycallable" where
  "nullary f =
     \<lparr>pc_bind = (\<lambda>args kws. if args \<noteq> [] then Some ''too many positional arguments''
                   else case kws of [] \<Rightarrow> None
                        | (k, v) # rest \<Rightarrow> Some (''got an unexpected keyword argument '' @ squoted k)),
      pc_call = (\<lambda>args kws. f)\<rparr>"

text \<open>\<open>given\<close> is the callable in the payload; \<open>run_code\<close> is what executing a program text does.\<close>

definition python_target ::
  "(string \<Rightarrow> 'w \<Rightarrow> call_value \<times> 'w) \<Rightarrow> 'w pycallable option \<Rightarrow> string option \<Rightarrow> string \<Rightarrow> 'w pycallable" where
  "python_target run_code given code title =
     (case given of
        Some f \<Rightarrow> f
      | None \<Rightarrow>
          if or_str code [] \<noteq> [] then nullary (run_code (or_str code []))
          else nullary (\<lambda>w. (V_returns (PStr (''Executed task: '' @ title)), w)))"

definition python_execute ::
  "'z exec_world_scheme environment \<Rightarrow> (string \<Rightarrow> 'z exec_world_scheme \<Rightarrow> call_value \<times> 'z exec_world_scheme) \<Rightarrow>
   'z exec_world_scheme pycallable option \<Rightarrow> 'z call" where
  "python_execute env run_code given req ctx w =
     (let pl = xq_payload req
      in case bindE (ditem_or as_list [] pl ''args'') (\<lambda>args.
              bindE (ditem_or as_dict [] pl ''kwargs'') (\<lambda>kws.
              bindE (ditem_or as_opt_str None pl ''code'') (\<lambda>code.
              bindE (ditem_or as_str ''No Title'' pl ''title'') (\<lambda>title. Inr (args, kws, code, title))))) of
           Inl e \<Rightarrow> (C_raise (builtin_exc ''TypeError'' []), w)
         | Inr (args, kws, code, title) \<Rightarrow>
             (let target = python_target run_code given code title
              in case pc_bind target args kws of
                   Some msg \<Rightarrow> (C_raise (builtin_exc ''ValueError'' (''Argument signature binding mismatch: '' @ msg)), w)
                 | None \<Rightarrow> run_in_env env req (R_callable (pc_call target args kws)) w))"

end
