(* ===== verification/Http_Executor.thy ===== *)
theory Http_Executor
  imports Executors
begin

text \<open>
  The HTTP executor of \<^verbatim>\<open>executors/http_executor.py\<close>. Opening a URL and parsing JSON text are
  parameters; of the standard library the checks \<open>urllib.request.Request\<close> makes on its URL are written
  out. The bodies are text: a dictionary is sent as its JSON encoding, a string as it is.
\<close>

datatype http_body = Body_json json_text | Body_text string

record http_request =
  hr_url :: string
  hr_method :: string
  hr_headers :: pydict
  hr_body :: "http_body option"
  hr_timeout :: rat

text \<open>A body that is not UTF-8 raises when it is decoded.\<close>

datatype http_outcome =
    H_response int pydict "exc + string"
  | H_error int string pydict "exc + string"
  | H_unreachable string
  | H_raises exc
  | H_never

definition http_capabilities :: execution_capabilities where
  "http_capabilities = capabilities [''http'', ''network'', ''rest'', ''external'']"

definition unwrap_url :: "string \<Rightarrow> string" where
  "unwrap_url url =
     (let u = strip url;
          v = (if u \<noteq> [] \<and> hd u = CHR ''<'' \<and> last u = CHR ''>'' then strip (butlast (tl u)) else u)
      in if take 4 v = ''URL:'' then strip (drop 4 v) else v)"

text \<open>The text after the last hash sign is the fragment and not looked at.\<close>

definition without_fragment :: "string \<Rightarrow> string" where
  "without_fragment u = (if CHR ''#'' \<in> set u then rev (tl (dropWhile (\<lambda>c. c \<noteq> CHR ''#'') (rev u))) else u)"

text \<open>A scheme is one or more characters other than a slash or a colon, before a colon.\<close>

definition has_scheme :: "string \<Rightarrow> bool" where
  "has_scheme u =
     (let s = takeWhile (\<lambda>c. c \<noteq> CHR ''/'' \<and> c \<noteq> CHR '':'') u
      in s \<noteq> [] \<and> take 1 (drop (length s) u) = '':'')"

definition http_data :: "pyval \<Rightarrow> pydict \<Rightarrow> py_error + (http_body option \<times> pydict)" where
  "http_data body headers =
     (case body of
        PDict d \<Rightarrow>
          if d = [] then Inr (None, headers)
          else bindE (json_dumps (PDict d)) (\<lambda>t.
            Inr (Some (Body_json t),
                 if dget headers ''Content-Type'' = None
                 then dset ''Content-Type'' (PStr ''application/json'') headers else headers))
      | PStr s \<Rightarrow> Inr (if s = [] then None else Some (Body_text s), headers)
      | _ \<Rightarrow> Inr (None, headers))"

definition http_timeout :: "execution_policy \<Rightarrow> rat" where
  "http_timeout p = (case xp_timeout_seconds p of None \<Rightarrow> 10 | Some t \<Rightarrow> if t = 0 then 10 else t)"

definition http_span :: "rat \<Rightarrow> pydict \<Rightarrow> 'z exec_world_scheme \<Rightarrow> execution_metadata" where
  "http_span start_time extra w = span_metadata start_time w\<lparr>xm_extra := extra\<rparr>"

definition http_failed :: "string \<Rightarrow> string \<Rightarrow> bool \<Rightarrow> execution_metadata \<Rightarrow> execution_result" where
  "http_failed msg ty transient md =
     (new_result X_FAILED)\<lparr>xr_error := Some ((new_error msg ty)\<lparr>xe_is_transient := transient\<rparr>), xr_metadata := md\<rparr>"

definition http_raised :: "rat \<Rightarrow> exc \<Rightarrow> 'z exec_world_scheme \<Rightarrow> call_outcome" where
  "http_raised start e w =
     (if isinstance_exc e ''Exception''
      then C_return (http_failed (exc_msg e) (hd (exc_mro e)) False (http_span start [] w))
      else C_raise e)"

definition http_result :: "(string \<Rightarrow> pyval option) \<Rightarrow> rat \<Rightarrow> http_outcome \<Rightarrow> 'z exec_world_scheme \<Rightarrow> call_outcome" where
  "http_result json_parse start out w =
     (case out of
        H_never \<Rightarrow> C_hang
      | H_raises e \<Rightarrow> http_raised start e w
      | H_unreachable reason \<Rightarrow>
          C_return (http_failed (''Network URL connection failed: '' @ reason) ''URLError'' True (http_span start [] w))
      | H_response status headers body \<Rightarrow>
          (case body of
             Inl e \<Rightarrow> http_raised start e w
           | Inr text \<Rightarrow>
               C_return ((new_result X_SUCCEEDED)
                 \<lparr>xr_output := (case json_parse text of None \<Rightarrow> PStr text | Some v \<Rightarrow> v),
                  xr_metadata := http_span start [(''status_code'', PInt status), (''headers'', PDict headers)] w\<rparr>))
      | H_error code reason headers body \<Rightarrow>
          (case body of
             Inl e \<Rightarrow> C_raise e
           | Inr text \<Rightarrow>
               C_return (http_failed (''HTTP '' @ int_str code @ '': '' @ reason @ ''. Response: '' @ text) ''HTTPError''
                 (500 \<le> code \<and> code < 600)
                 (http_span start [(''status_code'', PInt code), (''headers'', PDict headers), (''error_body'', PStr text)] w))))"

definition http_execute ::
  "(string \<Rightarrow> pyval option) \<Rightarrow> (http_request \<Rightarrow> 'z exec_world_scheme \<Rightarrow> http_outcome \<times> 'z exec_world_scheme) \<Rightarrow> 'z call" where
  "http_execute json_parse urlopen req ctx w =
     (let pl = xq_payload req
      in case bindE (ditem_or as_opt_str None pl ''url'') (\<lambda>url.
              bindE (ditem_or as_str ''GET'' pl ''method'') (\<lambda>verb.
              bindE (ditem_or as_dict [] pl ''headers'') (\<lambda>headers. Inr (url, verb, headers)))) of
           Inl e \<Rightarrow> (C_raise (builtin_exc ''TypeError'' []), w)
         | Inr (url, verb, headers) \<Rightarrow>
             if or_str url [] = []
             then (C_raise (builtin_exc ''ValueError'' (''ExecutionRequest payload must contain '' @ squoted ''url'' @ ''.'')), w)
             else
               (case http_data (case dget pl ''body'' of None \<Rightarrow> PNone | Some v \<Rightarrow> v) headers of
                  Inl e \<Rightarrow> (C_raise (builtin_exc ''TypeError'' []), w)
                | Inr (data, headers1) \<Rightarrow>
                    (let u = unwrap_url (or_str url [])
                     in if \<not> has_scheme (without_fragment u)
                        then (C_raise (builtin_exc ''ValueError'' (''unknown url type: '' @ squoted u)), w)
                        else case urlopen \<lparr>hr_url = u, hr_method = map upper_char verb, hr_headers = headers1, hr_body = data,
                                           hr_timeout = http_timeout (xq_policy req)\<rparr> w of
                               (out, w1) \<Rightarrow> (http_result json_parse (xw_now w) out w1, w1))))"

end
