(* ===== verification/Execution_Properties.thy ===== *)
theory Execution_Properties
  imports Local_Environment Http_Executor Retry_Engine
begin

text \<open>
  The properties of execution: the pipeline returns in time, what the retry middleware repeats, what
  tasks become behind the legacy adapter, and that a quoted command line means its words. The witnesses
  use a world with a clock at zero and a mock executor.
\<close>

section \<open>A concrete call\<close>

definition still_world :: exec_world where
  "still_world = \<lparr>xw_now = 0, xw_iso = (\<lambda>_. []), xw_repr = (\<lambda>_. []), xw_gmtime = (\<lambda>_. []), xw_uuid = (\<lambda>_. []),
     xw_drawn = 0, xw_lines = [], xw_recorded = [], xw_events = []\<rparr>"

definition mock_context :: execution_context where
  "mock_context = \<lparr>xx_runtime_id = ''r'', xx_task_id = ''t'', xx_worker_id = ''w'', xx_correlation_id = None,
     xx_causation_id = None, xx_deadline = None, xx_resource_limits = [], xx_services = None, xx_version = ''1.0.0''\<rparr>"

definition mock_request :: execution_request where
  "mock_request = \<lparr>xq_executor_type = ''mock'', xq_payload = [(''delay_seconds'', PInt 9)],
     xq_policy = default_policy\<lparr>xp_timeout_seconds := Some 5, xp_max_retries := 2\<rparr>, xq_version = ''1.0.0''\<rparr>"

lemma mock_forward: "forward req mock_execute"
  by (auto simp: forward_def mock_execute_def Let_def split: sum.split)

section \<open>The pipeline\<close>

text \<open>
  C15. A pipeline with a timeout in force returns or raises, and within the time bound of its order of
  middlewares, whatever the target does: it may hang, as long as time does not run backwards. An outer
  timeout caps everything within it, a retry outside a timeout multiplies it.
\<close>

theorem pipeline_returns_in_time:
  assumes "forward req target" and "0 \<le> xp_retry_delay_seconds (xq_policy req)"
    and "time_bound (xq_policy req) ms = Some b"
  shows "fst (pipeline_execute ms target req ctx w) \<noteq> C_hang \<and>
    xw_now (snd (pipeline_execute ms target req ctx w)) \<le> xw_now w + b"
  using pipeline_bounded [OF assms] by (simp add: bounded_def)

theorem pipeline_returns_in_time_witness:
  "xw_now (snd (pipeline_execute [LoggingMiddleware, RetryMiddleware, TimeoutMiddleware] mock_execute
      mock_request mock_context still_world)) \<le> 17"
  using pipeline_returns_in_time [OF mock_forward, of mock_request "[LoggingMiddleware, RetryMiddleware, TimeoutMiddleware]"
      17 mock_context still_world]
  by (simp add: mock_request_def default_policy_def still_world_def)

text \<open>
  C23. The retry middleware repeats the call until an attempt succeeds, raises or hangs, and at most
  \<open>max_retries\<close> times more; its outcome and world are those of the last attempt. Whether the error is
  transient makes no difference.
\<close>

theorem retry_repeats_until_final:
  assumes "0 \<le> xp_retry_delay_seconds (xq_policy req)"
  shows "\<exists>i \<le> nat (xp_max_retries (xq_policy req)).
    retry_process target req ctx w = attempt target req ctx w i \<and>
    (\<forall>j < i. \<not> final_outcome (fst (attempt target req ctx w j))) \<and>
    (final_outcome (fst (attempt target req ctx w i)) \<or> i = nat (xp_max_retries (xq_policy req)))"
  using retry_outcome_exists [of "nat (xp_max_retries (xq_policy req))" target req ctx w]
    retry_outcome [OF assms, of _ target ctx w] by blast

theorem retry_repeats_until_final_witness:
  "\<exists>i \<le> 2. retry_process mock_execute mock_request mock_context still_world =
     attempt mock_execute mock_request mock_context still_world i"
  using retry_repeats_until_final [of mock_request mock_execute mock_context still_world]
  by (auto simp: mock_request_def default_policy_def)

section \<open>The local environment\<close>







text \<open>An environment in which no process ever exits.\<close>

definition stuck_env :: "exec_world environment" where
  "stuck_env = \<lparr>env_chroot = None, env_makedirs = (\<lambda>d w. (None, w)),
     env_popen = (\<lambda>cmd d w. (P_runs None (\<lambda>t. Some ([], [])), w))\<rparr>"


text \<open>
  A function run under a timeout that raises outside the class \<open>Exception\<close>, \<open>SystemExit\<close> for one, is
  reported as succeeded, with the output \<open>None\<close>; without a timeout the exception leaves the environment.
\<close>

theorem exit_under_timeout_succeeds:
  assumes "chroot_of env = None" and "f w = (V_raises e, w1)" and "\<not> isinstance_exc e ''Exception''"
    and "\<not> isinstance_exc e ''TimeoutError''"
  shows "(xp_timeout_seconds (xq_policy req) = None \<longrightarrow> run_in_env env req (R_callable f) w = (C_raise e, w1)) \<and>
    (xp_timeout_seconds (xq_policy req) = Some t \<longrightarrow> t \<noteq> 0 \<longrightarrow> xw_now w1 \<le> xw_now w + max 0 t \<longrightarrow>
      (\<exists>md. run_in_env env req (R_callable f) w = (C_return ((new_result X_SUCCEEDED)\<lparr>xr_output := PNone, xr_metadata := md\<rparr>), w1)))"
  using assms by (auto simp: run_in_env_def before_run_def run_callable_def expired_def Let_def)

definition system_exit :: exc where
  "system_exit = \<lparr>exc_mro = [''SystemExit'', ''BaseException'', ''object''], exc_msg = ''1''\<rparr>"

theorem exit_under_timeout_succeeds_witness:
  "\<exists>md. run_in_env stuck_env mock_request (R_callable (\<lambda>w. (V_raises system_exit, w))) still_world =
     (C_return ((new_result X_SUCCEEDED)\<lparr>xr_output := PNone, xr_metadata := md\<rparr>), still_world)"
  using exit_under_timeout_succeeds [of stuck_env "\<lambda>w. (V_raises system_exit, w)" still_world system_exit still_world mock_request 5]
  by (simp add: stuck_env_def chroot_of_def system_exit_def isinstance_exc_def mock_request_def)

section \<open>Behind the legacy adapter\<close>

definition adaptable :: "task \<Rightarrow> bool" where
  "adaptable t \<longleftrightarrow>
     (case legacy_request [] t of Inl e \<Rightarrow> False
      | Inr req \<Rightarrow> (case legacy_context None t of Inl e \<Rightarrow> False | Inr ctx \<Rightarrow> True))"

lemma adaptable_request:
  assumes "adaptable t"
  obtains req ctx where "legacy_request cls t = Inr req" and "legacy_context store t = Inr ctx"
    and "xq_payload req = [(''task_id'', PStr (t_id t)), (''title'', PStr (t_title t)), (''metadata'', PDict (meta_of t))]"
    and "xq_policy req = default_policy\<lparr>xp_timeout_seconds := legacy_timeout t,
      xp_max_retries := xp_max_retries (xq_policy req), xp_retry_delay_seconds := xp_retry_delay_seconds (xq_policy req)\<rparr>"
proof -
  obtain mr rd co ca where "ditem_or as_int 0 (meta_of t) ''max_retries'' = Inr mr"
    "ditem_or as_float 1 (meta_of t) ''retry_delay'' = Inr rd"
    "ditem_or as_opt_str None (meta_of t) ''correlation_id'' = Inr co"
    "ditem_or as_opt_str None (meta_of t) ''causation_id'' = Inr ca"
    using assms by (auto simp: adaptable_def legacy_request_def legacy_context_def bindE_def split: sum.splits)
  then show ?thesis
    by (intro that [of "the_elem {r. legacy_request cls t = Inr r}" "the_elem {c. legacy_context store t = Inr c}"])
      (simp_all add: legacy_request_def legacy_context_def)
qed

lemma legacy_plain:
  assumes "legacy_request cls t = Inr req" and "legacy_context store t = Inr ctx"
  shows "legacy_execute store (plain_executor cls f) t w =
    (case f req ctx w of
       (C_hang, w1) \<Rightarrow> (A_hang, w1)
     | (C_raise e, w1) \<Rightarrow> (A_raise e, w1)
     | (C_return r, w1) \<Rightarrow>
         (if xr_status r = X_SUCCEEDED then A_return
          else A_raise (builtin_exc ''RuntimeError''
                 (case xr_error r of None \<Rightarrow> ''Execution failed'' | Some e \<Rightarrow> xe_message e)), w1))"
  using assms
  by (auto simp: legacy_execute_def plain_executor_def lifecycle_def split: prod.split call_outcome.split)

lemma adapted_python_returns:
  assumes t: "adaptable t" and env: "chroot_of env = None"
  shows "legacy_execute store (plain_executor ''PythonExecutor'' (python_execute env run_code None)) t w = (A_return, w)"
  by (rule adaptable_request [OF t, of "''PythonExecutor''" store])
    (simp add: legacy_plain Let_def ditem_or_def or_str_def builtin_exc_def isinstance_exc_def python_execute_def
      python_target_def nullary_def run_in_env_def before_run_def env run_callable_def expired_def new_result_def
      split: option.split)

text \<open>
  C14. Behind the adapter the executors never see what a task asks for: its metadata are nested one level
  down in the payload. The shell, the HTTP and the function executor raise for every task, before they
  do anything, and the Python executor always succeeds, having run nothing of the task.
\<close>

theorem adapted_executors_ignore_the_task:
  assumes t: "adaptable t" and env: "chroot_of env = None"
  shows "(\<exists>e. legacy_execute store (plain_executor ''ShellExecutor'' (shell_execute env)) t w = (A_raise e, w) \<and>
        isinstance_exc e ''ValueError'') \<and>
    (\<exists>e. legacy_execute store (plain_executor ''HTTPExecutor'' (http_execute json_parse urlopen)) t w = (A_raise e, w) \<and>
        isinstance_exc e ''ValueError'') \<and>
    (\<exists>e. legacy_execute store (plain_executor ''FunctionExecutor'' (function_execute x)) t w = (A_raise e, w) \<and>
        isinstance_exc e ''ValueError'') \<and>
    legacy_execute store (plain_executor ''PythonExecutor'' (python_execute env run_code None)) t w = (A_return, w)"
    (is "?shell \<and> ?http \<and> ?callable \<and> ?python")
proof (intro conjI)
  note defs = legacy_plain Let_def ditem_or_def or_str_def builtin_exc_def isinstance_exc_def
  show ?shell by (rule adaptable_request [OF t, of "''ShellExecutor''" store]) (simp add: defs shell_execute_def)
  show ?http by (rule adaptable_request [OF t, of "''HTTPExecutor''" store]) (simp add: defs http_execute_def)
  show ?callable by (rule adaptable_request [OF t, of "''FunctionExecutor''" store]) (simp add: defs function_execute_def)
  show ?python by (rule adapted_python_returns [OF t env])
qed

definition adapted_task :: "pydict \<Rightarrow> task" where
  "adapted_task md = \<lparr>t_id = ''t'', t_title = ''work'', t_type = Type_SHELL, t_metadata = Some md, t_status = Task_RUNNING,
     t_created_at = 0\<rparr>"

theorem adapted_executors_ignore_the_task_witness:
  "legacy_execute None (plain_executor ''PythonExecutor'' (python_execute stuck_env (\<lambda>c w. (V_never, w)) None))
     (adapted_task [(''code'', PStr ''work()'')]) still_world = (A_return, still_world)"
  using adapted_executors_ignore_the_task [of "adapted_task [(''code'', PStr ''work()'')]" stuck_env None still_world
      "\<lambda>s. None" "\<lambda>r w. (H_never, w)" "\<lparr>fx_functions = [], fx_dependencies = []\<rparr>" "\<lambda>c w. (V_never, w)"]
  by (simp add: stuck_env_def chroot_of_def adaptable_def legacy_request_def legacy_context_def ditem_or_def
      meta_of_def adapted_task_def)

text \<open>
  Behind the adapter every failure an executor reports is a \<open>RuntimeError\<close>, whatever the class of the
  exception was: a retry policy that names the classes to retry on, and neither that one nor one of its
  bases, never retries.
\<close>

theorem adapter_hides_the_error_class:
  assumes t: "adaptable t" and p: "retry_state p n t" "retryable_exceptions p = Some ts" "ts \<noteq> []"
    "\<forall>c \<in> set ts. c \<notin> {''RuntimeError'', ''Exception'', ''BaseException'', ''object''}"
    and f: "\<And>req ctx. fst (f req ctx w) = C_return r" "xr_status r \<noteq> X_SUCCEEDED"
  shows "\<exists>e w1. legacy_execute store (plain_executor cls f) t w = (A_raise e, w1) \<and> should_retry t e = Inr False"
proof (rule adaptable_request [OF t, of cls store])
  fix req ctx
  assume req: "legacy_request cls t = Inr req" "legacy_context store t = Inr ctx"
  let ?e = "builtin_exc ''RuntimeError'' (case xr_error r of None \<Rightarrow> ''Execution failed'' | Some e \<Rightarrow> xe_message e)"
  have "legacy_execute store (plain_executor cls f) t w = (A_raise ?e, snd (f req ctx w))"
    using f by (simp add: legacy_plain [OF req] case_prod_beta)
  moreover have "should_retry t ?e = Inr False"
    unfolding should_retry_state [OF p(1)] using p(2-4)
    by (auto simp: list_ex_iff isinstance_exc_def builtin_exc_def)
  ultimately show ?thesis by blast
qed

definition retry_on_os_error :: retry_policy where
  "retry_on_os_error = \<lparr>max_retries = 3, initial_delay_seconds = 1, backoff_factor = 2,
     retryable_exceptions = Some [''OSError'']\<rparr>"

theorem adapter_hides_the_error_class_witness:
  "\<exists>e w1. legacy_execute None (plain_executor ''X'' (\<lambda>req ctx w. (C_return ((new_result X_FAILED)
       \<lparr>xr_error := Some (new_error ''no space'' ''OSError'')\<rparr>), w)))
     (adapted_task [(''retry_policy'', PRetryPolicy retry_on_os_error)]) still_world = (A_raise e, w1) \<and>
     should_retry (adapted_task [(''retry_policy'', PRetryPolicy retry_on_os_error)]) e = Inr False"
  by (rule adapter_hides_the_error_class [where p = retry_on_os_error and n = 0 and ts = "[''OSError'']"
        and r = "(new_result X_FAILED)\<lparr>xr_error := Some (new_error ''no space'' ''OSError'')\<rparr>"])
    (simp_all add: adaptable_def legacy_request_def legacy_context_def ditem_or_def meta_of_def adapted_task_def
      retry_state_def retry_on_os_error_def new_result_def)

section \<open>Command lines\<close>

fun command_line :: "string list \<Rightarrow> string" where
  "command_line [] = []"
| "command_line [w] = squoted w"
| "command_line (w # ws) = squoted w @ CHR '' '' # command_line ws"

lemma shlex_quoted:
  "sq \<notin> set w \<Longrightarrow> shlex_from (Sh_quote sq) tok q (w @ sq # rest) = shlex_from Sh_word (tok @ w) True rest"
  by (induction w arbitrary: tok q) auto

lemma shlex_command_line: "\<forall>w \<in> set ws. sq \<notin> set w \<Longrightarrow> shlex_split (command_line ws) = Inr ws"
  unfolding shlex_split_def
proof (induction ws rule: command_line.induct)
  case (2 w)
  then show ?case using shlex_quoted [of w "[]" False "[]"] by (simp add: squoted_def shlex_space_def)
next
  case (3 w v vs)
  then show ?case using shlex_quoted [of w "[]" False "CHR '' '' # command_line (v # vs)"]
    by (simp add: squoted_def shlex_space_def)
qed simp

lemma run_in_env_payload: "run_in_env env (req\<lparr>xq_payload := pl\<rparr>) target w = run_in_env env req target w"
proof -
  have policy: "xq_policy (req\<lparr>xq_payload := pl\<rparr>) = xq_policy req" by simp
  show ?thesis unfolding run_in_env_def policy ..
qed

text \<open>
  A command given as a line of words in single quotes runs like the list of its words, empty words and
  words with spaces, backslashes and double quotes included.
\<close>

theorem quoted_command_runs_its_words:
  assumes "ws \<noteq> []" and "\<forall>w \<in> set ws. sq \<notin> set w"
  shows "shell_execute env (req\<lparr>xq_payload := dset ''command'' (PStr (command_line ws)) pl\<rparr>) ctx w =
    shell_execute env (req\<lparr>xq_payload := dset ''command'' (PList (map PStr ws)) pl\<rparr>) ctx w"
proof -
  have "command_line ws \<noteq> []" using assms(1) by (cases ws rule: command_line.cases) (auto simp: squoted_def)
  moreover have "mapE as_str (map PStr ws) = Inr ws" by (rule mapE_map) simp
  ultimately show ?thesis
    using assms(1) shlex_command_line [OF assms(2)]
    by (simp add: shell_execute_def Let_def dget_update run_in_env_payload)
qed

theorem quoted_command_runs_its_words_witness:
  "shell_execute stuck_env (mock_request\<lparr>xq_payload := dset ''command'' (PStr (command_line [''a b'', []])) []\<rparr>) mock_context still_world =
   shell_execute stuck_env (mock_request\<lparr>xq_payload := dset ''command'' (PList (map PStr [''a b'', []])) []\<rparr>) mock_context still_world"
  by (rule quoted_command_runs_its_words) simp_all

end
