(* ===== verification/Main_Program.thy ===== *)
theory Main_Program
  imports Scheduler Execution_Properties
begin

text \<open>
  The program \<^verbatim>\<open>app/main.py\<close>: it builds a runtime without a store around one Python executor, submits two
  tasks, and executes both on the synchronous path. Here the facade of \<open>Scheduler\<close> meets the executors
  of \<open>Executors\<close>: the environment of the facade calls a registered executor's \<open>execute\<close>, which hands
  itself to the adapter.
\<close>

section \<open>The registered executor\<close>

text \<open>
  What a call of \<open>execute\<close> comes to when the adapter returns or raises; \<open>xw\<close> is the world outside the
  runtime, which the facade does not look at.
\<close>

definition calls_adapter :: "('w executor, 'x) env \<Rightarrow> 'w executor \<Rightarrow> 'w \<Rightarrow> bool" where
  "calls_adapter en ex xw \<longleftrightarrow> (\<forall>r h.
     case fst (legacy_execute None ex (h r) xw) of
       A_return \<Rightarrow> en_exec en (Legacy ex) r h = (Inr (), h)
     | A_raise e \<Rightarrow> en_exec en (Legacy ex) r h = (Inl e, h)
     | A_hang \<Rightarrow> True)"

section \<open>The program\<close>

definition main_program ::
    "('w executor, 'x) env \<Rightarrow> 'w executor \<Rightarrow> world \<Rightarrow> (exc + tref \<times> tref) \<times> ('w executor, 'x) runtime_sys" where
  "main_program en ex w =
     (case submit_task en ''Learn Python Runtime'' Type_PYTHON None 0
             (runtime_init w (register_legacy Type_PYTHON ex registry_init)) of
        (Inl e, s1) \<Rightarrow> (Inl (exc_of e), s1)
      | (Inr task1, s1) \<Rightarrow>
          (case submit_task en ''Build AI Operating System'' Type_PYTHON None 0 s1 of
             (Inl e, s2) \<Rightarrow> (Inl (exc_of e), s2)
           | (Inr task2, s2) \<Rightarrow>
               (case execute_task en (t_id (w_task (ps_world s2) task1)) s2 of
                  (Inl e, s3) \<Rightarrow> (Inl e, s3)
                | (Inr _, s3) \<Rightarrow>
                    (case execute_task en (t_id (w_task (ps_world s3) task2)) s3 of
                       (Inl e, s4) \<Rightarrow> (Inl e, s4)
                     | (Inr _, s4) \<Rightarrow> (Inr (task1, task2), s4)))))"

section \<open>A submission without a store\<close>

text \<open>The metadata of a task without any when it has been admitted and enqueued.\<close>

definition main_metadata :: "world \<Rightarrow> pydict" where
  "main_metadata w = [(''priority'', PInt 0), (''admitted_by'', PStr ''MetadataMutatorPlugin''), (''queued_at'', PStr (now_iso w))]"

definition main_task :: "world \<Rightarrow> string \<Rightarrow> string \<Rightarrow> task" where
  "main_task w i title = \<lparr>t_id = i, t_title = title, t_type = Type_PYTHON, t_metadata = Some (main_metadata w),
     t_status = Task_PENDING, t_created_at = w_now w\<rparr>"

lemma submit_plain_task:
  fixes s :: "('l, 'x) runtime_sys"
  defines "i \<equiv> w_uuid (ps_world s) (w_drawn (ps_world s))" and "r \<equiv> rt_next s"
  assumes s: "sc_admission s = Some default_controller" "w_log (ps_world s) = None"
      "q_max_size (sc_queue s) = None" "q_policy (sc_queue s) = FIFO \<lparr>fifo_order = ids\<rparr>"
    and new: "dget (tm_tasks (rt_tasks s)) i = None" "i \<notin> set (dkeys (q_storage (sc_queue s)))"
    and title: "strip title \<noteq> []" "length title \<le> 255"
  shows "\<exists>q. submit_task en title Type_PYTHON None 0 s =
    (Inr r, s\<lparr>rt_next := Suc r, rt_tasks := (rt_tasks s)\<lparr>tm_tasks := dset i r (tm_tasks (rt_tasks s))\<rparr>, sc_queue := q,
       ps_world := (ps_world s)\<lparr>w_drawn := Suc (w_drawn (ps_world s)),
         w_task := (w_task (ps_world s))(r := main_task (ps_world s) i title)\<rparr>\<rparr>) \<and>
    q_max_size q = None \<and> q_policy q = FIFO \<lparr>fifo_order = ids @ [i]\<rparr> \<and>
    q_storage q = q_storage (sc_queue s) @ [(i, r)]"
  by (rule exI [of _ "(sc_queue s)\<lparr>q_storage := q_storage (sc_queue s) @ [(i, r)],
      q_policy := FIFO \<lparr>fifo_order = ids @ [i]\<rparr>, q_enqueue_count := Suc (q_enqueue_count (sc_queue s)),
      q_published := q_published (sc_queue s) @ [QTaskQueued i (now_of s)]\<rparr>"])
    (use assms in \<open>simp add: submit_task_def Let_def task_init_def add_task_def log_submitted_def schedule_def
      admit_def admission_submit_def default_controller_def mutator_admit_def validator_admit_def upd_world_def
      sys_enqueue_def enqueue_def queue_full_def fifo_add_def emit_def upd_task_def meta_of_def publish_def
      main_task_def main_metadata_def update_fresh_append split: prod.split\<close>)

section \<open>The synchronous path\<close>

lemma main_task_adaptable: "adaptable (task_start (main_task w i title))"
  by (simp add: adaptable_def legacy_request_def legacy_context_def ditem_or_def meta_of_def main_task_def
      main_metadata_def task_start_def)

abbreviation python_executor ::
    "'z exec_world_scheme environment \<Rightarrow>
     (string \<Rightarrow> 'z exec_world_scheme \<Rightarrow> call_value \<times> 'z exec_world_scheme) \<Rightarrow> 'z exec_world_scheme executor" where
  "python_executor xenv run_code \<equiv> plain_executor ''PythonExecutor'' (python_execute xenv run_code None)"

lemma execute_main_task:
  assumes call: "calls_adapter en (python_executor xenv run_code) xw" and env: "chroot_of xenv = None"
    and s: "get_task i (rt_tasks s) = Inr r" "w_task (ps_world s) r = main_task w i title"
      "ps_registry s = register_legacy Type_PYTHON (python_executor xenv run_code) registry_init"
  shows "execute_task en i s = (Inr r, upd_world (upd_task r (\<lambda>t. task_complete (task_start t))) s)"
proof -
  let ?ex = "python_executor xenv run_code" and ?t = "task_start (main_task w i title)"
  have "legacy_execute None ?ex ?t xw = (A_return, xw)"
    using adapted_python_returns [OF main_task_adaptable env] by blast
  with call [unfolded calls_adapter_def, rule_format, of r "(w_task (ps_world s))(r := ?t)"]
  have ex: "en_exec en (Legacy ?ex) r ((w_task (ps_world s))(r := ?t)) = (Inr (), (w_task (ps_world s))(r := ?t))"
    by simp
  have get: "get_executor (en_caps en) (en_fuel en) Type_PYTHON (ps_registry s) = (Inr (Legacy ?ex), ps_registry s)"
    by (simp add: get_executor_def s(3) register_legacy_def registry_init_def)
  have "t_type ?t = Type_PYTHON" by (simp add: main_task_def task_start_def)
  with ex get s(1,2) show ?thesis
    by (simp add: execute_task_def Let_def upd_world_def upd_task_def)
qed

section \<open>Properties\<close>

text \<open>
  C34. The program of \<^verbatim>\<open>main.py\<close> ends without an error and with both tasks completed, but both are still
  waiting in the scheduler's queue, in the order of their submission: the synchronous path executes
  a task without taking it out, and starting the runtime afterwards would execute both again.
\<close>

theorem main_program_leaves_tasks_queued:
  assumes "calls_adapter en (python_executor xenv run_code) xw" and "chroot_of xenv = None" and "w_log w = None"
    and "w_uuid w (w_drawn w) \<noteq> w_uuid w (Suc (w_drawn w))"
  shows "\<exists>s. main_program en (python_executor xenv run_code) w = (Inr (0, 1), s) \<and>
    t_status (w_task (ps_world s) 0) = Task_COMPLETED \<and> t_status (w_task (ps_world s) 1) = Task_COMPLETED \<and>
    map snd (q_storage (sc_queue s)) = [0, 1] \<and>
    policy_pending (q_policy (sc_queue s)) = [w_uuid w (w_drawn w), w_uuid w (Suc (w_drawn w))] \<and>
    fst (dequeue (sc_queue s) (ps_world s)) = Inr 0"
proof -
  let ?ex = "python_executor xenv run_code" and ?a = "w_uuid w (w_drawn w)" and ?b = "w_uuid w (Suc (w_drawn w))"
  define s0 :: "('a exec_world_scheme executor, 'b) runtime_sys" where
    "s0 = runtime_init w (register_legacy Type_PYTHON ?ex registry_init)"
  have s0: "sc_admission s0 = Some default_controller" "ps_world s0 = w" "rt_next s0 = 0"
    "q_max_size (sc_queue s0) = None" "q_policy (sc_queue s0) = FIFO \<lparr>fifo_order = []\<rparr>"
    "q_storage (sc_queue s0) = []" "tm_tasks (rt_tasks s0) = []"
    "ps_registry s0 = register_legacy Type_PYTHON ?ex registry_init"
    by (simp_all add: s0_def runtime_init_def queue_init_def fifo_init_def tm_init_def)
  have "strip ''Learn Python Runtime'' \<noteq> []" "strip ''Build AI Operating System'' \<noteq> []"
    by (simp_all add: strip_def is_space_def)
  note titles = this
  obtain s1 where s1: "submit_task en ''Learn Python Runtime'' Type_PYTHON None 0 s0 = (Inr 0, s1)"
    "sc_admission s1 = Some default_controller" "rt_next s1 = 1" "q_max_size (sc_queue s1) = None"
    "q_policy (sc_queue s1) = FIFO \<lparr>fifo_order = [?a]\<rparr>" "q_storage (sc_queue s1) = [(?a, 0)]"
    "tm_tasks (rt_tasks s1) = [(?a, 0)]" "ps_registry s1 = register_legacy Type_PYTHON ?ex registry_init"
    "ps_world s1 = w\<lparr>w_drawn := Suc (w_drawn w), w_task := (w_task w)(0 := main_task w ?a ''Learn Python Runtime'')\<rparr>"
    using submit_plain_task [where s = s0 and ids = "[]" and title = "''Learn Python Runtime''" and en = en] s0 titles assms(3) by auto
  obtain s2 where s2: "submit_task en ''Build AI Operating System'' Type_PYTHON None 0 s1 = (Inr 1, s2)"
    "q_policy (sc_queue s2) = FIFO \<lparr>fifo_order = [?a, ?b]\<rparr>" "q_storage (sc_queue s2) = [(?a, 0), (?b, 1)]"
    "tm_tasks (rt_tasks s2) = [(?a, 0), (?b, 1)]" "ps_registry s2 = register_legacy Type_PYTHON ?ex registry_init"
    "w_task (ps_world s2) 0 = main_task w ?a ''Learn Python Runtime''"
    "w_task (ps_world s2) 1 = main_task w ?b ''Build AI Operating System''"
    using submit_plain_task [where s = s1 and ids = "[?a]" and title = "''Build AI Operating System''" and en = en] s1 titles assms(3,4)
    by (auto simp: main_task_def main_metadata_def)
  let ?done = "\<lambda>t. task_complete (task_start t)"
  define s3 where "s3 = upd_world (upd_task 0 ?done) s2"
  have "execute_task en ?a s2 = (Inr 0, s3)"
    using execute_main_task [OF assms(1,2) _ s2(6,5)] by (simp add: get_task_def s2(4) s3_def)
  moreover have "execute_task en ?b s3 = (Inr 1, upd_world (upd_task 1 ?done) s3)"
    using execute_main_task [OF assms(1,2), where i = ?b and s = s3 and r = 1] s2 assms(4)
    by (simp add: get_task_def s3_def upd_world_def upd_task_def)
  ultimately have "main_program en ?ex w = (Inr (0, 1), upd_world (upd_task 1 ?done) s3)"
    using s1(1) s2(1,6,7) unfolding main_program_def s0_def
    by (simp add: main_task_def s3_def upd_world_def upd_task_def)
  with s2 show ?thesis
    by (simp add: s3_def upd_world_def upd_task_def task_complete_def dequeue_def fifo_next_def)
qed

definition adapter_env :: "(exec_world executor, unit) env" where
  "adapter_env = \<lparr>en_caps = (\<lambda>_. []), en_fuel = 1,
     en_exec = (\<lambda>x r h. case x of
        Legacy ex \<Rightarrow> (case fst (legacy_execute None ex (h r) still_world) of
                       A_raise e \<Rightarrow> (Inl e, h) | _ \<Rightarrow> (Inr (), h))
      | _ \<Rightarrow> (Inr (), h)),
     en_fromiso = (\<lambda>_. None), en_render = (\<lambda>_. [])\<rparr>"

definition storeless_world :: world where
  "storeless_world = \<lparr>w_task = (\<lambda>_. \<lparr>t_id = [], t_title = [], t_type = Type_PYTHON, t_metadata = None,
     t_status = Task_PENDING, t_created_at = 0\<rparr>), w_log = None, w_now = 0, w_iso = (\<lambda>_. []),
     w_uuid = (\<lambda>n. replicate n (CHR ''u'')), w_drawn = 0\<rparr>"

theorem main_program_leaves_tasks_queued_witness:
  "\<exists>s. main_program adapter_env (python_executor stuck_env (\<lambda>c w. (V_never, w))) storeless_world = (Inr (0, 1), s) \<and>
     policy_pending (q_policy (sc_queue s)) = [[], ''u'']"
proof -
  have "calls_adapter adapter_env (python_executor stuck_env (\<lambda>c w. (V_never, w))) still_world"
    by (auto simp: calls_adapter_def adapter_env_def split: adapter_outcome.split)
  moreover have "chroot_of stuck_env = None" by (simp add: stuck_env_def chroot_of_def)
  moreover have "w_log storeless_world = None"
    "w_uuid storeless_world (w_drawn storeless_world) \<noteq> w_uuid storeless_world (Suc (w_drawn storeless_world))"
    by (simp_all add: storeless_world_def)
  ultimately obtain s where
    "main_program adapter_env (python_executor stuck_env (\<lambda>c w. (V_never, w))) storeless_world = (Inr (0, 1), s)"
    "policy_pending (q_policy (sc_queue s)) = [w_uuid storeless_world (w_drawn storeless_world),
       w_uuid storeless_world (Suc (w_drawn storeless_world))]"
    using main_program_leaves_tasks_queued by blast
  then show ?thesis by (intro exI [of _ s]) (simp add: storeless_world_def)
qed

end
