(* ===== verification/Orchestrator.thy ===== *)
theory Orchestrator
  imports SQLite_Store Workflow_Planner Scheduler
begin

text \<open>
  The workflow orchestrator: \<^verbatim>\<open>workflow/orchestrator.py\<close>. It keeps no state of its own between two
  calls: every call loads the instance from the table of workflow instances, advances it and writes
  it back. Each call holds the orchestrator's lock and is one step.

  What it uses of the scheduler is the record \<open>wf_scheduler\<close>: \<open>schedule(task)\<close>, and the test and the
  cancellation of a queued id. The second part of the theory makes the runtime's scheduler such a
  record and states, as a locale, what the orchestrator relies on.
\<close>

section \<open>State\<close>

record 's wf_scheduler =
  wfs_schedule :: "task \<Rightarrow> 's \<Rightarrow> (py_error + unit) \<times> 's"
  wfs_cancel :: "string \<Rightarrow> 's \<Rightarrow> 's"

record 's orch =
  oc_db :: database
  oc_sched :: 's
  oc_now :: rat
  oc_iso :: "rat \<Rightarrow> string"
  oc_uuid :: "nat \<Rightarrow> string"
  oc_drawn :: nat

type_synonym ('s, 'a) orch_result = "(py_error + 'a) \<times> 's orch"

definition bindO :: "('s, 'a) orch_result \<Rightarrow> ('a \<Rightarrow> 's orch \<Rightarrow> ('s, 'b) orch_result) \<Rightarrow> ('s, 'b) orch_result" where
  "bindO m f = (case m of (Inl e, s) \<Rightarrow> (Inl e, s) | (Inr x, s) \<Rightarrow> f x s)"

abbreviation wi_graph :: "workflow_instance \<Rightarrow> execution_graph" where
  "wi_graph w \<equiv> wd_graph (wi_definition w)"

section \<open>Checkpoints\<close>

definition save_definition :: "workflow_definition \<Rightarrow> unit sql" where
  "save_definition d db =
     (case json_dumps (definition_to_dict d) of
        Inl e \<Rightarrow> (Inl e, db)
      | Inr text \<Rightarrow>
          (Inr (), db\<lparr>db_workflow_definitions := insert_or_replace (wd_name d)
             \<lparr>wdr_definition_json = text, wdr_version = wd_version d\<rparr> (db_workflow_definitions db)\<rparr>))"

definition save_instance :: "workflow_instance \<Rightarrow> unit sql" where
  "save_instance w db =
     (case json_dumps (instance_to_dict w) of
        Inl e \<Rightarrow> (Inl e, db)
      | Inr text \<Rightarrow>
          (Inr (), db\<lparr>db_workflow_instances := insert_or_replace (instance_id w)
             \<lparr>wir_workflow_name = workflow_name w,
              wir_status = enum_value workflow_statuses (wi_status w),
              wir_instance_json = text, wir_version = wi_version w\<rparr> (db_workflow_instances db)\<rparr>))"

definition checkpoint_workflow :: "workflow_instance \<Rightarrow> unit sql" where
  "checkpoint_workflow w =
     transaction (bindS (save_definition (wi_definition w)) (\<lambda>_. save_instance w))"

definition load_instance :: "string \<Rightarrow> database \<Rightarrow> py_error + workflow_instance" where
  "load_instance i db =
     (case dget (db_workflow_instances db) i of
        None \<Rightarrow> Inl (ValueError (''No WorkflowInstance checkpoint found for: '' @ i))
      | Some row \<Rightarrow> instance_from_dict (json_loads (wir_instance_json row)))"

definition orch_checkpoint :: "workflow_instance \<Rightarrow> 's orch \<Rightarrow> ('s, unit) orch_result" where
  "orch_checkpoint w s = (case checkpoint_workflow w (oc_db s) of (res, db) \<Rightarrow> (res, s\<lparr>oc_db := db\<rparr>))"

section \<open>Dispatch\<close>

text \<open>
  A mapping reads the output of another node (or of the workflow's inputs) when the source has one;
  a missing or \<open>None\<close> value is replaced by the default.
\<close>

definition mapped_value :: "(string \<times> pydict) list \<Rightarrow> node_input \<Rightarrow> pyval" where
  "mapped_value outputs i =
     (let val = (case source_node_id i of
                   None \<Rightarrow> PNone
                 | Some src_node \<Rightarrow>
                     if src_node = [] then PNone
                     else (case dget outputs src_node of
                             None \<Rightarrow> PNone
                           | Some d \<Rightarrow>
                               (case output_key i of
                                  None \<Rightarrow> PNone
                                | Some out_key \<Rightarrow> (case dget d out_key of None \<Rightarrow> PNone | Some v \<Rightarrow> v))))
      in if val = PNone then default_value i else val)"

definition resolve_node_inputs :: "graph_node \<Rightarrow> (string \<times> pydict) list \<Rightarrow> pydict" where
  "resolve_node_inputs n outputs =
     fold (\<lambda>(k, i). dset k (mapped_value outputs i)) (input_mappings (data_map n)) (payload n)"

definition executor_task_type :: "string \<Rightarrow> task_type" where
  "executor_task_type et =
     (case List.find (\<lambda>t. task_type_value t = lower et) [Type_PYTHON, Type_BROWSER, Type_SHELL] of
        Some t \<Rightarrow> t | None \<Rightarrow> Type_PYTHON)"

text \<open>The node's payload is spread over the metadata and can replace the correlation keys.\<close>

definition node_metadata :: "workflow_instance \<Rightarrow> string \<Rightarrow> graph_node \<Rightarrow> pydict" where
  "node_metadata w nid n =
     fold (\<lambda>(k, v). dset k v) (payload n)
       [(''workflow_instance_id'', PStr (instance_id w)), (''node_id'', PStr nid),
        (''payload'', PDict (resolve_node_inputs n (wi_node_outputs w)))]"

definition node_task_id :: "string \<Rightarrow> string \<Rightarrow> string" where
  "node_task_id iid nid = iid @ ''_'' @ nid"

definition node_task :: "string \<Rightarrow> rat \<Rightarrow> workflow_instance \<Rightarrow> string \<Rightarrow> graph_node \<Rightarrow> py_error + task" where
  "node_task uid now w nid n =
     bindE (task_init uid now (workflow_name w @ '':'' @ nid) (executor_task_type (executor_type n))
              (Some (node_metadata w nid n)))
       (\<lambda>t. Inr (t\<lparr>t_id := node_task_id (instance_id w) nid\<rparr>))"

fun parents_ready :: "(string \<times> node_state) list \<Rightarrow> string list \<Rightarrow> py_error + bool" where
  "parents_ready states [] = Inr True"
| "parents_ready states (p # ps) =
     (case dget states p of
        None \<Rightarrow> Inl (KeyError p)
      | Some st \<Rightarrow> if st \<noteq> NS_SUCCEEDED \<and> st \<noteq> NS_SKIPPED then Inr False else parents_ready states ps)"

definition submit_node ::
  "'s wf_scheduler \<Rightarrow> string \<Rightarrow> workflow_instance \<Rightarrow> 's orch \<Rightarrow> ('s, workflow_instance) orch_result" where
  "submit_node sch nid w s =
     (let w1 = w\<lparr>wi_node_states := dset nid NS_RUNNING (wi_node_states w)\<rparr>
      in case dget (g_nodes (wi_graph w)) nid of
           None \<Rightarrow> (Inl (KeyError nid), s)
         | Some n \<Rightarrow>
             (let s1 = s\<lparr>oc_drawn := Suc (oc_drawn s)\<rparr>
              in case node_task (oc_uuid s (oc_drawn s)) (oc_now s) w1 nid n of
                   Inl e \<Rightarrow> (Inl e, s1)
                 | Inr t \<Rightarrow>
                     (case wfs_schedule sch t (oc_sched s1) of
                        (Inl e, c) \<Rightarrow> (Inl e, s1\<lparr>oc_sched := c\<rparr>)
                      | (Inr u, c) \<Rightarrow> (Inr w1, s1\<lparr>oc_sched := c\<rparr>))))"

fun dispatch_loop ::
  "'s wf_scheduler \<Rightarrow> adjacency \<Rightarrow> string list \<Rightarrow> workflow_instance \<Rightarrow> 's orch \<Rightarrow>
   ('s, workflow_instance) orch_result" where
  "dispatch_loop sch parent_deps [] w s = (Inr w, s)"
| "dispatch_loop sch parent_deps (nid # nids) w s =
     (if dget (wi_node_states w) nid = Some NS_PENDING
      then case dget parent_deps nid of
             None \<Rightarrow> (Inl (KeyError nid), s)
           | Some parents \<Rightarrow>
               (case parents_ready (wi_node_states w) parents of
                  Inl e \<Rightarrow> (Inl e, s)
                | Inr False \<Rightarrow> dispatch_loop sch parent_deps nids w s
                | Inr True \<Rightarrow> bindO (submit_node sch nid w s) (dispatch_loop sch parent_deps nids))
      else dispatch_loop sch parent_deps nids w s)"

definition dispatch_eligible_nodes ::
  "'s wf_scheduler \<Rightarrow> workflow_instance \<Rightarrow> 's orch \<Rightarrow> ('s, workflow_instance) orch_result" where
  "dispatch_eligible_nodes sch w s =
     (if wi_status w \<noteq> WF_RUNNING then (Inr w, s)
      else case link_parents (g_edges (wi_graph w)) (empty_lists (wi_graph w)) of
             Inl e \<Rightarrow> (Inl e, s)
           | Inr parent_deps \<Rightarrow>
               bindO (dispatch_loop sch parent_deps (dkeys (wi_node_states w)) w s) (\<lambda>w' s'.
               bindO (orch_checkpoint w' s') (\<lambda>_ s''. (Inr w', s''))))"

section \<open>Life cycle of an instance\<close>

text \<open>\<open>None\<close>: the planner does not return.\<close>

definition start_workflow ::
  "'s wf_scheduler \<Rightarrow> workflow_definition \<Rightarrow> pydict option \<Rightarrow> 's orch \<Rightarrow>
   ('s, workflow_instance) orch_result option" where
  "start_workflow sch d inputs s =
     (case plan d of
        None \<Rightarrow> None
      | Some (Inl e) \<Rightarrow> Some (Inl e, s)
      | Some (Inr p) \<Rightarrow>
          (let w = \<lparr>instance_id = oc_uuid s (oc_drawn s), workflow_name = wd_name d, wi_definition = d,
                    wi_status = WF_RUNNING,
                    wi_node_states = map (\<lambda>nid. (nid, NS_PENDING)) (dkeys (g_nodes (wd_graph d))),
                    wi_node_outputs = (case inputs of
                                         None \<Rightarrow> []
                                       | Some i \<Rightarrow> if i = [] then [] else [(''workflow_inputs'', i)]),
                    wi_execution_plan = p, started_at = oc_iso s (oc_now s), completed_at = None,
                    wi_version = ''1.0.0''\<rparr>
           in Some (bindO (orch_checkpoint w (s\<lparr>oc_drawn := Suc (oc_drawn s)\<rparr>)) (\<lambda>_.
                    dispatch_eligible_nodes sch w))))"

definition with_instance ::
  "string \<Rightarrow> (workflow_instance \<Rightarrow> 's orch \<Rightarrow> ('s, 'a) orch_result) \<Rightarrow> 's orch \<Rightarrow> ('s, 'a) orch_result" where
  "with_instance i f s = (case load_instance i (oc_db s) of Inl e \<Rightarrow> (Inl e, s) | Inr w \<Rightarrow> f w s)"

definition pause_workflow :: "string \<Rightarrow> 's orch \<Rightarrow> ('s, workflow_instance) orch_result" where
  "pause_workflow i = with_instance i (\<lambda>w s.
     if wi_status w = WF_RUNNING
     then let w1 = w\<lparr>wi_status := WF_PAUSED\<rparr> in bindO (orch_checkpoint w1 s) (\<lambda>_ s'. (Inr w1, s'))
     else (Inr w, s))"

definition resume_workflow ::
  "'s wf_scheduler \<Rightarrow> string \<Rightarrow> 's orch \<Rightarrow> ('s, workflow_instance) orch_result" where
  "resume_workflow sch i = with_instance i (\<lambda>w s.
     if wi_status w = WF_PAUSED
     then let w1 = w\<lparr>wi_status := WF_RUNNING\<rparr>
          in bindO (orch_checkpoint w1 s) (\<lambda>_. dispatch_eligible_nodes sch w1)
     else (Inr w, s))"

fun cancel_nodes ::
  "'s wf_scheduler \<Rightarrow> string \<Rightarrow> (string \<times> node_state) list \<Rightarrow> 's \<Rightarrow> (string \<times> node_state) list \<times> 's" where
  "cancel_nodes sch iid [] c = ([], c)"
| "cancel_nodes sch iid ((nid, st) # ns) c =
     (if st = NS_PENDING \<or> st = NS_RUNNING
      then case cancel_nodes sch iid ns (wfs_cancel sch (node_task_id iid nid) c) of
             (ns', c') \<Rightarrow> ((nid, NS_CANCELLED) # ns', c')
      else case cancel_nodes sch iid ns c of (ns', c') \<Rightarrow> ((nid, st) # ns', c'))"

definition cancel_workflow ::
  "'s wf_scheduler \<Rightarrow> string \<Rightarrow> 's orch \<Rightarrow> ('s, workflow_instance) orch_result" where
  "cancel_workflow sch i = with_instance i (\<lambda>w s.
     if wi_status w = WF_RUNNING \<or> wi_status w = WF_PAUSED
     then case cancel_nodes sch i (wi_node_states w) (oc_sched s) of
            (ns, c) \<Rightarrow>
              (let w1 = w\<lparr>wi_status := WF_CANCELLED, wi_node_states := ns,
                          completed_at := Some (oc_iso s (oc_now s))\<rparr>
               in bindO (orch_checkpoint w1 (s\<lparr>oc_sched := c\<rparr>)) (\<lambda>_ s'. (Inr w1, s')))
     else (Inr w, s))"

section \<open>Events\<close>

text \<open>\<open>meta.get(k)\<close>, when it is truthy.\<close>

definition meta_given :: "pydict \<Rightarrow> string \<Rightarrow> pyval option" where
  "meta_given d k = (case dget d k of None \<Rightarrow> None | Some v \<Rightarrow> if truthy v then Some v else None)"

datatype node_outcome = Node_completed | Node_failed | Node_other

fun event_outcome :: "event_kind \<Rightarrow> node_outcome" where
  "event_outcome (TaskCompleted i) = Node_completed"
| "event_outcome (TaskFailed i m) = Node_failed"
| "event_outcome (TaskTimedOut i) = Node_failed"
| "event_outcome (TaskCancelled i) = Node_failed"
| "event_outcome _ = Node_other"

text \<open>\<open>node_policy.failure_handling or instance.definition.policy.failure_handling\<close>\<close>

definition node_failure_policy :: "workflow_instance \<Rightarrow> string \<Rightarrow> py_error + failure_policy" where
  "node_failure_policy w nid =
     (case dget (g_nodes (wi_graph w)) nid of
        None \<Rightarrow> Inl (KeyError nid)
      | Some n \<Rightarrow> Inr (case np_failure_handling (n_policy n) of
                         None \<Rightarrow> wp_failure_handling (wd_policy (wi_definition w)) | Some p \<Rightarrow> p))"

definition result_output :: "pydict \<Rightarrow> pydict" where
  "result_output md = [(''result'', case dget md ''result'' of None \<Rightarrow> PNone | Some v \<Rightarrow> v)]"

definition advance_node ::
  "string \<Rightarrow> runtime_event \<Rightarrow> string \<Rightarrow> workflow_instance \<Rightarrow> py_error + workflow_instance" where
  "advance_node stamp event nid w =
     (case event_outcome (ev_kind event) of
        Node_completed \<Rightarrow>
          Inr (w\<lparr>wi_node_states := dset nid NS_SUCCEEDED (wi_node_states w),
                 wi_node_outputs := dset nid (result_output (ev_metadata event)) (wi_node_outputs w)\<rparr>)
      | Node_failed \<Rightarrow>
          bindE (node_failure_policy w nid) (\<lambda>fh_policy.
            if fh_policy = FP_IGNORE
            then Inr (w\<lparr>wi_node_states := dset nid NS_SKIPPED (wi_node_states w)\<rparr>)
            else Inr (w\<lparr>wi_node_states := dset nid NS_FAILED (wi_node_states w),
                        wi_status := WF_FAILED, completed_at := Some stamp\<rparr>))
      | Node_other \<Rightarrow> Inr w)"

definition all_completed :: "workflow_instance \<Rightarrow> bool" where
  "all_completed w \<longleftrightarrow>
     list_all (\<lambda>st. st \<noteq> NS_PENDING \<and> st \<noteq> NS_RUNNING \<and> st \<noteq> NS_WAITING_APPROVAL) (dvalues (wi_node_states w))"

definition complete_workflow :: "string \<Rightarrow> workflow_instance \<Rightarrow> workflow_instance" where
  "complete_workflow stamp w =
     (if all_completed w \<and> wi_status w = WF_RUNNING
      then w\<lparr>wi_status := WF_SUCCEEDED, completed_at := Some stamp\<rparr> else w)"

definition on_runtime_event ::
  "'s wf_scheduler \<Rightarrow> runtime_event \<Rightarrow> 's orch \<Rightarrow> ('s, unit) orch_result" where
  "on_runtime_event sch event s =
     (case (meta_given (ev_metadata event) ''workflow_instance_id'', meta_given (ev_metadata event) ''node_id'') of
        (Some iv, Some nv) \<Rightarrow>
          (case (as_str iv, as_str nv) of
             (Inl e, _) \<Rightarrow> (Inl e, s)
           | (Inr iid, nid') \<Rightarrow>
               with_instance iid (\<lambda>w s.
                 if wi_status w \<noteq> WF_RUNNING then (Inr (), s)
                 else case bindE nid' (\<lambda>nid. advance_node (oc_iso s (oc_now s)) event nid w) of
                        Inl e \<Rightarrow> (Inl e, s)
                      | Inr w1 \<Rightarrow>
                          (let w2 = complete_workflow (oc_iso s (oc_now s)) w1
                           in bindO (orch_checkpoint w2 s) (\<lambda>_ s'.
                              bindO (dispatch_eligible_nodes sch w2 s') (\<lambda>_ s''. (Inr (), s''))))) s)
      | _ \<Rightarrow> (Inr (), s))"

section \<open>Recovery\<close>

text \<open>
  The status \<open>FAILED\<close> is assigned to a local variable only: the caller's instance keeps its status.
\<close>

definition apply_event_to_instance :: "runtime_event \<Rightarrow> workflow_instance \<Rightarrow> py_error + workflow_instance" where
  "apply_event_to_instance event w =
     (case meta_given (ev_metadata event) ''node_id'' of
        None \<Rightarrow> Inr w
      | Some nv \<Rightarrow>
          bindE (as_str nv) (\<lambda>nid.
            if nid \<notin> set (dkeys (wi_node_states w)) then Inr w
            else case event_outcome (ev_kind event) of
                   Node_completed \<Rightarrow>
                     Inr (w\<lparr>wi_node_states := dset nid NS_SUCCEEDED (wi_node_states w),
                            wi_node_outputs := dset nid (result_output (ev_metadata event)) (wi_node_outputs w)\<rparr>)
                 | Node_failed \<Rightarrow>
                     bindE (node_failure_policy w nid) (\<lambda>fh_policy.
                       if fh_policy = FP_IGNORE
                       then Inr (w\<lparr>wi_node_states := dset nid NS_SKIPPED (wi_node_states w)\<rparr>)
                       else Inr (w\<lparr>wi_node_states := dset nid NS_FAILED (wi_node_states w)\<rparr>))
                 | Node_other \<Rightarrow> Inr w))"

fun apply_events_to_instance :: "runtime_event list \<Rightarrow> workflow_instance \<Rightarrow> py_error + workflow_instance" where
  "apply_events_to_instance [] w = Inr w"
| "apply_events_to_instance (e # es) w =
     bindE (apply_event_to_instance e w) (apply_events_to_instance es)"

definition recover_workflow ::
  "'s wf_scheduler \<Rightarrow> string \<Rightarrow> 's orch \<Rightarrow> ('s, workflow_instance) orch_result" where
  "recover_workflow sch i = with_instance i (\<lambda>w s.
     case bindE (stream_from (oc_uuid s (oc_drawn s)) (oc_iso s (oc_now s)) (started_at w) 100 0 (oc_db s))
            (\<lambda>events. apply_events_to_instance events w) of
       Inl e \<Rightarrow> (Inl e, s)
     | Inr w1 \<Rightarrow> dispatch_eligible_nodes sch w1 s)"

section \<open>The runtime's scheduler\<close>

text \<open>
  The task of a node is a new object that only the scheduler learns of; the task registry does not.
\<close>

definition runtime_wf_schedule ::
  "('l, 'x) env \<Rightarrow> task \<Rightarrow> ('l, 'x) runtime_sys \<Rightarrow> (py_error + unit) \<times> ('l, 'x) runtime_sys" where
  "runtime_wf_schedule en t s =
     (let r = rt_next s
      in schedule en r 0
           (s\<lparr>rt_next := Suc r, ps_world := (ps_world s)\<lparr>w_task := (w_task (ps_world s))(r := t)\<rparr>\<rparr>))"

definition runtime_wf_cancel :: "string \<Rightarrow> ('l, 'x) runtime_sys \<Rightarrow> ('l, 'x) runtime_sys" where
  "runtime_wf_cancel task_id s =
     (if contains task_id (sc_queue s)
      then case cancel task_id (sc_queue s) (ps_world s) of (res, q, w) \<Rightarrow> s\<lparr>sc_queue := q, ps_world := w\<rparr>
      else s)"

definition runtime_wf_scheduler :: "('l, 'x) env \<Rightarrow> ('l, 'x) runtime_sys wf_scheduler" where
  "runtime_wf_scheduler en = \<lparr>wfs_schedule = runtime_wf_schedule en, wfs_cancel = runtime_wf_cancel\<rparr>"

end
