(* ===== verification/Orchestrator_Invariants.thy ===== *)
theory Orchestrator_Invariants
  imports Orchestrator
begin

text \<open>
  What the orchestrator keeps: checkpoints are read back as they were written, a dispatch starts
  exactly the nodes whose predecessors have finished, and a workflow on an acyclic graph always has
  a node that runs until all are finished.
\<close>

section \<open>Checkpoints\<close>

lemma dget_insert_or_replace:
  "dget (insert_or_replace k r t) i = (if i = k then Some r else dget t i)"
  by (auto simp: insert_or_replace_def map_add_def delete_conv' split: option.splits)

lemma checkpoint_cases:
  "checkpoint_workflow w db =
     (if instance_json_ok w
      then (Inr (), db\<lparr>db_workflow_definitions := insert_or_replace (wd_name (wi_definition w))
               \<lparr>wdr_definition_json = JText (definition_to_dict (wi_definition w)),
                wdr_version = wd_version (wi_definition w)\<rparr> (db_workflow_definitions db),
              db_workflow_instances := insert_or_replace (instance_id w)
               \<lparr>wir_workflow_name = workflow_name w, wir_status = enum_value workflow_statuses (wi_status w),
                wir_instance_json = JText (instance_to_dict w), wir_version = wi_version w\<rparr>
               (db_workflow_instances db)\<rparr>)
      else (Inl (TypeError ''not JSON serializable''), db))"
proof -
  have d: "instance_json_ok w \<Longrightarrow> json_ok (definition_to_dict (wi_definition w))"
    by (simp add: instance_json_ok_def json_ok_definition)
  show ?thesis
    using d by (auto simp: checkpoint_workflow_def transaction_def bindS_def save_definition_def save_instance_def
        json_dumps_def json_ok_instance_aux)
qed

lemma checkpoint_loads:
  assumes "checkpoint_workflow w db = (Inr (), db')"
  shows "load_instance i db' = (if i = instance_id w then Inr w else load_instance i db)"
    and "db_events db' = db_events db" and "instance_json_ok w"
  using assms
  by (auto simp: checkpoint_cases load_instance_def dget_insert_or_replace instance_dict_roundtrip_aux
      split: if_splits option.splits)

lemma checkpoint_ok: "instance_json_ok w \<Longrightarrow> \<exists>db'. checkpoint_workflow w db = (Inr (), db')"
  by (simp add: checkpoint_cases)

section \<open>Dispatch\<close>

definition finished :: "node_state \<Rightarrow> bool" where
  "finished st \<longleftrightarrow> st = NS_SUCCEEDED \<or> st = NS_SKIPPED"

definition node_done :: "(string \<times> node_state) list \<Rightarrow> string \<Rightarrow> bool" where
  "node_done states p \<longleftrightarrow> (case dget states p of None \<Rightarrow> False | Some st \<Rightarrow> finished st)"

text \<open>The reference: a node is eligible when it is pending and all its predecessors have finished.\<close>

definition eligible :: "workflow_instance \<Rightarrow> string \<Rightarrow> bool" where
  "eligible w nid \<longleftrightarrow> dget (wi_node_states w) nid = Some NS_PENDING \<and>
     (\<forall>p c. (p, c) \<in> set (edge_pairs (wi_graph w)) \<and> c = nid \<longrightarrow> node_done (wi_node_states w) p)"

definition start_nodes :: "string set \<Rightarrow> (string \<times> node_state) list \<Rightarrow> (string \<times> node_state) list" where
  "start_nodes N states = map (\<lambda>(k, st). (k, if k \<in> N then NS_RUNNING else st)) states"

lemma start_nodes_simps [simp]:
  "start_nodes N [] = []"
  "start_nodes N ((k, st) # states) = (k, if k \<in> N then NS_RUNNING else st) # start_nodes N states"
  by (simp_all add: start_nodes_def)

lemma dkeys_start_nodes [simp]: "dkeys (start_nodes N states) = dkeys states"
  by (simp add: start_nodes_def comp_def case_prod_beta)

lemma dget_start_nodes:
  "dget (start_nodes N states) k =
     (if k \<in> N then map_option (\<lambda>_. NS_RUNNING) (dget states k) else dget states k)"
  by (induction states) (auto simp: start_nodes_def)

lemma start_nodes_insert:
  "wf_dict states \<Longrightarrow> k \<in> set (dkeys states) \<Longrightarrow> dset k NS_RUNNING (start_nodes N states) = start_nodes (insert k N) states"
proof (induction states)
  case (Cons a states)
  obtain i st where a: "a = (i, st)" by fastforce
  show ?case
  proof (cases "i = k")
    case True
    with Cons.prems(1) a have "k \<notin> set (dkeys states)" by (auto simp: wf_dict_def)
    then have "start_nodes (insert k N) states = start_nodes N states"
      by (induction states) auto
    with True a show ?thesis by simp
  next
    case False
    with Cons a show ?thesis by (auto simp: wf_dict_def)
  qed
qed simp

lemma parents_ready_spec:
  "set ps \<subseteq> set (dkeys states) \<Longrightarrow>
   parents_ready states ps = Inr (\<forall>p \<in> set ps. node_done states p)"
proof (induction ps)
  case (Cons p ps)
  from Cons.prems key_dget_Some [of p states] obtain st where "dget states p = Some st" by auto
  with Cons show ?case by (auto simp: node_done_def finished_def)
qed simp

lemma node_done_start_nodes:
  "(\<And>k. k \<in> N \<Longrightarrow> dget states k = Some NS_PENDING) \<Longrightarrow> node_done (start_nodes N states) p = node_done states p"
  by (auto simp: node_done_def dget_start_nodes finished_def split: option.splits)

lemma eligible_preds:
  "eligible w nid \<longleftrightarrow> dget (wi_node_states w) nid = Some NS_PENDING \<and>
     (\<forall>p \<in> set (map fst (filter (\<lambda>e. snd e = nid) (edge_pairs (wi_graph w)))). node_done (wi_node_states w) p)"
  by (force simp: eligible_def)

lemma eligible_key: "eligible w nid \<Longrightarrow> nid \<in> set (dkeys (wi_node_states w))"
  unfolding eligible_def by (blast dest: dget_Some_key)

text \<open>The instances the builder's graphs give: every node of the graph has a state.\<close>

definition wf_instance :: "workflow_instance \<Rightarrow> bool" where
  "wf_instance w \<longleftrightarrow> wf_graph (wi_graph w) \<and> dkeys (wi_node_states w) = dkeys (g_nodes (wi_graph w))"

lemma wf_instanceD:
  assumes "wf_instance w"
  shows "wf_dict (wi_node_states w)" and "dkeys (wi_node_states w) = dkeys (g_nodes (wi_graph w))"
    and "(p, c) \<in> set (edge_pairs (wi_graph w)) \<Longrightarrow> p \<in> set (dkeys (wi_node_states w)) \<and> c \<in> set (dkeys (wi_node_states w))"
proof -
  show "wf_dict (wi_node_states w)" and d: "dkeys (wi_node_states w) = dkeys (g_nodes (wi_graph w))"
    using assms by (simp_all add: wf_instance_def wf_graph_def wf_dict_def)
  show "(p, c) \<in> set (edge_pairs (wi_graph w)) \<Longrightarrow> p \<in> set (dkeys (wi_node_states w)) \<and> c \<in> set (dkeys (wi_node_states w))"
    using assms wf_graph_pairs [of "wi_graph w"] unfolding d wf_instance_def by auto
qed

lemma dispatch_parents:
  assumes "wf_graph g"
  shows "\<exists>ps. link_parents (g_edges g) (empty_lists g) = Inr ps \<and>
    (\<forall>v \<in> set (dkeys (g_nodes g)). dget ps v = Some (map fst (filter (\<lambda>e. snd e = v) (edge_pairs g))))"
proof -
  have "\<forall>v \<in> set (dkeys (g_nodes g)). dget (empty_lists g) v = Some (map fst (filter (\<lambda>e. snd e = v) []))"
    unfolding empty_lists_def dget_const_keys by simp
  from link_parents_spec [OF this, of "g_edges g"] assms show ?thesis
    unfolding append_Nil edge_pairs_def [symmetric] wf_graph_def by blast
qed

section \<open>The tasks of the nodes\<close>

lemma node_task_created:
  "\<exists>t. node_task uid now w nid n = Inr t \<and> t_id t = node_task_id (instance_id w) nid \<and>
       t_title t = workflow_name w @ '':'' @ nid \<and> t_type t = executor_task_type (executor_type n) \<and>
       t_metadata t = Some (node_metadata w nid n)"
proof -
  have "CHR '':'' \<in> set (workflow_name w @ '':'' @ nid)" and "\<not> is_space (CHR '':'')"
    by (simp_all add: is_space_def)
  then have "strip (workflow_name w @ '':'' @ nid) \<noteq> []" unfolding strip_Nil_iff by blast
  then show ?thesis by (simp add: node_task_def task_init_def)
qed

section \<open>What the orchestrator needs of a scheduler\<close>

definition enqueue_id :: "string \<Rightarrow> string list \<Rightarrow> string list" where
  "enqueue_id i q = (if i \<in> set q then q else q @ [i])"

definition nodes_accepted :: "(task \<Rightarrow> bool) \<Rightarrow> workflow_instance \<Rightarrow> bool" where
  "nodes_accepted accepts w \<longleftrightarrow>
     (\<forall>(nid, n) \<in> set (g_nodes (wi_graph w)). \<forall>t uid now outputs.
        node_task uid now (w\<lparr>wi_node_outputs := outputs\<rparr>) nid n = Inr t \<longrightarrow> accepts t)"

lemma node_task_cong:
  "instance_id w = instance_id v \<Longrightarrow> workflow_name w = workflow_name v \<Longrightarrow> wi_node_outputs w = wi_node_outputs v \<Longrightarrow>
   node_task uid now w nid n = node_task uid now v nid n"
  by (simp add: node_task_def node_metadata_def)

lemma nodes_acceptedD:
  assumes "nodes_accepted accepts v" and "(nid, n) \<in> set (g_nodes (wi_graph v))"
    and "instance_id w = instance_id v" and "workflow_name w = workflow_name v"
    and "node_task uid now w nid n = Inr t"
  shows "accepts t"
proof -
  have "node_task uid now (v\<lparr>wi_node_outputs := wi_node_outputs w\<rparr>) nid n = Inr t"
    using assms(3-5) node_task_cong [of w "v\<lparr>wi_node_outputs := wi_node_outputs w\<rparr>"] by simp
  with assms(1,2) show ?thesis unfolding nodes_accepted_def by blast
qed

text \<open>
  The scheduler as the orchestrator sees it: a state is good (\<open>sched_ok\<close>), some tasks are accepted and
  their ids join the waiting ones, the others raise and change nothing that waits; a cancelled id no
  longer waits.
\<close>

locale node_scheduler =
  fixes sch :: "'s wf_scheduler" and sched_ok :: "'s \<Rightarrow> bool" and accepts :: "task \<Rightarrow> bool"
    and queued :: "'s \<Rightarrow> string list"
  assumes schedule_accepted: "sched_ok c \<Longrightarrow> accepts t \<Longrightarrow>
      \<exists>c'. wfs_schedule sch t c = (Inr (), c') \<and> sched_ok c' \<and> queued c' = enqueue_id (t_id t) (queued c)"
    and schedule_rejected: "sched_ok c \<Longrightarrow> \<not> accepts t \<Longrightarrow>
      \<exists>e c'. wfs_schedule sch t c = (Inl e, c') \<and> sched_ok c' \<and> queued c' = queued c"
    and cancel_queued: "sched_ok c \<Longrightarrow>
      sched_ok (wfs_cancel sch i c) \<and> queued (wfs_cancel sch i c) = filter (\<lambda>j. j \<noteq> i) (queued c)"
begin

lemma submit_node_accepted:
  assumes "sched_ok (oc_sched s)" and "nodes_accepted accepts w" and "nid \<in> set (dkeys (g_nodes (wi_graph w)))"
  shows "\<exists>s'. submit_node sch nid w s = (Inr (w\<lparr>wi_node_states := dset nid NS_RUNNING (wi_node_states w)\<rparr>), s') \<and>
    sched_ok (oc_sched s') \<and> queued (oc_sched s') = enqueue_id (node_task_id (instance_id w) nid) (queued (oc_sched s)) \<and>
    oc_db s' = oc_db s"
proof -
  from key_dget_Some [OF assms(3)] obtain n where n: "dget (g_nodes (wi_graph w)) nid = Some n" by blast
  let ?w = "w\<lparr>wi_node_states := dset nid NS_RUNNING (wi_node_states w)\<rparr>"
  from node_task_created [of "oc_uuid s (oc_drawn s)" "oc_now s" ?w nid n] obtain t where
    t: "node_task (oc_uuid s (oc_drawn s)) (oc_now s) ?w nid n = Inr t" "t_id t = node_task_id (instance_id w) nid"
    by auto
  have "accepts t"
    using nodes_acceptedD [OF assms(2) map_of_SomeD [OF n] _ _ t(1)] by simp
  from schedule_accepted [OF assms(1) this] obtain c' where
    "wfs_schedule sch t (oc_sched s) = (Inr (), c')" "sched_ok c'" "queued c' = enqueue_id (t_id t) (queued (oc_sched s))"
    by blast
  with n t show ?thesis by (simp add: submit_node_def Let_def)
qed

lemma dispatch_loop_started:
  assumes pd: "\<forall>v \<in> set (dkeys (g_nodes (wi_graph w))). dget pd v =
      Some (map fst (filter (\<lambda>e. snd e = v) (edge_pairs (wi_graph w))))"
    and w: "wf_instance w" "nodes_accepted accepts w"
    and N: "N \<subseteq> Collect (eligible w)" and s: "sched_ok (oc_sched s)"
    and nids: "set nids \<subseteq> set (dkeys (wi_node_states w))" "distinct nids" "set nids \<inter> N = {}"
  shows "\<exists>s'. dispatch_loop sch pd nids (w\<lparr>wi_node_states := start_nodes N (wi_node_states w)\<rparr>) s =
      (Inr (w\<lparr>wi_node_states := start_nodes (N \<union> {k \<in> set nids. eligible w k}) (wi_node_states w)\<rparr>), s') \<and>
    sched_ok (oc_sched s') \<and> oc_db s' = oc_db s \<and>
    queued (oc_sched s') = fold (\<lambda>k. enqueue_id (node_task_id (instance_id w) k)) (filter (eligible w) nids)
      (queued (oc_sched s))"
  using N s nids
proof (induction nids arbitrary: N s)
  case (Cons nid nids)
  let ?w = "w\<lparr>wi_node_states := start_nodes N (wi_node_states w)\<rparr>"
  note wd = wf_instanceD [OF w(1)]
  have nid: "nid \<in> set (dkeys (g_nodes (wi_graph w)))" "nid \<notin> N" using Cons.prems(3,5) wd(2) by auto
  have dget_pd: "dget pd nid = Some (map fst (filter (\<lambda>e. snd e = nid) (edge_pairs (wi_graph w))))"
    using pd nid(1) by blast
  have pend: "dget (wi_node_states ?w) nid = dget (wi_node_states w) nid" using nid(2) by (simp add: dget_start_nodes)
  have preds: "set (map fst (filter (\<lambda>e. snd e = nid) (edge_pairs (wi_graph w)))) \<subseteq> set (dkeys (wi_node_states ?w))"
    using wd(3) by auto
  have pendN: "\<And>k. k \<in> N \<Longrightarrow> dget (wi_node_states w) k = Some NS_PENDING"
    using Cons.prems(1) by (auto simp: eligible_def)
  show ?case
  proof (cases "eligible w nid")
    case True
    from submit_node_accepted [of s ?w nid] Cons.prems(2) w(2) nid(1) obtain s1 where
      s1: "submit_node sch nid ?w s = (Inr (?w\<lparr>wi_node_states := dset nid NS_RUNNING (wi_node_states ?w)\<rparr>), s1)"
        "sched_ok (oc_sched s1)" "oc_db s1 = oc_db s"
        "queued (oc_sched s1) = enqueue_id (node_task_id (instance_id w) nid) (queued (oc_sched s))"
      by (auto simp: nodes_accepted_def node_task_cong [of "w\<lparr>wi_node_states := _, wi_node_outputs := _\<rparr>"
            "w\<lparr>wi_node_outputs := _\<rparr>"])
    have "dset nid NS_RUNNING (start_nodes N (wi_node_states w)) = start_nodes (insert nid N) (wi_node_states w)"
      using wd(1,2) nid(1) by (intro start_nodes_insert) auto
    with s1(1) have sub: "submit_node sch nid ?w s =
        (Inr (w\<lparr>wi_node_states := start_nodes (insert nid N) (wi_node_states w)\<rparr>), s1)" by simp
    have "parents_ready (wi_node_states ?w) (map fst (filter (\<lambda>e. snd e = nid) (edge_pairs (wi_graph w)))) = Inr True"
      using parents_ready_spec [OF preds] True node_done_start_nodes [of N "wi_node_states w"] pendN
      by (simp add: eligible_preds)
    with sub dget_pd True pend have step: "dispatch_loop sch pd (nid # nids) ?w s =
        dispatch_loop sch pd nids (w\<lparr>wi_node_states := start_nodes (insert nid N) (wi_node_states w)\<rparr>) s1"
      by (simp add: eligible_preds bindO_def)
    have "insert nid N \<union> {k \<in> set nids. eligible w k} = N \<union> {k \<in> set (nid # nids). eligible w k}"
      using True by auto
    with Cons.IH [of "insert nid N" s1] Cons.prems s1 step True show ?thesis by auto
  next
    case False
    have "dispatch_loop sch pd (nid # nids) ?w s = dispatch_loop sch pd nids ?w s"
    proof (cases "dget (wi_node_states w) nid = Some NS_PENDING")
      case True
      with False parents_ready_spec [OF preds] node_done_start_nodes [of N "wi_node_states w"] pendN
      have "parents_ready (wi_node_states ?w) (map fst (filter (\<lambda>e. snd e = nid) (edge_pairs (wi_graph w)))) = Inr False"
        by (simp add: eligible_preds)
      with dget_pd show ?thesis by simp
    qed (use pend in simp)
    moreover have "N \<union> {k \<in> set nids. eligible w k} = N \<union> {k \<in> set (nid # nids). eligible w k}"
      using False by auto
    ultimately show ?thesis using Cons.IH [of N s] Cons.prems False by auto
  qed
qed simp

lemma dispatch_started:
  assumes w: "wf_instance w" "nodes_accepted accepts w" "wi_status w = WF_RUNNING" "instance_json_ok w"
    and s: "sched_ok (oc_sched s)"
  shows "\<exists>s'. dispatch_eligible_nodes sch w s =
      (Inr (w\<lparr>wi_node_states := start_nodes (Collect (eligible w)) (wi_node_states w)\<rparr>), s') \<and>
    sched_ok (oc_sched s') \<and>
    queued (oc_sched s') = fold (\<lambda>k. enqueue_id (node_task_id (instance_id w) k))
      (filter (eligible w) (dkeys (wi_node_states w))) (queued (oc_sched s)) \<and>
    db_events (oc_db s') = db_events (oc_db s) \<and>
    (\<forall>i. load_instance i (oc_db s') = (if i = instance_id w
       then Inr (w\<lparr>wi_node_states := start_nodes (Collect (eligible w)) (wi_node_states w)\<rparr>)
       else load_instance i (oc_db s)))"
proof -
  from dispatch_parents w(1) obtain pd where
    pd: "link_parents (g_edges (wi_graph w)) (empty_lists (wi_graph w)) = Inr pd"
      "\<forall>v \<in> set (dkeys (g_nodes (wi_graph w))). dget pd v = Some (map fst (filter (\<lambda>e. snd e = v) (edge_pairs (wi_graph w))))"
    unfolding wf_instance_def by blast
  let ?E = "Collect (eligible w)"
  let ?w = "w\<lparr>wi_node_states := start_nodes ?E (wi_node_states w)\<rparr>"
  have E: "{} \<union> {k \<in> set (dkeys (wi_node_states w)). eligible w k} = ?E"
    using eligible_key [of w] by blast
  have w0: "w\<lparr>wi_node_states := start_nodes {} (wi_node_states w)\<rparr> = w" by (simp add: start_nodes_def)
  have "distinct (dkeys (wi_node_states w))" using wf_instanceD(1) [OF w(1)] by (simp add: wf_dict_def)
  from dispatch_loop_started [OF pd(2) w(1,2) empty_subsetI s subset_refl this Int_empty_right, unfolded E w0]
  obtain s1 where s1: "dispatch_loop sch pd (dkeys (wi_node_states w)) w s = (Inr ?w, s1)"
    "sched_ok (oc_sched s1)" "oc_db s1 = oc_db s"
    "queued (oc_sched s1) = fold (\<lambda>k. enqueue_id (node_task_id (instance_id w) k))
      (filter (eligible w) (dkeys (wi_node_states w))) (queued (oc_sched s))"
    by blast
  have "instance_json_ok ?w" using w(4) by (simp add: instance_json_ok_def)
  from checkpoint_ok [OF this, of "oc_db s"] obtain db where db: "checkpoint_workflow ?w (oc_db s) = (Inr (), db)" ..
  have "dispatch_eligible_nodes sch w s = (Inr ?w, s1\<lparr>oc_db := db\<rparr>)"
    using w(3) pd(1) s1(1,3) db by (simp add: dispatch_eligible_nodes_def bindO_def orch_checkpoint_def)
  with s1 checkpoint_loads [OF db] show ?thesis by auto
qed

end

section \<open>Workflows advance\<close>

text \<open>
  Every node is pending, running or finished, and one that runs or has finished has only finished
  predecessors.
\<close>

definition flow_ok :: "workflow_instance \<Rightarrow> bool" where
  "flow_ok w \<longleftrightarrow> wf_instance w \<and> acyclic (set (edge_pairs (wi_graph w))) \<and> instance_json_ok w \<and>
     (\<forall>st \<in> set (dvalues (wi_node_states w)). st = NS_PENDING \<or> st = NS_RUNNING \<or> finished st) \<and>
     (\<forall>(p, c) \<in> set (edge_pairs (wi_graph w)).
        dget (wi_node_states w) c = Some NS_RUNNING \<or> node_done (wi_node_states w) c \<longrightarrow> node_done (wi_node_states w) p)"

definition finished_count :: "workflow_instance \<Rightarrow> nat" where
  "finished_count w = length (filter finished (dvalues (wi_node_states w)))"

lemma flow_okD:
  assumes "flow_ok w"
  shows "wf_instance w" "acyclic (set (edge_pairs (wi_graph w)))" "instance_json_ok w"
    and "dget (wi_node_states w) k = Some st \<Longrightarrow> st = NS_PENDING \<or> st = NS_RUNNING \<or> finished st"
    and "(p, c) \<in> set (edge_pairs (wi_graph w)) \<Longrightarrow>
      dget (wi_node_states w) c = Some NS_RUNNING \<or> node_done (wi_node_states w) c \<Longrightarrow> node_done (wi_node_states w) p"
proof -
  note f = assms [unfolded flow_ok_def]
  note f2 = conjunct2 [OF f] note f3 = conjunct2 [OF f2] note f4 = conjunct2 [OF f3]
  note vals = conjunct1 [OF f4] and order = conjunct2 [OF f4]
  show "wf_instance w" "acyclic (set (edge_pairs (wi_graph w)))" "instance_json_ok w"
    by (rule conjunct1 [OF f] conjunct1 [OF f2] conjunct1 [OF f3])+
  show "(p, c) \<in> set (edge_pairs (wi_graph w)) \<Longrightarrow>
      dget (wi_node_states w) c = Some NS_RUNNING \<or> node_done (wi_node_states w) c \<Longrightarrow> node_done (wi_node_states w) p"
    using order by blast
  assume "dget (wi_node_states w) k = Some st"
  then have "st \<in> set (dvalues (wi_node_states w))" using map_of_SomeD by force
  with vals show "st = NS_PENDING \<or> st = NS_RUNNING \<or> finished st" by blast
qed

lemma flow_okI:
  assumes "flow_ok w" and "wf_instance v" and "wi_definition v = wi_definition w" and "instance_json_ok v"
    and "set (dvalues (wi_node_states v)) \<subseteq> insert st (set (dvalues (wi_node_states w)))"
    and "st = NS_RUNNING \<or> finished st"
    and "\<And>p c. (p, c) \<in> set (edge_pairs (wi_graph v)) \<Longrightarrow>
        dget (wi_node_states v) c = Some NS_RUNNING \<or> node_done (wi_node_states v) c \<Longrightarrow> node_done (wi_node_states v) p"
  shows "flow_ok v"
proof -
  have "\<forall>x \<in> set (dvalues (wi_node_states v)). x = NS_PENDING \<or> x = NS_RUNNING \<or> finished x"
    using assms(1,5,6) unfolding flow_ok_def by blast
  moreover have "acyclic (set (edge_pairs (wi_graph v)))" using flow_okD(2) [OF assms(1)] assms(3) by simp
  ultimately show ?thesis using assms(2,4,7) unfolding flow_ok_def by blast
qed

lemma set_update_subset: "set (dset k v d) \<subseteq> insert (k, v) (set d)"
  by (induction d) auto

lemma finished_simps [simp]:
  "\<not> finished NS_PENDING" "\<not> finished NS_RUNNING" "finished NS_SUCCEEDED" "finished NS_SKIPPED" "\<not> finished NS_FAILED"
  by (simp_all add: finished_def)

lemma flow_ok_start:
  assumes "flow_ok w" and "N \<subseteq> Collect (eligible w)"
  shows "flow_ok (w\<lparr>wi_node_states := start_nodes N (wi_node_states w)\<rparr>)"
    and "finished_count (w\<lparr>wi_node_states := start_nodes N (wi_node_states w)\<rparr>) = finished_count w"
proof -
  let ?ns = "wi_node_states w"
  note w = flow_okD [OF assms(1)]
  have pend: "\<And>k. k \<in> N \<Longrightarrow> dget ?ns k = Some NS_PENDING" using assms(2) by (auto simp: eligible_def)
  have wd: "wf_dict ?ns" using wf_instanceD(1) [OF w(1)] .
  have done_eq: "node_done (start_nodes N ?ns) p = node_done ?ns p" for p
    by (rule node_done_start_nodes) (use pend in auto)
  have edges: "node_done (start_nodes N ?ns) p"
    if e: "(p, c) \<in> set (edge_pairs (wi_graph w))"
      and c: "dget (start_nodes N ?ns) c = Some NS_RUNNING \<or> node_done (start_nodes N ?ns) c" for p c
  proof (cases "c \<in> N")
    case True
    with assms(2) e show ?thesis unfolding done_eq by (auto simp: eligible_def)
  next
    case False
    with c w(5) [OF e] show ?thesis unfolding done_eq by (simp add: dget_start_nodes)
  qed
  show "flow_ok (w\<lparr>wi_node_states := start_nodes N ?ns\<rparr>)"
  proof (rule flow_okI [OF assms(1), where st = NS_RUNNING])
    show "set (dvalues (wi_node_states (w\<lparr>wi_node_states := start_nodes N ?ns\<rparr>)))
        \<subseteq> insert NS_RUNNING (set (dvalues (wi_node_states w)))"
      by (auto simp: start_nodes_def split: if_splits)
  qed (use w(1,3) edges in \<open>simp_all add: wf_instance_def instance_json_ok_def\<close>)
  have "finished (if k \<in> N then NS_RUNNING else st) = finished st" if "(k, st) \<in> set ?ns" for k st
    using pend [of k] wd that by (auto simp: wf_dict_def)
  then have "map finished (dvalues (start_nodes N ?ns)) = map finished (dvalues ?ns)"
    by (auto simp: start_nodes_def)
  then have "length (filter id (map finished (dvalues (start_nodes N ?ns)))) = length (filter id (map finished (dvalues ?ns)))"
    by simp
  then show "finished_count (w\<lparr>wi_node_states := start_nodes N ?ns\<rparr>) = finished_count w"
    by (simp add: finished_count_def filter_map comp_def)
qed

lemma filter_update_count:
  "dget d k = Some x \<Longrightarrow> \<not> P x \<Longrightarrow> P y \<Longrightarrow>
   length (filter P (dvalues (dset k y d))) = Suc (length (filter P (dvalues d)))"
  by (induction d) (auto split: if_splits)

lemma flow_ok_finish:
  assumes "flow_ok w" and r: "dget (wi_node_states w) nid = Some NS_RUNNING" and st: "finished st"
    and out: "out = wi_node_outputs w \<or> out = dset nid d (wi_node_outputs w) \<and> json_ok (PDict d)"
  shows "flow_ok (w\<lparr>wi_node_states := dset nid st (wi_node_states w), wi_node_outputs := out\<rparr>)"
    and "finished_count (w\<lparr>wi_node_states := dset nid st (wi_node_states w), wi_node_outputs := out\<rparr>) = Suc (finished_count w)"
proof -
  let ?ns = "wi_node_states w"
  note w = flow_okD [OF assms(1)]
  have nid: "nid \<in> set (dkeys ?ns)" using r by (rule dget_Some_key)
  have new: "node_done (dset nid st ?ns) p = (p = nid \<or> node_done ?ns p)" for p
    using st by (auto simp: node_done_def dget_update)
  have edges: "node_done (dset nid st ?ns) p"
    if e: "(p, c) \<in> set (edge_pairs (wi_graph w))"
      and c: "dget (dset nid st ?ns) c = Some NS_RUNNING \<or> node_done (dset nid st ?ns) c" for p c
    using c w(5) [OF e] r unfolding new by (auto simp: dget_update split: if_splits)
  have vals: "set (dvalues (dset nid st ?ns)) \<subseteq> insert st (set (dvalues ?ns))"
    using set_update_subset [of nid st ?ns] by force
  have outs: "list_all (\<lambda>o'. json_ok (PDict (snd o'))) out"
    using out w(3) set_update_subset [of nid d "wi_node_outputs w"]
    by (auto simp: instance_json_ok_def list_all_iff simp del: json_ok.simps)
  have keys: "dkeys (dset nid st ?ns) = dkeys ?ns" using nid by (rule dkeys_update_present)
  show "flow_ok (w\<lparr>wi_node_states := dset nid st ?ns, wi_node_outputs := out\<rparr>)"
  proof (rule flow_okI [OF assms(1), where st = st])
    show "wf_instance (w\<lparr>wi_node_states := dset nid st ?ns, wi_node_outputs := out\<rparr>)"
      using w(1) keys by (simp add: wf_instance_def)
    show "instance_json_ok (w\<lparr>wi_node_states := dset nid st ?ns, wi_node_outputs := out\<rparr>)"
      using w(3) outs by (simp add: instance_json_ok_def del: json_ok.simps)
  qed (use vals edges st in auto)
  show "finished_count (w\<lparr>wi_node_states := dset nid st ?ns, wi_node_outputs := out\<rparr>) = Suc (finished_count w)"
    using filter_update_count [OF r, of finished st] st by (simp add: finished_count_def)
qed

text \<open>In an acyclic graph in which no node is eligible, a node runs unless all have finished.\<close>

lemma some_node_runs:
  assumes w: "flow_ok w" and none: "\<forall>k. \<not> eligible w k" and k: "k \<in> set (dkeys (wi_node_states w))"
    and "\<not> node_done (wi_node_states w) k"
  shows "\<exists>k. dget (wi_node_states w) k = Some NS_RUNNING"
proof -
  let ?E = "set (edge_pairs (wi_graph w))" and ?ns = "wi_node_states w"
  note d = flow_okD [OF w] and i = wf_instanceD [OF flow_okD(1) [OF w]]
  have "wf ?E" using d(2) by (simp add: finite_acyclic_wf)
  then obtain z where z: "z \<in> set (dkeys ?ns)" "\<not> node_done ?ns z"
    and min: "\<And>p. (p, z) \<in> ?E \<Longrightarrow> p \<notin> set (dkeys ?ns) \<or> node_done ?ns p"
    using k assms(4) by (elim wfE_min' [where Q = "{x \<in> set (dkeys ?ns). \<not> node_done ?ns x}"]) blast+
  from key_dget_Some [OF z(1)] obtain st where st: "dget ?ns z = Some st" by blast
  have "\<forall>p. (p, z) \<in> ?E \<longrightarrow> node_done ?ns p" using min i(3) by blast
  with none st have "st \<noteq> NS_PENDING" by (auto simp: eligible_def)
  with d(4) [OF st] z(2) st show ?thesis by (auto simp: node_done_def)
qed

section \<open>A workflow from its start to its end\<close>

definition event_for :: "runtime_event \<Rightarrow> string \<Rightarrow> string \<Rightarrow> bool" where
  "event_for e iid nid \<longleftrightarrow> meta_given (ev_metadata e) ''workflow_instance_id'' = Some (PStr iid) \<and>
     meta_given (ev_metadata e) ''node_id'' = Some (PStr nid)"

text \<open>The event reports the end of the node: it completed, or failed and failures are to be ignored.\<close>

definition finishes :: "workflow_instance \<Rightarrow> string \<Rightarrow> runtime_event \<Rightarrow> bool" where
  "finishes w nid e \<longleftrightarrow> event_for e (instance_id w) nid \<and>
     (event_outcome (ev_kind e) = Node_completed \<and> json_ok (PDict (ev_metadata e)) \<or>
      event_outcome (ev_kind e) = Node_failed \<and> node_failure_policy w nid = Inr FP_IGNORE)"

definition workflow_inv :: "workflow_instance \<Rightarrow> nat \<Rightarrow> bool" where
  "workflow_inv w n \<longleftrightarrow> flow_ok w \<and> n = finished_count w \<and> (\<forall>k. \<not> eligible w k) \<and>
     wi_status w = (if finished_count w = length (wi_node_states w) then WF_SUCCEEDED else WF_RUNNING)"

lemma filter_length_all: "length (filter P xs) = length xs \<longleftrightarrow> (\<forall>x \<in> set xs. P x)"
proof
  assume "length (filter P xs) = length xs"
  then show "\<forall>x \<in> set xs. P x" using length_filter_less [of _ xs P] by auto
qed simp

lemma all_completed_iff:
  assumes "flow_ok w"
  shows "all_completed w \<longleftrightarrow> finished_count w = length (wi_node_states w)"
proof -
  have vals: "st = NS_PENDING \<or> st = NS_RUNNING \<or> finished st" if "st \<in> set (dvalues (wi_node_states w))" for st
    using assms that unfolding flow_ok_def by blast
  have "all_completed w \<longleftrightarrow> (\<forall>st \<in> set (dvalues (wi_node_states w)). finished st)"
    unfolding all_completed_def list_all_iff
  proof (rule ball_cong [OF refl])
    fix st assume "st \<in> set (dvalues (wi_node_states w))"
    from vals [OF this] show "(st \<noteq> NS_PENDING \<and> st \<noteq> NS_RUNNING \<and> st \<noteq> NS_WAITING_APPROVAL) = finished st"
      by (auto simp: finished_def)
  qed
  also have "\<dots> \<longleftrightarrow> finished_count w = length (dvalues (wi_node_states w))"
    unfolding finished_count_def by (rule filter_length_all [symmetric])
  finally show ?thesis by simp
qed

lemma not_eligible_after:
  "\<not> eligible (w\<lparr>wi_node_states := start_nodes (Collect (eligible w)) (wi_node_states w)\<rparr>) k"
proof
  let ?ns = "wi_node_states w" and ?w = "w\<lparr>wi_node_states := start_nodes (Collect (eligible w)) (wi_node_states w)\<rparr>"
  assume e: "eligible ?w k"
  have "node_done (start_nodes (Collect (eligible w)) ?ns) p = node_done ?ns p" for p
    by (rule node_done_start_nodes) (auto simp: eligible_def)
  with e have "eligible w k" by (auto simp: eligible_def dget_start_nodes split: if_splits)
  with e show False by (auto simp: eligible_def dget_start_nodes)
qed

lemma running_not_finished:
  assumes "dget (wi_node_states w) nid = Some NS_RUNNING"
  shows "finished_count w < length (wi_node_states w)"
proof -
  have "NS_RUNNING \<in> set (dvalues (wi_node_states w))" using map_of_SomeD [OF assms] by force
  then show ?thesis unfolding finished_count_def
    using length_filter_less [of NS_RUNNING "dvalues (wi_node_states w)" finished] by simp
qed

lemma result_output_json: "json_ok (PDict md) \<Longrightarrow> json_ok (PDict (result_output md))"
  using map_of_SomeD [of md "''result''"] by (fastforce simp: result_output_def split: option.split)

lemma advance_finishes:
  assumes w: "flow_ok w" and r: "dget (wi_node_states w) nid = Some NS_RUNNING" and e: "finishes w nid e"
  shows "\<exists>st out. advance_node t e nid w =
      Inr (w\<lparr>wi_node_states := dset nid st (wi_node_states w), wi_node_outputs := out\<rparr>) \<and> finished st \<and>
    flow_ok (w\<lparr>wi_node_states := dset nid st (wi_node_states w), wi_node_outputs := out\<rparr>) \<and>
    finished_count (w\<lparr>wi_node_states := dset nid st (wi_node_states w), wi_node_outputs := out\<rparr>) = Suc (finished_count w)"
proof (cases "event_outcome (ev_kind e)")
  case Node_completed
  with e have "json_ok (PDict (ev_metadata e))" by (simp add: finishes_def del: json_ok.simps)
  then have "json_ok (PDict (result_output (ev_metadata e)))" by (rule result_output_json)
  with Node_completed flow_ok_finish [OF w r, of NS_SUCCEEDED "dset nid (result_output (ev_metadata e)) (wi_node_outputs w)"]
  show ?thesis by (intro exI [of _ NS_SUCCEEDED] exI [of _ "dset nid (result_output (ev_metadata e)) (wi_node_outputs w)"])
    (auto simp: advance_node_def simp del: json_ok.simps)
next
  case Node_failed
  with e have "node_failure_policy w nid = Inr FP_IGNORE" by (simp add: finishes_def)
  with Node_failed flow_ok_finish [OF w r, of NS_SKIPPED "wi_node_outputs w"] show ?thesis
    by (intro exI [of _ NS_SKIPPED] exI [of _ "wi_node_outputs w"]) (simp add: advance_node_def)
next
  case Node_other
  with e show ?thesis by (simp add: finishes_def)
qed

lemma nodes_accepted_cong:
  assumes "nodes_accepted accepts v" and "instance_id w = instance_id v" and "workflow_name w = workflow_name v"
    and "wi_definition w = wi_definition v"
  shows "nodes_accepted accepts w"
proof -
  have "node_task uid now (w\<lparr>wi_node_outputs := outputs\<rparr>) nid n = node_task uid now (v\<lparr>wi_node_outputs := outputs\<rparr>) nid n"
    for uid now outputs nid n using assms(2,3) by (intro node_task_cong) simp_all
  with assms(1,4) show ?thesis by (simp add: nodes_accepted_def)
qed

lemma flow_ok_cong:
  assumes "flow_ok v" and "wi_definition w = wi_definition v" and "wi_node_states w = wi_node_states v"
    and "wi_node_outputs w = wi_node_outputs v"
  shows "flow_ok w" and "finished_count w = finished_count v" and "eligible w = eligible v"
  using assms by (simp_all add: flow_ok_def wf_instance_def instance_json_ok_def finished_count_def eligible_def fun_eq_iff)

text \<open>The part of an instance that never changes.\<close>

definition same_workflow :: "workflow_instance \<Rightarrow> workflow_instance \<Rightarrow> bool" where
  "same_workflow v w \<longleftrightarrow> instance_id w = instance_id v \<and> workflow_name w = workflow_name v \<and>
     wi_definition w = wi_definition v"

context node_scheduler
begin

lemma dispatch_inv:
  assumes w: "flow_ok w" "nodes_accepted accepts w"
    and st: "wi_status w = (if finished_count w = length (wi_node_states w) then WF_SUCCEEDED else WF_RUNNING)"
    and s: "sched_ok (oc_sched s)" and l: "load_instance (instance_id w) (oc_db s) = Inr w"
  shows "\<exists>s' w'. dispatch_eligible_nodes sch w s = (Inr w', s') \<and> sched_ok (oc_sched s') \<and>
    load_instance (instance_id w) (oc_db s') = Inr w' \<and> same_workflow w w' \<and> workflow_inv w' (finished_count w) \<and>
    (\<forall>i. i \<noteq> instance_id w \<longrightarrow> load_instance i (oc_db s') = load_instance i (oc_db s))"
proof (cases "wi_status w = WF_RUNNING")
  case True
  let ?w = "w\<lparr>wi_node_states := start_nodes (Collect (eligible w)) (wi_node_states w)\<rparr>"
  have len: "length (start_nodes (Collect (eligible w)) (wi_node_states w)) = length (wi_node_states w)"
    by (simp add: start_nodes_def)
  have "workflow_inv ?w (finished_count w)"
    using flow_ok_start [OF w(1) subset_refl] not_eligible_after [of w] st len unfolding workflow_inv_def by auto
  with dispatch_started [OF flow_okD(1) [OF w(1)] w(2) True flow_okD(3) [OF w(1)] s] show ?thesis
    by (auto simp: same_workflow_def)
next
  case False
  then have all: "finished_count w = length (wi_node_states w)" using st by (simp split: if_splits)
  have "\<not> eligible w k" for k
  proof
    assume "eligible w k"
    then have "dget (wi_node_states w) k = Some NS_PENDING" by (simp add: eligible_def)
    then have "NS_PENDING \<in> set (dvalues (wi_node_states w))" using map_of_SomeD by force
    with all show False using length_filter_less [of NS_PENDING "dvalues (wi_node_states w)" finished]
      by (simp add: finished_count_def)
  qed
  with False w(1) st s l show ?thesis
    by (simp add: dispatch_eligible_nodes_def workflow_inv_def same_workflow_def)
qed

lemma event_advances:
  assumes w: "workflow_inv w n" "nodes_accepted accepts w" and s: "sched_ok (oc_sched s)"
    and l: "load_instance (instance_id w) (oc_db s) = Inr w"
    and r: "dget (wi_node_states w) nid = Some NS_RUNNING" and e: "finishes w nid e"
  shows "\<exists>s' w'. on_runtime_event sch e s = (Inr (), s') \<and> sched_ok (oc_sched s') \<and>
    load_instance (instance_id w) (oc_db s') = Inr w' \<and> same_workflow w w' \<and> workflow_inv w' (Suc n) \<and>
    (\<forall>i. i \<noteq> instance_id w \<longrightarrow> load_instance i (oc_db s') = load_instance i (oc_db s))"
proof -
  have flow: "flow_ok w" and n: "n = finished_count w" using w(1) by (simp_all add: workflow_inv_def)
  have run: "wi_status w = WF_RUNNING"
    using w(1) running_not_finished [OF r] by (simp add: workflow_inv_def)
  let ?t = "oc_iso s (oc_now s)"
  from advance_finishes [OF flow r e, of ?t] obtain st out where
    a: "advance_node ?t e nid w = Inr (w\<lparr>wi_node_states := dset nid st (wi_node_states w), wi_node_outputs := out\<rparr>)"
    and f: "flow_ok (w\<lparr>wi_node_states := dset nid st (wi_node_states w), wi_node_outputs := out\<rparr>)"
    and c: "finished_count (w\<lparr>wi_node_states := dset nid st (wi_node_states w), wi_node_outputs := out\<rparr>) = Suc n"
    using n by blast
  let ?w1 = "w\<lparr>wi_node_states := dset nid st (wi_node_states w), wi_node_outputs := out\<rparr>"
  let ?w2 = "complete_workflow ?t ?w1"
  have same: "wi_definition ?w2 = wi_definition ?w1" "wi_node_states ?w2 = wi_node_states ?w1"
    "wi_node_outputs ?w2 = wi_node_outputs ?w1" "instance_id ?w2 = instance_id w" "workflow_name ?w2 = workflow_name w"
    "wi_definition ?w2 = wi_definition w"
    by (simp_all add: complete_workflow_def)
  note f2 = flow_ok_cong [OF f same(1-3)]
  have st2: "wi_status ?w2 = (if finished_count ?w2 = length (wi_node_states ?w2) then WF_SUCCEEDED else WF_RUNNING)"
    using all_completed_iff [OF f] run f2(2) by (simp add: complete_workflow_def)
  from checkpoint_ok [OF flow_okD(3) [OF f2(1)], of "oc_db s"] obtain db where
    db: "checkpoint_workflow ?w2 (oc_db s) = (Inr (), db)" ..
  let ?s = "s\<lparr>oc_db := db\<rparr>"
  have acc: "nodes_accepted accepts ?w2" by (rule nodes_accepted_cong [OF w(2)]) (fact same)+
  from dispatch_inv [OF f2(1) acc st2, of ?s] s checkpoint_loads(1) [OF db] obtain s' w' where
    d: "dispatch_eligible_nodes sch ?w2 ?s = (Inr w', s')" "sched_ok (oc_sched s')"
      "load_instance (instance_id w) (oc_db s') = Inr w'" "same_workflow ?w2 w'" "workflow_inv w' (Suc n)"
      "\<forall>i. i \<noteq> instance_id w \<longrightarrow> load_instance i (oc_db s') = load_instance i db"
    using same(4) f2(2) c by auto
  have "on_runtime_event sch e s = (Inr (), s')"
    using e l run a db d(1)
    by (simp add: finishes_def event_for_def on_runtime_event_def with_instance_def Let_def bindO_def orch_checkpoint_def)
  moreover have "\<forall>i. i \<noteq> instance_id w \<longrightarrow> load_instance i (oc_db s') = load_instance i (oc_db s)"
    using d(6) checkpoint_loads(1) [OF db] same(4) by simp
  moreover have "same_workflow w w'" using d(4) same by (simp add: same_workflow_def)
  ultimately show ?thesis using d(2,3,5) by blast
qed

text \<open>A new workflow: its roots are running and their tasks wait in the scheduler.\<close>

lemma start_inv:
  assumes p: "plan d = Some (Inr p)" and g: "wf_graph (wd_graph d)" "acyclic (set (edge_pairs (wd_graph d)))"
    and ne: "g_nodes (wd_graph d) \<noteq> []"
    and j: "json_ok (definition_to_dict d)" "\<And>i. inputs = Some i \<Longrightarrow> json_ok (PDict i)"
    and acc: "\<And>v. instance_id v = oc_uuid s (oc_drawn s) \<Longrightarrow> workflow_name v = wd_name d \<Longrightarrow> wi_definition v = d \<Longrightarrow>
        nodes_accepted accepts v"
    and s: "sched_ok (oc_sched s)"
  shows "\<exists>w s'. start_workflow sch d inputs s = Some (Inr w, s') \<and> sched_ok (oc_sched s') \<and>
    instance_id w = oc_uuid s (oc_drawn s) \<and> wi_definition w = d \<and> workflow_inv w 0 \<and> nodes_accepted accepts w \<and>
    load_instance (instance_id w) (oc_db s') = Inr w"
proof -
  let ?w = "\<lparr>instance_id = oc_uuid s (oc_drawn s), workflow_name = wd_name d, wi_definition = d,
      wi_status = WF_RUNNING, wi_node_states = map (\<lambda>nid. (nid, NS_PENDING)) (dkeys (g_nodes (wd_graph d))),
      wi_node_outputs = (case inputs of None \<Rightarrow> [] | Some i \<Rightarrow> if i = [] then [] else [(''workflow_inputs'', i)]),
      wi_execution_plan = p, started_at = oc_iso s (oc_now s), completed_at = None, wi_version = ''1.0.0''\<rparr>"
  have c: "dget (wi_node_states ?w) k = (if k \<in> set (dkeys (g_nodes (wd_graph d))) then Some NS_PENDING else None)" for k
    using dget_const_keys [of NS_PENDING "dkeys (g_nodes (wd_graph d))" k] by simp
  have look: "dget (wi_node_states ?w) k \<noteq> Some NS_RUNNING" "\<not> node_done (wi_node_states ?w) k" for k
    unfolding c node_done_def by auto
  have js: "instance_json_ok ?w"
    using j by (auto simp: instance_json_ok_def json_ok_definition split: option.split simp del: json_ok.simps)
  have "wf_instance ?w" using g(1) by (simp add: wf_instance_def comp_def)
  then have flow: "flow_ok ?w" using look js g(2) by (auto simp: flow_ok_def)
  have count: "finished_count ?w = 0" by (simp add: finished_count_def)
  have st: "wi_status ?w = (if finished_count ?w = length (wi_node_states ?w) then WF_SUCCEEDED else WF_RUNNING)"
    unfolding count using ne by simp
  have acc': "nodes_accepted accepts ?w" by (rule acc) simp_all
  from checkpoint_ok [OF js, of "oc_db s"] obtain db where db: "checkpoint_workflow ?w (oc_db s) = (Inr (), db)" ..
  let ?s = "s\<lparr>oc_drawn := Suc (oc_drawn s), oc_db := db\<rparr>"
  from dispatch_inv [OF flow acc' st, of ?s] s checkpoint_loads(1) [OF db] obtain s' w' where
    d: "dispatch_eligible_nodes sch ?w ?s = (Inr w', s')" "sched_ok (oc_sched s')"
      "load_instance (instance_id ?w) (oc_db s') = Inr w'" "same_workflow ?w w'" "workflow_inv w' 0"
    unfolding count by auto
  have "start_workflow sch d inputs s = Some (Inr w', s')"
    using p db d(1) by (simp add: start_workflow_def Let_def bindO_def orch_checkpoint_def)
  moreover have "nodes_accepted accepts w'"
    using nodes_accepted_cong [OF acc'] d(4) by (simp add: same_workflow_def)
  ultimately show ?thesis using d(2-5) by (auto simp: same_workflow_def)
qed

end

section \<open>What a dispatch leaves alone\<close>

context node_scheduler
begin

lemma submit_node_Inr:
  assumes "submit_node sch nid w s = (Inr w', s')" and "sched_ok (oc_sched s)"
  shows "w' = w\<lparr>wi_node_states := dset nid NS_RUNNING (wi_node_states w)\<rparr>" and "sched_ok (oc_sched s')"
    and "set (queued (oc_sched s')) \<subseteq> insert (node_task_id (instance_id w) nid) (set (queued (oc_sched s)))"
proof -
  let ?w = "w\<lparr>wi_node_states := dset nid NS_RUNNING (wi_node_states w)\<rparr>"
  from assms(1) obtain n where n: "dget (g_nodes (wi_graph w)) nid = Some n"
    by (auto simp: submit_node_def Let_def split: option.splits)
  from node_task_created [of "oc_uuid s (oc_drawn s)" "oc_now s" ?w nid n] obtain t where
    t: "node_task (oc_uuid s (oc_drawn s)) (oc_now s) ?w nid n = Inr t" "t_id t = node_task_id (instance_id w) nid" by auto
  obtain a c where ac: "wfs_schedule sch t (oc_sched s) = (a, c)" by fastforce
  with assms(1) n t(1) have res: "a = Inr ()" "s' = s\<lparr>oc_drawn := Suc (oc_drawn s), oc_sched := c\<rparr>" "w' = ?w"
    by (cases a; simp add: submit_node_def Let_def)+
  then have "accepts t" using schedule_rejected [OF assms(2), of t] ac by auto
  from schedule_accepted [OF assms(2) this] ac have "sched_ok c" "queued c = enqueue_id (t_id t) (queued (oc_sched s))"
    by auto
  then show "w' = ?w" and "sched_ok (oc_sched s')"
    and "set (queued (oc_sched s')) \<subseteq> insert (node_task_id (instance_id w) nid) (set (queued (oc_sched s)))"
    using res t(2) by (auto simp: enqueue_id_def)
qed

lemma dispatch_loop_frame:
  assumes "dispatch_loop sch pd nids w s = (Inr w', s')" and "sched_ok (oc_sched s)"
  shows "wi_status w' = wi_status w \<and> same_workflow w w' \<and> sched_ok (oc_sched s') \<and>
    (\<forall>k. dget (wi_node_states w) k \<noteq> Some NS_PENDING \<longrightarrow> dget (wi_node_states w') k = dget (wi_node_states w) k) \<and>
    set (queued (oc_sched s')) \<subseteq> set (queued (oc_sched s)) \<union>
      node_task_id (instance_id w) ` {k. dget (wi_node_states w) k = Some NS_PENDING}"
  using assms
proof (induction nids arbitrary: w s)
  case (Cons nid nids)
  let ?w = "w\<lparr>wi_node_states := dset nid NS_RUNNING (wi_node_states w)\<rparr>"
  consider "dispatch_loop sch pd nids w s = (Inr w', s')"
    | w1 s1 where "dget (wi_node_states w) nid = Some NS_PENDING" "submit_node sch nid w s = (Inr w1, s1)"
        "dispatch_loop sch pd nids w1 s1 = (Inr w', s')"
    using Cons.prems(1)
    by (auto simp: bindO_def split: if_splits option.splits sum.splits bool.splits prod.splits)
  then show ?case
  proof cases
    case 1
    from Cons.IH [OF 1 Cons.prems(2)] show ?thesis .
  next
    case 2
    note sub = submit_node_Inr [OF 2(2) Cons.prems(2)]
    let ?ids = "\<lambda>v. node_task_id (instance_id w) ` {k. dget (wi_node_states v) k = Some NS_PENDING}"
    note ih = Cons.IH [OF 2(3) sub(2)]
    have same: "instance_id w1 = instance_id w" unfolding sub(1) by simp
    have "?ids w1 \<subseteq> ?ids w" unfolding sub(1) by (auto simp: dget_update)
    moreover have "node_task_id (instance_id w) nid \<in> ?ids w" using 2(1) by blast
    ultimately have "set (queued (oc_sched s')) \<subseteq> set (queued (oc_sched s)) \<union> ?ids w"
      using ih sub(3) unfolding same by blast
    moreover have "wi_status w1 = wi_status w" "same_workflow w1 w' = same_workflow w w'"
      "dget (wi_node_states w) k \<noteq> Some NS_PENDING \<Longrightarrow> dget (wi_node_states w1) k = dget (wi_node_states w) k" for k
      unfolding sub(1) using 2(1) by (auto simp: same_workflow_def dget_update)
    ultimately show ?thesis using ih 2(1) by auto
  qed
qed (simp add: same_workflow_def)

lemma dispatch_frame:
  assumes "dispatch_eligible_nodes sch w s = (Inr w', s')" and "sched_ok (oc_sched s)"
  shows "wi_status w' = wi_status w \<and> same_workflow w w' \<and>
    (\<forall>k. dget (wi_node_states w) k \<noteq> Some NS_PENDING \<longrightarrow> dget (wi_node_states w') k = dget (wi_node_states w) k) \<and>
    set (queued (oc_sched s')) \<subseteq> set (queued (oc_sched s)) \<union>
      node_task_id (instance_id w) ` {k. dget (wi_node_states w) k = Some NS_PENDING}"
proof (cases "wi_status w = WF_RUNNING")
  case True
  with assms(1) obtain pd s1 where "dispatch_loop sch pd (dkeys (wi_node_states w)) w s = (Inr w', s1)"
    "oc_sched s' = oc_sched s1"
    by (auto simp: dispatch_eligible_nodes_def bindO_def orch_checkpoint_def split: sum.splits prod.splits)
  with dispatch_loop_frame [OF _ assms(2)] show ?thesis by metis
qed (use assms in \<open>simp add: dispatch_eligible_nodes_def same_workflow_def\<close>)

end

text \<open>
  \<open>wf_run sch ok i s n s'\<close>: from \<open>s\<close> to \<open>s'\<close> the instance \<open>i\<close> has seen \<open>n\<close> events, each the end of a
  node that was running; in between anything may happen that leaves the stored instance alone and the
  scheduler in a good state (other workflows, other tasks, the clock).
\<close>

inductive wf_run ::
  "'s wf_scheduler \<Rightarrow> ('s \<Rightarrow> bool) \<Rightarrow> string \<Rightarrow> 's orch \<Rightarrow> nat \<Rightarrow> 's orch \<Rightarrow> bool"
  for sch :: "'s wf_scheduler" and ok :: "'s \<Rightarrow> bool" and i :: string and s :: "'s orch"
where
  wf_run_refl: "wf_run sch ok i s 0 s"
| wf_run_other: "wf_run sch ok i s n s' \<Longrightarrow>
    load_instance i (oc_db s'') = load_instance i (oc_db s') \<Longrightarrow> ok (oc_sched s'') \<Longrightarrow> wf_run sch ok i s n s''"
| wf_run_event: "wf_run sch ok i s n s' \<Longrightarrow> load_instance i (oc_db s') = Inr w \<Longrightarrow>
    dget (wi_node_states w) nid = Some NS_RUNNING \<Longrightarrow> finishes w nid e \<Longrightarrow>
    on_runtime_event sch e s' = (res, s'') \<Longrightarrow> wf_run sch ok i s (Suc n) s''"

context node_scheduler
begin

lemma wf_run_inv:
  assumes "wf_run sch sched_ok (instance_id w) s n s'" and "workflow_inv w 0" "nodes_accepted accepts w"
    and "load_instance (instance_id w) (oc_db s) = Inr w" and "sched_ok (oc_sched s)"
  shows "\<exists>w'. load_instance (instance_id w) (oc_db s') = Inr w' \<and> sched_ok (oc_sched s') \<and>
    same_workflow w w' \<and> workflow_inv w' n"
  using assms
proof (induction rule: wf_run.induct)
  case wf_run_refl
  then show ?case by (auto simp: same_workflow_def)
next
  case (wf_run_other n s' s'')
  then show ?case by auto
next
  case (wf_run_event n s' v nid e res s'')
  then have v: "sched_ok (oc_sched s')" "same_workflow w v" "workflow_inv v n" by auto
  then have acc: "nodes_accepted accepts v" and id: "instance_id v = instance_id w"
    using nodes_accepted_cong [OF wf_run_event.prems(2)] by (auto simp: same_workflow_def)
  from event_advances [OF v(3) acc v(1) _ wf_run_event.hyps(3,4)] wf_run_event.hyps(2,5) id v(2) show ?case
    by (auto simp: same_workflow_def)
qed

end

section \<open>The runtime provides it\<close>

definition runtime_wf_ok :: "('l, 'x) runtime_sys \<Rightarrow> bool" where
  "runtime_wf_ok s \<longleftrightarrow> sc_admission s = Some default_controller \<and> q_max_size (sc_queue s) = None \<and>
     (\<exists>f. q_policy (sc_queue s) = FIFO f)"

definition runtime_accepts :: "task \<Rightarrow> bool" where
  "runtime_accepts t \<longleftrightarrow> length (t_title t) \<le> 255 \<and> (t_type t = Type_SHELL \<longrightarrow> shell_allowed t)"

definition runtime_queued :: "('l, 'x) runtime_sys \<Rightarrow> string list" where
  "runtime_queued s = dkeys (q_storage (sc_queue s))"

lemma runtime_schedule_cases:
  assumes "runtime_wf_ok s"
  shows "\<exists>res s'. runtime_wf_schedule en t s = (res, s') \<and> runtime_wf_ok s' \<and>
    (if runtime_accepts t then res = Inr () \<and> runtime_queued s' = enqueue_id (t_id t) (runtime_queued s)
     else (\<exists>e. res = Inl e) \<and> runtime_queued s' = runtime_queued s)"
proof -
  let ?r = "rt_next s"
  let ?s = "s\<lparr>rt_next := Suc ?r, ps_world := (ps_world s)\<lparr>w_task := (w_task (ps_world s))(?r := t)\<rparr>\<rparr>"
  obtain a h where a: "admission_submit (en_render en) default_controller ?r (w_task (ps_world ?s)) = (a, h)"
    by fastforce
  note adm = admission_default [OF a]
  have wt: "w_task (ps_world ?s) ?r = t" by simp
  have admit: "admit (en_render en) ?r ?s = (a, upd_world (\<lambda>w. w\<lparr>w_task := h\<rparr>) ?s)"
    using assms a by (simp add: admit_def runtime_wf_ok_def)
  show ?thesis
  proof (cases "runtime_accepts t")
    case False
    then obtain m where "a = Inl (AdmissionError m)" using adm(1) unfolding wt runtime_accepts_def by blast
    with admit False assms show ?thesis
      by (simp add: runtime_wf_schedule_def Let_def schedule_def upd_world_def runtime_wf_ok_def runtime_queued_def)
  next
    case True
    then have ar: "a = Inr ?r" using adm(1) unfolding wt runtime_accepts_def by blast
    have id: "t_id (h ?r) = t_id t" using adm(3) unfolding wt .
    from assms obtain f where f: "q_max_size (sc_queue s) = None" "q_policy (sc_queue s) = FIFO f"
      by (auto simp: runtime_wf_ok_def)
    then have full: "\<not> queue_full (sc_queue s)" by (simp add: queue_full_def)
    let ?s1 = "upd_world (\<lambda>w. w\<lparr>w_task := h\<rparr>) ?s"
    have "\<exists>w. sys_enqueue (en_fromiso en) ?r ?s1 = (Inr (), ?s1\<lparr>sc_queue := publish (QTaskQueued (t_id t) (now_of s))
       ((sc_queue s)\<lparr>q_storage := dset (t_id t) ?r (q_storage (sc_queue s)),
          q_policy := FIFO (fifo_add (h ?r) f), q_enqueue_count := Suc (q_enqueue_count (sc_queue s))\<rparr>),
       ps_world := w\<rparr>)"
      using full f id by (simp add: sys_enqueue_def enqueue_accepted upd_world_def) blast
    then obtain w where "sys_enqueue (en_fromiso en) ?r ?s1 = (Inr (), ?s1\<lparr>sc_queue := publish (QTaskQueued (t_id t) (now_of s))
       ((sc_queue s)\<lparr>q_storage := dset (t_id t) ?r (q_storage (sc_queue s)),
          q_policy := FIFO (fifo_add (h ?r) f), q_enqueue_count := Suc (q_enqueue_count (sc_queue s))\<rparr>),
       ps_world := w\<rparr>)" ..
    moreover have "dkeys (dset (t_id t) ?r (q_storage (sc_queue s))) = enqueue_id (t_id t) (dkeys (q_storage (sc_queue s)))"
      by (cases "t_id t \<in> set (dkeys (q_storage (sc_queue s)))")
        (simp_all only: enqueue_id_def dkeys_update_present update_fresh_append if_True if_False map_append list.map fst_conv simp_thms)
    ultimately show ?thesis using True admit ar assms f
      by (simp add: runtime_wf_schedule_def Let_def schedule_def upd_world_def runtime_wf_ok_def runtime_queued_def publish_def)
  qed
qed

lemma runtime_cancel_cases:
  assumes "runtime_wf_ok s"
  shows "runtime_wf_ok (runtime_wf_cancel i s) \<and>
    runtime_queued (runtime_wf_cancel i s) = filter (\<lambda>j. j \<noteq> i) (runtime_queued s)"
proof (cases "dget (q_storage (sc_queue s)) i")
  case None
  then have "filter (\<lambda>j. j \<noteq> i) (runtime_queued s) = runtime_queued s"
    unfolding runtime_queued_def dget_None_iff by (induction "q_storage (sc_queue s)") (auto intro!: filter_True)
  with None assms show ?thesis by (simp add: runtime_wf_cancel_def contains_def)
next
  case (Some r)
  with assms show ?thesis
    by (auto simp: runtime_wf_cancel_def contains_def cancel_def runtime_wf_ok_def runtime_queued_def publish_def
        dkeys_delete)
qed

interpretation wfr: node_scheduler "runtime_wf_scheduler en" runtime_wf_ok runtime_accepts runtime_queued
proof unfold_locales
  fix c :: "('a, 'b) runtime_sys" and t i
  assume c: "runtime_wf_ok c"
  note cases = runtime_schedule_cases [OF c, of en t]
  show "runtime_accepts t \<Longrightarrow> \<exists>c'. wfs_schedule (runtime_wf_scheduler en) t c = (Inr (), c') \<and> runtime_wf_ok c' \<and>
      runtime_queued c' = enqueue_id (t_id t) (runtime_queued c)"
    using cases by (auto simp: runtime_wf_scheduler_def)
  show "\<not> runtime_accepts t \<Longrightarrow> \<exists>e c'. wfs_schedule (runtime_wf_scheduler en) t c = (Inl e, c') \<and> runtime_wf_ok c' \<and>
      runtime_queued c' = runtime_queued c"
    using cases by (auto simp: runtime_wf_scheduler_def)
  show "runtime_wf_ok (wfs_cancel (runtime_wf_scheduler en) i c) \<and>
      runtime_queued (wfs_cancel (runtime_wf_scheduler en) i c) = filter (\<lambda>j. j \<noteq> i) (runtime_queued c)"
    using runtime_cancel_cases [OF c] by (simp add: runtime_wf_scheduler_def)
qed

end
