(* ===== verification/Orchestrator_Properties.thy ===== *)
theory Orchestrator_Properties
  imports Orchestrator_Invariants
begin

text \<open>Properties of the orchestrator, on its own and with the runtime's scheduler.\<close>

section \<open>A sample workflow\<close>

definition sample_node :: "string \<Rightarrow> graph_node" where
  "sample_node nid = \<lparr>n_id = nid, executor_type = ''python'', payload = [], n_policy = default_node_policy,
     capabilities = [], data_map = default_data_mapping, is_checkpoint = False, is_approval = False,
     n_version = ''1.0.0''\<rparr>"

text \<open>Two nodes, the second after the first.\<close>

definition two_steps :: workflow_builder where
  "two_steps = \<lparr>b_name = ''wf'', b_nodes = [(''A'', sample_node ''A''), (''B'', sample_node ''B'')],
     b_edges = [\<lparr>from_node_id = ''A'', to_node_id = ''B'', condition_expression = None, e_version = ''1.0.0''\<rparr>],
     b_workflow_policy = default_workflow_policy\<rparr>"

definition two_steps_definition :: workflow_definition where
  "two_steps_definition = \<lparr>wd_name = ''wf'', wd_graph = builder_graph two_steps, wd_version = ''1.0.0'',
     wd_policy = default_workflow_policy, wd_metadata = \<lparr>created_by = ''system'', wm_tags = [], wm_extra = []\<rparr>\<rparr>"

definition two_steps_instance :: "workflow_status \<Rightarrow> node_state \<Rightarrow> node_state \<Rightarrow> workflow_instance" where
  "two_steps_instance st a b = \<lparr>instance_id = ''I'', workflow_name = ''wf'', wi_definition = two_steps_definition,
     wi_status = st, wi_node_states = [(''A'', a), (''B'', b)], wi_node_outputs = [],
     wi_execution_plan = \<lparr>phases = [], critical_path = [], pl_version = ''1.0.0''\<rparr>, started_at = ''0'',
     completed_at = None, wi_version = ''1.0.0''\<rparr>"

definition sample_orch :: "database \<Rightarrow> (unit, unit) runtime_sys orch" where
  "sample_orch db = \<lparr>oc_db = db,
     oc_sched = runtime_init \<lparr>w_task = (\<lambda>_. undefined), w_log = None, w_now = 0, w_iso = (\<lambda>_. ''0''),
       w_uuid = (\<lambda>n. replicate n (CHR ''x'')), w_drawn = 0\<rparr> registry_init,
     oc_now = 0, oc_iso = (\<lambda>_. ''0''), oc_uuid = (\<lambda>n. CHR ''i'' # replicate n (CHR ''x'')), oc_drawn = 0\<rparr>"

definition sample_exec :: "(unit, unit) env" where
  "sample_exec = \<lparr>en_caps = (\<lambda>_. []), en_fuel = 10, en_exec = (\<lambda>x r h. (Inr (), h)),
     en_fromiso = (\<lambda>_. None), en_render = (\<lambda>_. [])\<rparr>"

lemma sample_orch_ok: "runtime_wf_ok (oc_sched (sample_orch db))" "runtime_queued (oc_sched (sample_orch db)) = []"
  "oc_db (sample_orch db) = db"
  by (simp_all add: sample_orch_def runtime_wf_ok_def runtime_queued_def runtime_init_def queue_init_def)

lemma two_steps_graph:
  "wf_graph (builder_graph two_steps)" "acyclic (set (edge_pairs (builder_graph two_steps)))"
  "g_nodes (builder_graph two_steps) = [(''A'', sample_node ''A''), (''B'', sample_node ''B'')]"
  "edge_pairs (builder_graph two_steps) = [(''A'', ''B'')]"
proof -
  show e: "edge_pairs (builder_graph two_steps) = [(''A'', ''B'')]"
    by (simp add: builder_graph_def two_steps_def edge_pairs_def)
  have "acyclic ({} :: (string \<times> string) set)" by (simp add: acyclic_def)
  then show "acyclic (set (edge_pairs (builder_graph two_steps)))" unfolding e by simp
qed (simp_all add: wf_graph_def builder_graph_def two_steps_def wf_dict_def)

lemma two_steps_json: "instance_json_ok (two_steps_instance st a b)"
  by (simp add: instance_json_ok_def two_steps_instance_def two_steps_definition_def two_steps_graph node_json_ok_def
      sample_node_def default_node_policy_def default_data_mapping_def)

lemma two_steps_fields [simp]:
  "instance_id (two_steps_instance st a b) = ''I''" "workflow_name (two_steps_instance st a b) = ''wf''"
  "wi_definition (two_steps_instance st a b) = two_steps_definition" "wi_status (two_steps_instance st a b) = st"
  "wi_node_states (two_steps_instance st a b) = [(''A'', a), (''B'', b)]"
  "wd_name two_steps_definition = ''wf''" "wd_graph two_steps_definition = builder_graph two_steps"
  by (simp_all add: two_steps_instance_def two_steps_definition_def)

lemma two_steps_wf: "wf_instance (two_steps_instance st a b)"
  by (simp add: wf_instance_def two_steps_graph)

lemma lower_python: "lower ''python'' = ''python''"
  by (simp add: lower_def lower_char_def)

lemma sample_node_type: "executor_task_type (executor_type (sample_node nid)) = Type_PYTHON"
  by (simp add: executor_task_type_def sample_node_def lower_python)

lemma stored_instance:
  "\<exists>db. checkpoint_workflow (two_steps_instance st a b) initialize_schema = (Inr (), db) \<and>
     load_instance ''I'' db = Inr (two_steps_instance st a b) \<and> db_events db = []"
proof -
  from checkpoint_ok [OF two_steps_json] obtain db where
    db: "checkpoint_workflow (two_steps_instance st a b) initialize_schema = (Inr (), db)" by blast
  with checkpoint_loads [OF db] show ?thesis by (simp add: initialize_schema_def)
qed

section \<open>Checkpoints\<close>

text \<open>
  A checkpoint is written in full or not at all. When the instance can be encoded as JSON, loading
  it returns the very instance and every other instance is loaded as before; otherwise the call raises
  and the database is unchanged, although the definition's row was written before the instance's.
\<close>

theorem checkpoint_is_loaded:
  "case checkpoint_workflow w db of
     (Inr u, db') \<Rightarrow> instance_json_ok w \<and>
       (\<forall>i. load_instance i db' = (if i = instance_id w then Inr w else load_instance i db))
   | (Inl e, db') \<Rightarrow> \<not> instance_json_ok w \<and> db' = db"
proof (cases "instance_json_ok w")
  case True
  from checkpoint_ok [OF this, of db] obtain db' where db: "checkpoint_workflow w db = (Inr (), db')" ..
  with checkpoint_loads(1) [OF db] True show ?thesis by simp
next
  case False
  then show ?thesis by (simp add: checkpoint_cases)
qed

section \<open>Nodes the default runtime accepts\<close>

definition node_admissible :: "workflow_definition \<Rightarrow> string \<Rightarrow> graph_node \<Rightarrow> bool" where
  "node_admissible d nid n \<longleftrightarrow> wf_dict (payload n) \<and> length (wd_name d) + length nid < 255 \<and>
     (executor_task_type (executor_type n) = Type_SHELL \<longrightarrow>
        (case dget (payload n) ''allow_shell'' of None \<Rightarrow> False | Some v \<Rightarrow> truthy v))"

lemma dget_spread:
  "wf_dict p \<Longrightarrow> dget (fold (\<lambda>(k, v). dset k v) p b) k = (case dget p k of None \<Rightarrow> dget b k | Some v \<Rightarrow> Some v)"
proof (induction p arbitrary: b)
  case (Cons x p)
  obtain j v where x: "x = (j, v)" by fastforce
  with Cons.prems have "wf_dict p" "dget p j = None" by (auto simp: wf_dict_def map_of_eq_None_iff)
  with Cons.IH [of "dset j v b"] x show ?case by (auto simp: dget_update split: option.split)
qed simp

lemma node_admissible_accepted:
  assumes "\<forall>(nid, n) \<in> set (g_nodes (wi_graph w)). node_admissible (wi_definition w) nid n"
    and "workflow_name w = wd_name (wi_definition w)"
  shows "nodes_accepted runtime_accepts w"
  unfolding nodes_accepted_def
proof (clarify)
  fix nid n t uid now outputs
  assume "(nid, n) \<in> set (g_nodes (wi_graph w))"
    and t: "node_task uid now (w\<lparr>wi_node_outputs := outputs\<rparr>) nid n = Inr t"
  with assms have n: "node_admissible (wi_definition w) nid n" by blast
  let ?w = "w\<lparr>wi_node_outputs := outputs\<rparr>"
  from node_task_created [of uid now ?w nid n] t have
    t': "t_title t = workflow_name w @ '':'' @ nid" "t_type t = executor_task_type (executor_type n)"
      "meta_of t = node_metadata ?w nid n"
    by (auto simp: meta_of_def)
  have "dget (meta_of t) ''allow_shell'' = dget (payload n) ''allow_shell''"
    using n dget_spread [of "payload n"] unfolding t'(3) node_metadata_def
    by (auto simp: node_admissible_def split: option.split)
  with n have "t_type t = Type_SHELL \<Longrightarrow> shell_allowed t"
    unfolding t'(2) by (auto simp: node_admissible_def shell_allowed_def split: option.splits)
  with n t'(1) assms(2) show "runtime_accepts t" by (simp add: runtime_accepts_def node_admissible_def)
qed

section \<open>Dispatch\<close>




section \<open>From start to end\<close>





section \<open>Events while an instance is paused\<close>

text \<open>
  An event that arrives while the instance is paused is lost. The call changes nothing; a later
  resumption finds the node still RUNNING, does not dispatch it again and waits for an event that has
  already happened.
\<close>

theorem paused_event_is_lost:
  assumes "load_instance i (oc_db s) = Inr w" and "instance_id w = i" and "wi_status w = WF_PAUSED"
    and "dget (wi_node_states w) nid = Some NS_RUNNING"
    and "event_for e i nid" and "resume_workflow sch i s = (Inr w', s')"
  shows "on_runtime_event sch e s = (Inr (), s) \<and> dget (wi_node_states w') nid = Some NS_RUNNING"
proof
  show "on_runtime_event sch e s = (Inr (), s)"
    using assms(1,3,5) by (simp add: on_runtime_event_def event_for_def with_instance_def)
  have keep: "dget (wi_node_states v') nid = Some NS_RUNNING"
    if "dispatch_loop sch pd ks v t = (Inr v', t')" "dget (wi_node_states v) nid = Some NS_RUNNING" for pd ks v t v' t'
    using that
  proof (induction sch pd ks v t rule: dispatch_loop.induct)
    case (2 sch pd k ks v t)
    from 2 show ?case
      by (auto simp: bindO_def submit_node_def Let_def dget_update split: if_splits option.splits sum.splits bool.splits prod.splits)
  qed simp
  from assms(1,3,4,6) show "dget (wi_node_states w') nid = Some NS_RUNNING"
    by (auto simp: resume_workflow_def with_instance_def Let_def bindO_def orch_checkpoint_def dispatch_eligible_nodes_def
        split: prod.splits sum.splits dest!: keep)
qed

theorem paused_event_is_lost_witness:
  "\<exists>s w' s'. load_instance ''I'' (oc_db s) = Inr (two_steps_instance WF_PAUSED NS_RUNNING NS_PENDING) \<and>
     on_runtime_event (runtime_wf_scheduler sample_exec)
       ((mk_event ''e'' ''0'' (TaskCompleted ''I_A''))\<lparr>ev_metadata :=
          [(''workflow_instance_id'', PStr ''I''), (''node_id'', PStr ''A'')]\<rparr>) s = (Inr (), s) \<and>
     resume_workflow (runtime_wf_scheduler sample_exec) ''I'' s = (Inr w', s') \<and>
     dget (wi_node_states w') ''A'' = Some NS_RUNNING"
proof -
  let ?w = "two_steps_instance WF_PAUSED NS_RUNNING NS_PENDING"
  let ?w1 = "two_steps_instance WF_RUNNING NS_RUNNING NS_PENDING"
  let ?e = "(mk_event ''e'' ''0'' (TaskCompleted ''I_A''))\<lparr>ev_metadata :=
          [(''workflow_instance_id'', PStr ''I''), (''node_id'', PStr ''A'')]\<rparr>"
  from stored_instance [of WF_PAUSED NS_RUNNING NS_PENDING] obtain db where db: "load_instance ''I'' db = Inr ?w" by blast
  let ?s = "sample_orch db"
  have l: "load_instance ''I'' (oc_db ?s) = Inr ?w" using db by (simp add: sample_orch_ok)
  have w1: "?w\<lparr>wi_status := WF_RUNNING\<rparr> = ?w1" by (simp add: two_steps_instance_def)
  from checkpoint_ok [OF two_steps_json, where db = "oc_db ?s"] obtain db1 where
    c: "checkpoint_workflow ?w1 (oc_db ?s) = (Inr (), db1)" by blast
  have acc: "nodes_accepted runtime_accepts ?w1"
    by (rule node_admissible_accepted) (simp_all add: two_steps_graph node_admissible_def sample_node_type,
        simp add: sample_node_def)
  have ok: "runtime_wf_ok (oc_sched (?s\<lparr>oc_db := db1\<rparr>))" using sample_orch_ok(1) [of db] by simp
  from wfr.dispatch_started [OF two_steps_wf acc _ two_steps_json ok, where en = sample_exec] obtain w' s' where
    "dispatch_eligible_nodes (runtime_wf_scheduler sample_exec) ?w1 (?s\<lparr>oc_db := db1\<rparr>) = (Inr w', s')" by auto
  then have r: "resume_workflow (runtime_wf_scheduler sample_exec) ''I'' ?s = (Inr w', s')"
    using l c w1 by (simp add: resume_workflow_def with_instance_def Let_def bindO_def orch_checkpoint_def)
  have "on_runtime_event (runtime_wf_scheduler sample_exec) ?e ?s = (Inr (), ?s) \<and>
      dget (wi_node_states w') ''A'' = Some NS_RUNNING"
    by (rule paused_event_is_lost [OF l _ _ _ _ r]) (simp_all add: event_for_def meta_given_def)
  with l r show ?thesis by blast
qed

section \<open>Recovery\<close>

lemma as_str_Inr: "as_str v = Inr x \<longleftrightarrow> v = PStr x"
  by (cases v) auto

lemma apply_event_frame:
  assumes "apply_event_to_instance e w = Inr w'"
  shows "wi_status w' = wi_status w \<and> same_workflow w w' \<and>
    (meta_given (ev_metadata e) ''node_id'' \<noteq> Some (PStr nid) \<longrightarrow>
       dget (wi_node_states w') nid = dget (wi_node_states w) nid)"
  using assms
  by (auto simp: apply_event_to_instance_def bindE_def as_str_Inr same_workflow_def dget_update
      split: option.splits sum.splits if_splits node_outcome.splits)

lemma apply_events_frame:
  assumes "apply_events_to_instance es w = Inr w'"
  shows "wi_status w' = wi_status w \<and> same_workflow w w' \<and>
    ((\<forall>e \<in> set es. meta_given (ev_metadata e) ''node_id'' \<noteq> Some (PStr nid)) \<longrightarrow>
       dget (wi_node_states w') nid = dget (wi_node_states w) nid)"
  using assms
proof (induction es arbitrary: w)
  case (Cons e es)
  then obtain w1 where w1: "apply_event_to_instance e w = Inr w1" "apply_events_to_instance es w1 = Inr w'"
    by (auto simp: bindE_def split: sum.splits)
  from Cons.IH [OF w1(2)] apply_event_frame [OF w1(1), of nid] show ?case by (auto simp: same_workflow_def)
qed (simp add: same_workflow_def)

text \<open>
  What recovery leaves undone. However many events it replays, the status of the instance is the
  stored one, also when the replay has found a node FAILED. A node stored as RUNNING for which the
  replayed events (the first hundred since the start) hold nothing stays RUNNING and its task is not
  put into the queue again, so a node whose task was lost in a crash is never executed.
\<close>

theorem recovery_leaves_running_nodes:
  assumes "load_instance i (oc_db s) = Inr w" and "instance_id w = i" and "runtime_wf_ok (oc_sched s)"
    and "recover_workflow (runtime_wf_scheduler en) i s = (Inr w', s')"
  shows "wi_status w' = wi_status w \<and>
    (\<exists>events. stream_from (oc_uuid s (oc_drawn s)) (oc_iso s (oc_now s)) (started_at w) 100 0 (oc_db s) = Inr events \<and>
      (\<forall>nid. dget (wi_node_states w) nid = Some NS_RUNNING \<and>
             (\<forall>e \<in> set events. meta_given (ev_metadata e) ''node_id'' \<noteq> Some (PStr nid)) \<longrightarrow>
         dget (wi_node_states w') nid = Some NS_RUNNING \<and>
         (node_task_id i nid \<in> set (runtime_queued (oc_sched s')) \<longrightarrow>
          node_task_id i nid \<in> set (runtime_queued (oc_sched s)))))"
proof -
  from assms(1,4) obtain events w1 where
    ev: "stream_from (oc_uuid s (oc_drawn s)) (oc_iso s (oc_now s)) (started_at w) 100 0 (oc_db s) = Inr events"
      "apply_events_to_instance events w = Inr w1"
    and d: "dispatch_eligible_nodes (runtime_wf_scheduler en) w1 s = (Inr w', s')"
    by (auto simp: recover_workflow_def with_instance_def bindE_def split: sum.splits)
  note a = apply_events_frame [OF ev(2)] and f = wfr.dispatch_frame [OF d assms(3)]
  have id: "instance_id w1 = i" using a assms(2) by (simp add: same_workflow_def)
  have inj: "node_task_id i k = node_task_id i nid \<Longrightarrow> k = nid" for k nid by (simp add: node_task_id_def)
  have "dget (wi_node_states w') nid = Some NS_RUNNING \<and>
      (node_task_id i nid \<in> set (runtime_queued (oc_sched s')) \<longrightarrow> node_task_id i nid \<in> set (runtime_queued (oc_sched s)))"
    if "dget (wi_node_states w) nid = Some NS_RUNNING"
      "\<forall>e \<in> set events. meta_given (ev_metadata e) ''node_id'' \<noteq> Some (PStr nid)" for nid
  proof -
    have "dget (wi_node_states w1) nid = Some NS_RUNNING" using a [of nid] that by simp
    moreover from this have "node_task_id i nid \<notin> node_task_id i ` {k. dget (wi_node_states w1) k = Some NS_PENDING}"
      by (auto dest: inj)
    ultimately show ?thesis using f unfolding id by auto
  qed
  with ev(1) a f show ?thesis by simp
qed

theorem recovery_leaves_running_nodes_witness:
  "\<exists>s w' s'. load_instance ''I'' (oc_db s) = Inr (two_steps_instance WF_RUNNING NS_RUNNING NS_PENDING) \<and>
     runtime_queued (oc_sched s) = [] \<and>
     recover_workflow (runtime_wf_scheduler sample_exec) ''I'' s = (Inr w', s') \<and>
     dget (wi_node_states w') ''A'' = Some NS_RUNNING \<and> ''I_A'' \<notin> set (runtime_queued (oc_sched s'))"
proof -
  let ?w = "two_steps_instance WF_RUNNING NS_RUNNING NS_PENDING"
  from stored_instance [of WF_RUNNING NS_RUNNING NS_PENDING] obtain db where
    db: "load_instance ''I'' db = Inr ?w" "db_events db = []" by blast
  let ?s = "sample_orch db"
  have l: "load_instance ''I'' (oc_db ?s) = Inr ?w" using db(1) by (simp add: sample_orch_ok)
  have acc: "nodes_accepted runtime_accepts ?w"
    by (rule node_admissible_accepted) (simp_all add: two_steps_graph node_admissible_def sample_node_type,
        simp add: sample_node_def)
  have ev: "stream_from (oc_uuid ?s (oc_drawn ?s)) (oc_iso ?s (oc_now ?s)) (started_at ?w) 100 0 (oc_db ?s) = Inr []"
    using db(2) by (simp add: stream_from_def sample_orch_ok sql_limit_def)
  from wfr.dispatch_started [OF two_steps_wf acc _ two_steps_json sample_orch_ok(1) [of db], where en = sample_exec] obtain w' s' where
    "dispatch_eligible_nodes (runtime_wf_scheduler sample_exec) ?w ?s = (Inr w', s')" by auto
  then have r: "recover_workflow (runtime_wf_scheduler sample_exec) ''I'' ?s = (Inr w', s')"
    using l ev by (simp add: recover_workflow_def with_instance_def bindE_def)
  from recovery_leaves_running_nodes [OF l _ sample_orch_ok(1) r] ev
  have "dget (wi_node_states w') ''A'' = Some NS_RUNNING \<and>
      (node_task_id ''I'' ''A'' \<in> set (runtime_queued (oc_sched s')) \<longrightarrow>
       node_task_id ''I'' ''A'' \<in> set (runtime_queued (oc_sched ?s)))" by auto
  then have "dget (wi_node_states w') ''A'' = Some NS_RUNNING" "''I_A'' \<notin> set (runtime_queued (oc_sched s'))"
    by (simp_all add: node_task_id_def sample_orch_ok)
  with l r sample_orch_ok(2) [of db] show ?thesis by blast
qed

end
