(* ===== verification/Telemetry.thy ===== *)
theory Telemetry
  imports Prelude
begin

text \<open>
  Telemetry: the data classes of \<^verbatim>\<open>observability/domain/models.py\<close> with their conversions to and from
  dictionaries, and the metrics registry of \<^verbatim>\<open>observability/metrics.py\<close>. A metric object is reached
  through its family only, so it is a value in the family's dictionary.
\<close>

section \<open>Data\<close>

datatype health_status = HEALTHY | WARNING | DEGRADED | UNHEALTHY

fun health_status_value :: "health_status \<Rightarrow> string" where
  "health_status_value HEALTHY = ''Healthy''"
| "health_status_value WARNING = ''Warning''"
| "health_status_value DEGRADED = ''Degraded''"
| "health_status_value UNHEALTHY = ''Unhealthy''"

record telemetry_metadata =
  tl_runtime_id :: string
  tl_timestamp :: string
  tl_version :: string
  tl_extra :: pydict

record telemetry_event =
  te_event_type :: string
  te_metadata :: telemetry_metadata
  te_payload :: pydict
  te_version :: string

definition telemetry_event_to_dict :: "telemetry_event \<Rightarrow> pydict" where
  "telemetry_event_to_dict e =
     [(''event_type'', PStr (te_event_type e)),
      (''metadata'', PDict [(''runtime_id'', PStr (tl_runtime_id (te_metadata e))),
        (''timestamp'', PStr (tl_timestamp (te_metadata e))), (''version'', PStr (tl_version (te_metadata e))),
        (''extra'', PDict (tl_extra (te_metadata e)))]),
      (''payload'', PDict (te_payload e)), (''version'', PStr (te_version e))]"

definition telemetry_metadata_of :: "pyval \<Rightarrow> py_error + telemetry_metadata" where
  "telemetry_metadata_of v =
     bindE (kwargs [''runtime_id'', ''timestamp'', ''version'', ''extra''] v) (\<lambda>d.
     bindE (argument as_str d ''runtime_id'') (\<lambda>rid.
     bindE (argument as_str d ''timestamp'') (\<lambda>ts.
     bindE (ditem_or as_str ''1.0.0'' d ''version'') (\<lambda>ver.
     bindE (ditem_or as_dict [] d ''extra'') (\<lambda>ex.
       Inr \<lparr>tl_runtime_id = rid, tl_timestamp = ts, tl_version = ver, tl_extra = ex\<rparr>)))))"

definition telemetry_event_from_dict :: "pydict \<Rightarrow> py_error + telemetry_event" where
  "telemetry_event_from_dict d =
     bindE (ditem telemetry_metadata_of d ''metadata'') (\<lambda>md.
     bindE (ditem as_str d ''event_type'') (\<lambda>ty.
     bindE (ditem as_dict d ''payload'') (\<lambda>pl.
     bindE (ditem_or as_str ''1.0.0'' d ''version'') (\<lambda>ver.
       Inr \<lparr>te_event_type = ty, te_metadata = md, te_payload = pl, te_version = ver\<rparr>))))"

record metric_point =
  mp_value :: rat
  mp_timestamp :: string
  mp_labels :: "(string \<times> string) list"

record metric_data =
  md_name :: string
  md_points :: "metric_point list"
  md_version :: string

datatype metric =
    CounterMetric metric_data
  | GaugeMetric metric_data
  | HistogramMetric metric_data "rat list"
  | TimerMetric metric_data

fun metric_data_of :: "metric \<Rightarrow> metric_data" where
  "metric_data_of (CounterMetric d) = d"
| "metric_data_of (GaugeMetric d) = d"
| "metric_data_of (HistogramMetric d bs) = d"
| "metric_data_of (TimerMetric d) = d"

fun with_points :: "(metric_point list \<Rightarrow> metric_point list) \<Rightarrow> metric \<Rightarrow> metric" where
  "with_points f (CounterMetric d) = CounterMetric (d\<lparr>md_points := f (md_points d)\<rparr>)"
| "with_points f (GaugeMetric d) = GaugeMetric (d\<lparr>md_points := f (md_points d)\<rparr>)"
| "with_points f (HistogramMetric d bs) = HistogramMetric (d\<lparr>md_points := f (md_points d)\<rparr>) bs"
| "with_points f (TimerMetric d) = TimerMetric (d\<lparr>md_points := f (md_points d)\<rparr>)"

definition new_metric_data :: "string \<Rightarrow> metric_data" where
  "new_metric_data name = \<lparr>md_name = name, md_points = [], md_version = ''1.0.0''\<rparr>"

record metric_family =
  mf_name :: string
  mf_help_text :: string
  mf_metric_type :: string
  mf_metrics :: "(string \<times> metric) list"
  mf_version :: string

definition point_to_dict :: "metric_point \<Rightarrow> pyval" where
  "point_to_dict p =
     PDict [(''value'', PFloat (mp_value p)), (''timestamp'', PStr (mp_timestamp p)),
            (''labels'', PDict (dmap PStr (mp_labels p)))]"

definition metric_to_dict :: "metric \<Rightarrow> pyval" where
  "metric_to_dict m =
     PDict ([(''name'', PStr (md_name (metric_data_of m))),
             (''points'', PList (map point_to_dict (md_points (metric_data_of m))))] @
            (case m of HistogramMetric d bs \<Rightarrow> [(''buckets'', PList (map PFloat bs))] | _ \<Rightarrow> []) @
            [(''version'', PStr (md_version (metric_data_of m)))])"

definition family_to_dict :: "metric_family \<Rightarrow> pydict" where
  "family_to_dict f =
     [(''name'', PStr (mf_name f)), (''help_text'', PStr (mf_help_text f)), (''metric_type'', PStr (mf_metric_type f)),
      (''metrics'', PDict (dmap metric_to_dict (mf_metrics f))), (''version'', PStr (mf_version f))]"

record span =
  sp_span_id :: string
  sp_trace_id :: string
  sp_name :: string
  sp_start_time :: string
  sp_end_time :: "string option"
  sp_parent_span_id :: "string option"
  sp_metadata :: pydict
  sp_version :: string

definition span_to_dict :: "span \<Rightarrow> pydict" where
  "span_to_dict s =
     [(''span_id'', PStr (sp_span_id s)), (''trace_id'', PStr (sp_trace_id s)), (''name'', PStr (sp_name s)),
      (''start_time'', PStr (sp_start_time s)), (''end_time'', popt PStr (sp_end_time s)),
      (''parent_span_id'', popt PStr (sp_parent_span_id s)), (''metadata'', PDict (sp_metadata s)),
      (''version'', PStr (sp_version s))]"

definition span_from_dict :: "pydict \<Rightarrow> py_error + span" where
  "span_from_dict d =
     bindE (ditem as_str d ''span_id'') (\<lambda>sid.
     bindE (ditem as_str d ''trace_id'') (\<lambda>tid.
     bindE (ditem as_str d ''name'') (\<lambda>nm.
     bindE (ditem as_str d ''start_time'') (\<lambda>st.
     bindE (ditem_or as_opt_str None d ''end_time'') (\<lambda>et.
     bindE (ditem_or as_opt_str None d ''parent_span_id'') (\<lambda>ps.
     bindE (ditem_or as_dict [] d ''metadata'') (\<lambda>md.
     bindE (ditem_or as_str ''1.0.0'' d ''version'') (\<lambda>ver.
       Inr \<lparr>sp_span_id = sid, sp_trace_id = tid, sp_name = nm, sp_start_time = st, sp_end_time = et,
            sp_parent_span_id = ps, sp_metadata = md, sp_version = ver\<rparr>))))))))"

record trace =
  tc_trace_id :: string
  tc_spans :: "span list"
  tc_version :: string

definition trace_to_dict :: "trace \<Rightarrow> pydict" where
  "trace_to_dict t =
     [(''trace_id'', PStr (tc_trace_id t)), (''spans'', PList (map (\<lambda>s. PDict (span_to_dict s)) (tc_spans t))),
      (''version'', PStr (tc_version t))]"

definition trace_from_dict :: "pydict \<Rightarrow> py_error + trace" where
  "trace_from_dict d =
     bindE (ditem_or as_list [] d ''spans'') (\<lambda>ss.
     bindE (mapE (\<lambda>s. bindE (as_dict s) span_from_dict) ss) (\<lambda>spans.
     bindE (ditem as_str d ''trace_id'') (\<lambda>tid.
     bindE (ditem_or as_str ''1.0.0'' d ''version'') (\<lambda>ver.
       Inr \<lparr>tc_trace_id = tid, tc_spans = spans, tc_version = ver\<rparr>))))"

record alert_rule =
  ar_name :: string
  ar_metric_name :: string
  ar_threshold :: rat
  ar_comparison :: string
  ar_duration_seconds :: rat

record alert =
  al_rule_name :: string
  al_message :: string
  al_severity :: string
  al_timestamp :: string
  al_metadata :: pydict
  al_version :: string

definition alert_to_dict :: "alert \<Rightarrow> pydict" where
  "alert_to_dict a =
     [(''rule_name'', PStr (al_rule_name a)), (''message'', PStr (al_message a)), (''severity'', PStr (al_severity a)),
      (''timestamp'', PStr (al_timestamp a)), (''metadata'', PDict (al_metadata a)), (''version'', PStr (al_version a))]"

definition alert_from_dict :: "pydict \<Rightarrow> py_error + alert" where
  "alert_from_dict d =
     bindE (ditem as_str d ''rule_name'') (\<lambda>rn.
     bindE (ditem as_str d ''message'') (\<lambda>msg.
     bindE (ditem as_str d ''severity'') (\<lambda>sev.
     bindE (ditem as_str d ''timestamp'') (\<lambda>ts.
     bindE (ditem_or as_dict [] d ''metadata'') (\<lambda>md.
     bindE (ditem_or as_str ''1.0.0'' d ''version'') (\<lambda>ver.
       Inr \<lparr>al_rule_name = rn, al_message = msg, al_severity = sev, al_timestamp = ts, al_metadata = md,
            al_version = ver\<rparr>))))))"

lemma telemetry_event_roundtrip: "telemetry_event_from_dict (telemetry_event_to_dict e) = Inr e"
  by (simp add: telemetry_event_from_dict_def telemetry_event_to_dict_def telemetry_metadata_of_def kwargs_def field_defs)

lemma span_roundtrip: "span_from_dict (span_to_dict s) = Inr s"
  by (simp add: span_from_dict_def span_to_dict_def field_defs)

lemma trace_roundtrip: "trace_from_dict (trace_to_dict t) = Inr t"
proof -
  have "mapE (\<lambda>s. bindE (as_dict s) span_from_dict) (map (\<lambda>s. PDict (span_to_dict s)) (tc_spans t)) = Inr (tc_spans t)"
    by (rule mapE_map) (simp add: span_roundtrip)
  then show ?thesis by (simp add: trace_from_dict_def trace_to_dict_def field_defs)
qed

lemma alert_roundtrip: "alert_from_dict (alert_to_dict a) = Inr a"
  by (simp add: alert_from_dict_def alert_to_dict_def field_defs)

section \<open>The metrics registry\<close>

type_synonym labels = "(string \<times> string) list option"

record metrics_registry =
  mr_families :: "(string \<times> metric_family) list"

definition metrics_init :: metrics_registry where
  "metrics_init = \<lparr>mr_families = []\<rparr>"

definition label_pairs :: "labels \<Rightarrow> (string \<times> string) list" where
  "label_pairs ls = (case ls of None \<Rightarrow> [] | Some l \<Rightarrow> l)"

fun join_with :: "char \<Rightarrow> string list \<Rightarrow> string" where
  "join_with c [] = []"
| "join_with c [w] = w"
| "join_with c (w # ws) = w @ c # join_with c ws"

definition label_text :: "string \<times> string \<Rightarrow> string" where
  "label_text kv = fst kv @ CHR ''='' # snd kv"

definition serialize_labels :: "labels \<Rightarrow> string" where
  "serialize_labels ls =
     (if label_pairs ls = [] then ''default''
      else join_with (CHR '','') (map label_text (sort (label_pairs ls))))"

definition get_or_create_family ::
  "string \<Rightarrow> string \<Rightarrow> string \<Rightarrow> metrics_registry \<Rightarrow> metric_family \<times> metrics_registry" where
  "get_or_create_family name metric_type help_text g =
     (case dget (mr_families g) name of
        Some f \<Rightarrow> (f, g)
      | None \<Rightarrow>
          (let f = \<lparr>mf_name = name, mf_help_text = help_text, mf_metric_type = metric_type, mf_metrics = [],
                    mf_version = ''1.0.0''\<rparr>
           in (f, g\<lparr>mr_families := dset name f (mr_families g)\<rparr>)))"

text \<open>The common part: the metric of the key, a new one if there is none, gets its points changed.\<close>

definition update_metric ::
  "string \<Rightarrow> string \<Rightarrow> string \<Rightarrow> metric \<Rightarrow> (metric_point list \<Rightarrow> metric_point list) \<Rightarrow> labels \<Rightarrow>
   metrics_registry \<Rightarrow> metrics_registry" where
  "update_metric name metric_type help_text fresh change ls g =
     (case get_or_create_family name metric_type help_text g of
        (f, g1) \<Rightarrow>
          (let key = serialize_labels ls;
               m = (case dget (mf_metrics f) key of None \<Rightarrow> fresh | Some m \<Rightarrow> m)
           in g1\<lparr>mr_families := dset name (f\<lparr>mf_metrics := dset key (with_points change m) (mf_metrics f)\<rparr>)
                                 (mr_families g1)\<rparr>))"

definition new_point :: "rat \<Rightarrow> string \<Rightarrow> labels \<Rightarrow> metric_point" where
  "new_point value now ls = \<lparr>mp_value = value, mp_timestamp = now, mp_labels = label_pairs ls\<rparr>"

definition increment :: "string \<Rightarrow> rat \<Rightarrow> labels \<Rightarrow> string \<Rightarrow> metrics_registry \<Rightarrow> metrics_registry" where
  "increment name value ls now =
     update_metric name ''counter'' ''Count of occurrences'' (CounterMetric (new_metric_data name))
       (\<lambda>pts. pts @ [new_point value now ls]) ls"

definition set_gauge :: "string \<Rightarrow> rat \<Rightarrow> labels \<Rightarrow> string \<Rightarrow> metrics_registry \<Rightarrow> metrics_registry" where
  "set_gauge name value ls now =
     update_metric name ''gauge'' ''Level measurements'' (GaugeMetric (new_metric_data name))
       (\<lambda>pts. [new_point value now ls]) ls"

definition default_buckets :: "rat list" where
  "default_buckets = [5 / 1000, 1 / 100, 5 / 100, 1 / 10, 1 / 2, 1, 5, 10, 60]"

definition observe_histogram :: "string \<Rightarrow> rat \<Rightarrow> labels \<Rightarrow> string \<Rightarrow> metrics_registry \<Rightarrow> metrics_registry" where
  "observe_histogram name value ls now =
     update_metric name ''histogram'' ''Value distribution analyses''
       (HistogramMetric (new_metric_data name) default_buckets)
       (\<lambda>pts. pts @ [new_point value now ls]) ls"

definition get_family :: "string \<Rightarrow> metrics_registry \<Rightarrow> metric_family option" where
  "get_family name g = dget (mr_families g) name"

definition list_families :: "metrics_registry \<Rightarrow> metric_family list" where
  "list_families g = dvalues (mr_families g)"

text \<open>Timers measure a block and observe its duration when it is left, by an exception too.\<close>

record timer_context =
  ti_name :: string
  ti_labels :: labels
  ti_start_time :: "rat option"

definition start_timer :: "string \<Rightarrow> labels \<Rightarrow> timer_context" where
  "start_timer name ls = \<lparr>ti_name = name, ti_labels = ls, ti_start_time = None\<rparr>"

definition timer_enter :: "rat \<Rightarrow> timer_context \<Rightarrow> timer_context" where
  "timer_enter clock t = t\<lparr>ti_start_time := Some clock\<rparr>"

definition timer_exit :: "rat \<Rightarrow> string \<Rightarrow> timer_context \<Rightarrow> metrics_registry \<Rightarrow> metrics_registry" where
  "timer_exit clock now t g =
     (case ti_start_time t of
        None \<Rightarrow> g
      | Some s \<Rightarrow> observe_histogram (ti_name t) (clock - s) (ti_labels t) now g)"

section \<open>Keys of label sets\<close>

fun split_at :: "char \<Rightarrow> string \<Rightarrow> string list" where
  "split_at c [] = [[]]"
| "split_at c (x # xs) =
     (if x = c then [] # split_at c xs
      else case split_at c xs of [] \<Rightarrow> [[x]] | w # ws \<Rightarrow> (x # w) # ws)"

lemma split_at_word: "c \<notin> set w \<Longrightarrow> split_at c w = [w]"
  by (induction w) auto

lemma split_at_append: "c \<notin> set w \<Longrightarrow> split_at c (w @ c # s) = w # split_at c s"
  by (induction w) auto

lemma split_join: "ws \<noteq> [] \<Longrightarrow> \<forall>w \<in> set ws. c \<notin> set w \<Longrightarrow> split_at c (join_with c ws) = ws"
  by (induction c ws rule: join_with.induct) (auto simp: split_at_word split_at_append)

definition plain_labels :: "labels \<Rightarrow> bool" where
  "plain_labels ls \<longleftrightarrow> wf_dict (label_pairs ls) \<and>
     (\<forall>(k, v) \<in> set (label_pairs ls). CHR '','' \<notin> set k \<and> CHR ''='' \<notin> set k \<and> CHR '','' \<notin> set v)"

definition label_of :: "string \<Rightarrow> string \<times> string" where
  "label_of s = (takeWhile (\<lambda>c. c \<noteq> CHR ''='') s, tl (dropWhile (\<lambda>c. c \<noteq> CHR ''='') s))"

lemma label_of_text: "CHR ''='' \<notin> set (fst kv) \<Longrightarrow> label_of (label_text kv) = kv"
proof -
  assume "CHR ''='' \<notin> set (fst kv)"
  then have "\<forall>x \<in> set (fst kv). x \<noteq> CHR ''=''" by auto
  then show ?thesis by (simp add: label_of_def label_text_def takeWhile_append2 dropWhile_append2)
qed

lemma serialize_decode:
  assumes "plain_labels ls" and "label_pairs ls \<noteq> []"
  shows "map label_of (split_at (CHR '','') (serialize_labels ls)) = sort (label_pairs ls)"
proof -
  have "\<forall>w \<in> set (map label_text (sort (label_pairs ls))). CHR '','' \<notin> set w"
    using assms(1) by (auto simp: plain_labels_def label_text_def)
  moreover have "map label_text (sort (label_pairs ls)) \<noteq> []"
    using assms(2) by (metis Nil_is_map_conv set_empty set_sort)
  ultimately have "split_at (CHR '','') (serialize_labels ls) = map label_text (sort (label_pairs ls))"
    using split_join assms(2) by (simp add: serialize_labels_def)
  moreover have "map label_of (map label_text (sort (label_pairs ls))) = sort (label_pairs ls)"
    unfolding map_map using assms(1) by (intro map_idI) (auto simp: plain_labels_def label_of_text)
  ultimately show ?thesis by simp
qed

lemma default_not_serialized:
  assumes "plain_labels ls" and "label_pairs ls \<noteq> []"
  shows "serialize_labels ls \<noteq> ''default''"
proof
  assume "serialize_labels ls = ''default''"
  with serialize_decode [OF assms] have "sort (label_pairs ls) = [(''default'', [])]"
    by (simp add: label_of_def)
  with assms(2) have "serialize_labels ls = label_text (''default'', [])"
    by (simp add: serialize_labels_def)
  with \<open>serialize_labels ls = ''default''\<close> show False by (simp add: label_text_def)
qed

lemma same_key_iff:
  assumes "plain_labels ls" and "plain_labels ls'"
  shows "serialize_labels ls = serialize_labels ls' \<longleftrightarrow> set (label_pairs ls) = set (label_pairs ls')"
proof (cases "label_pairs ls = [] \<or> label_pairs ls' = []")
  case True
  then show ?thesis
    using default_not_serialized [OF assms(1)] default_not_serialized [OF assms(2)]
    by (auto simp: serialize_labels_def split: if_splits)
next
  case False
  have "distinct (label_pairs ls)" and "distinct (label_pairs ls')"
    using assms by (simp_all add: plain_labels_def wf_dict_def distinct_map)
  then have "sort (label_pairs ls) = sort (label_pairs ls') \<longleftrightarrow> set (label_pairs ls) = set (label_pairs ls')"
    by (metis set_sort sorted_distinct_set_unique distinct_sort sorted_sort)
  moreover have "serialize_labels ls = serialize_labels ls' \<longleftrightarrow> sort (label_pairs ls) = sort (label_pairs ls')"
  proof
    assume "serialize_labels ls = serialize_labels ls'"
    then have "map label_of (split_at (CHR '','') (serialize_labels ls)) =
        map label_of (split_at (CHR '','') (serialize_labels ls'))" by (rule arg_cong)
    with serialize_decode [OF assms(1)] serialize_decode [OF assms(2)] False
    show "sort (label_pairs ls) = sort (label_pairs ls')" by simp
  next
    assume "sort (label_pairs ls) = sort (label_pairs ls')"
    with False show "serialize_labels ls = serialize_labels ls'" by (simp add: serialize_labels_def)
  qed
  ultimately show ?thesis by simp
qed

section \<open>Series\<close>

text \<open>A registry is a map from family names and keys to lists of points.\<close>

definition series :: "metrics_registry \<Rightarrow> string \<Rightarrow> string \<Rightarrow> metric_point list" where
  "series g name key =
     (case dget (mr_families g) name of
        None \<Rightarrow> []
      | Some f \<Rightarrow> (case dget (mf_metrics f) key of None \<Rightarrow> [] | Some m \<Rightarrow> md_points (metric_data_of m)))"

lemma with_points_data: "md_points (metric_data_of (with_points f m)) = f (md_points (metric_data_of m))"
  by (cases m) auto

lemma series_update_metric:
  assumes "md_points (metric_data_of fresh) = []"
  shows "series (update_metric name ty help fresh change ls g) n k =
    (if n = name \<and> k = serialize_labels ls then change (series g n k) else series g n k)"
  using assms
  by (auto simp: series_def update_metric_def get_or_create_family_def Let_def dget_update with_points_data
      split: option.split)

text \<open>Calls of the registry: name, value, labels and time.\<close>

datatype metric_call =
    Increment string rat labels string
  | Set_gauge string rat labels string
  | Observe string rat labels string

fun metric_step :: "metric_call \<Rightarrow> metrics_registry \<Rightarrow> metrics_registry" where
  "metric_step (Increment n v ls now) = increment n v ls now"
| "metric_step (Set_gauge n v ls now) = set_gauge n v ls now"
| "metric_step (Observe n v ls now) = observe_histogram n v ls now"

fun call_name :: "metric_call \<Rightarrow> string" where
  "call_name (Increment n v ls now) = n"
| "call_name (Set_gauge n v ls now) = n"
| "call_name (Observe n v ls now) = n"

fun call_labels :: "metric_call \<Rightarrow> labels" where
  "call_labels (Increment n v ls now) = ls"
| "call_labels (Set_gauge n v ls now) = ls"
| "call_labels (Observe n v ls now) = ls"

fun call_type :: "metric_call \<Rightarrow> string" where
  "call_type (Increment n v ls now) = ''counter''"
| "call_type (Set_gauge n v ls now) = ''gauge''"
| "call_type (Observe n v ls now) = ''histogram''"

text \<open>What a call does to its series: a gauge forgets the earlier points.\<close>

fun series_step :: "metric_call \<Rightarrow> metric_point list \<Rightarrow> metric_point list" where
  "series_step (Increment n v ls now) pts = pts @ [new_point v now ls]"
| "series_step (Set_gauge n v ls now) pts = [new_point v now ls]"
| "series_step (Observe n v ls now) pts = pts @ [new_point v now ls]"

lemma series_metric_step:
  "series (metric_step c g) n k =
     (if n = call_name c \<and> k = serialize_labels (call_labels c) then series_step c (series g n k) else series g n k)"
  by (cases c) (simp_all add: increment_def set_gauge_def observe_histogram_def series_update_metric new_metric_data_def)

lemma series_calls:
  "series (fold metric_step cs g) n k =
     fold series_step (filter (\<lambda>c. n = call_name c \<and> k = serialize_labels (call_labels c)) cs) (series g n k)"
  by (induction cs arbitrary: g) (simp_all add: series_metric_step)

section \<open>Types of families\<close>

fun metric_class :: "metric \<Rightarrow> string" where
  "metric_class (CounterMetric d) = ''counter''"
| "metric_class (GaugeMetric d) = ''gauge''"
| "metric_class (HistogramMetric d bs) = ''histogram''"
| "metric_class (TimerMetric d) = ''timer''"

definition typed_by :: "(string \<Rightarrow> string) \<Rightarrow> metrics_registry \<Rightarrow> bool" where
  "typed_by ty g \<longleftrightarrow>
     (\<forall>n f. dget (mr_families g) n = Some f \<longrightarrow>
        mf_metric_type f = ty n \<and> (\<forall>k m. dget (mf_metrics f) k = Some m \<longrightarrow> metric_class m = ty n))"

lemma with_points_class [simp]: "metric_class (with_points f m) = metric_class m"
  by (cases m) auto

lemma typed_update_metric:
  assumes "typed_by ty g" and "ty name = mty" and "metric_class fresh = mty"
  shows "typed_by ty (update_metric name mty help fresh change ls g)"
  using assms
  by (auto simp: typed_by_def update_metric_def get_or_create_family_def Let_def dget_update split: option.splits)

lemma typed_metric_step:
  assumes "typed_by ty g" and "call_type c = ty (call_name c)"
  shows "typed_by ty (metric_step c g)"
  using assms
  by (cases c) (auto simp: increment_def set_gauge_def observe_histogram_def intro!: typed_update_metric)

lemma typed_calls:
  "typed_by ty g \<Longrightarrow> \<forall>c \<in> set cs. call_type c = ty (call_name c) \<Longrightarrow> typed_by ty (fold metric_step cs g)"
  by (induction cs arbitrary: g) (auto simp: typed_metric_step)

end
