(* ===== verification/Monitoring.thy ===== *)
theory Monitoring
  imports Telemetry SQLite_Store
begin

text \<open>
  Monitoring: \<^verbatim>\<open>health.py\<close>, \<open>alerts.py\<close>, \<open>timeline.py\<close>, \<open>replay.py\<close> and \<open>diagnostics.py\<close> of
  \<^verbatim>\<open>runtime/observability\<close>. The outcomes of the probes of the database and the file system, the parsing of
  ISO times and the rendering of numbers and of metadata values in messages are parameters.
\<close>

section \<open>Health\<close>

record health_monitor =
  hm_threshold :: rat
  hm_scheduler_running :: bool
  hm_workers :: "(string \<times> string) list"
  hm_workflow_failures :: int
  hm_scheduler_last_started :: string

definition health_init :: "rat \<Rightarrow> health_monitor" where
  "health_init threshold = \<lparr>hm_threshold = threshold, hm_scheduler_running = False, hm_workers = [],
     hm_workflow_failures = 0, hm_scheduler_last_started = []\<rparr>"

definition event_worker :: "runtime_event \<Rightarrow> py_error + string" where
  "event_worker e = ditem_or as_str ''default'' (ev_metadata e) ''worker_id''"

definition health_on_event :: "runtime_event \<Rightarrow> health_monitor \<Rightarrow> py_error + health_monitor" where
  "health_on_event e h =
     (let evt_type = event_class (ev_kind e) in
      if evt_type = ''SchedulerStarted''
      then Inr (h\<lparr>hm_scheduler_running := True, hm_scheduler_last_started := ev_timestamp e\<rparr>)
      else if evt_type = ''SchedulerStopped'' then Inr (h\<lparr>hm_scheduler_running := False\<rparr>)
      else if evt_type = ''WorkerStarted''
      then bindE (event_worker e) (\<lambda>w. Inr (h\<lparr>hm_workers := dset w (ev_timestamp e) (hm_workers h)\<rparr>))
      else if evt_type = ''WorkerStopped''
      then bindE (event_worker e) (\<lambda>w. Inr (h\<lparr>hm_workers := dpop w (hm_workers h)\<rparr>))
      else if evt_type = ''WorkerHeartbeat''
      then bindE (event_worker e) (\<lambda>w. Inr (h\<lparr>hm_workers := dset w (ev_timestamp e) (hm_workers h)\<rparr>))
      else if evt_type = ''WorkflowFailed'' then Inr (h\<lparr>hm_workflow_failures := hm_workflow_failures h + 1\<rparr>)
      else Inr h)"

text \<open>The probes: no connection, or the error of the query if it fails; the error of the test file.\<close>

record health_probes =
  pb_now :: rat
  pb_fromiso :: "string \<Rightarrow> rat option"
  pb_seconds :: "rat \<Rightarrow> string"
  pb_connection :: "string option option"
  pb_filesystem :: "string option"

record health_report =
  hp_status :: string
  hp_reasons :: "string list"
  hp_active_workers_count :: int
  hp_workflow_failures :: int

definition late_worker :: "health_probes \<Rightarrow> rat \<Rightarrow> string \<times> string \<Rightarrow> rat option" where
  "late_worker pb threshold wt =
     (case pb_fromiso pb (snd wt) of
        None \<Rightarrow> None
      | Some ts \<Rightarrow> if pb_now pb - ts > threshold then Some (pb_now pb - ts) else None)"

definition late_reason :: "health_probes \<Rightarrow> string \<Rightarrow> rat \<Rightarrow> string" where
  "late_reason pb w diff =
     ''Worker '' @ squoted w @ '' missed heartbeats (last seen '' @ pb_seconds pb diff @ ''s ago).''"

definition check_workers ::
  "health_probes \<Rightarrow> rat \<Rightarrow> (string \<times> string) list \<Rightarrow> health_status \<times> string list \<Rightarrow> health_status \<times> string list" where
  "check_workers pb threshold =
     fold (\<lambda>wt (status, reasons). case late_worker pb threshold wt of
             None \<Rightarrow> (status, reasons)
           | Some diff \<Rightarrow> (DEGRADED, reasons @ [late_reason pb (fst wt) diff]))"

definition check_health :: "health_probes \<Rightarrow> health_monitor \<Rightarrow> health_report" where
  "check_health pb h =
     (let s1 = (if hm_scheduler_running h then (HEALTHY, []) else (DEGRADED, [''Scheduler process is stopped.'']));
          s2 = check_workers pb (hm_threshold h) (hm_workers h) s1;
          s3 = (case pb_connection pb of
                  Some (Some e) \<Rightarrow> (UNHEALTHY, snd s2 @ [''SQLite Connection Failure: '' @ e])
                | _ \<Rightarrow> s2);
          s4 = (case pb_filesystem pb of
                  Some e \<Rightarrow> (UNHEALTHY, snd s3 @ [''Filesystem write check failed: '' @ e])
                | None \<Rightarrow> s3)
      in \<lparr>hp_status = health_status_value (fst s4), hp_reasons = snd s4,
          hp_active_workers_count = int (length (hm_workers h)), hp_workflow_failures = hm_workflow_failures h\<rparr>)"

section \<open>Alerts\<close>

record alert_engine =
  ae_rules :: "alert_rule list"
  ae_alerts :: "alert list"

definition alert_engine_init :: "alert_rule list \<Rightarrow> alert_engine" where
  "alert_engine_init rules = \<lparr>ae_rules = rules, ae_alerts = []\<rparr>"

fun starts_with :: "string \<Rightarrow> string \<Rightarrow> bool" where
  "starts_with [] s = True"
| "starts_with (c # cs) [] = False"
| "starts_with (c # cs) (d # ds) = (c = d \<and> starts_with cs ds)"

fun contains_str :: "string \<Rightarrow> string \<Rightarrow> bool" where
  "contains_str p [] = (p = [])"
| "contains_str p (c # cs) = (starts_with p (c # cs) \<or> contains_str p cs)"

definition mk_alert :: "string \<Rightarrow> string \<Rightarrow> string \<Rightarrow> string \<Rightarrow> alert" where
  "mk_alert rule msg severity now =
     \<lparr>al_rule_name = rule, al_message = msg, al_severity = severity, al_timestamp = now, al_metadata = [],
      al_version = ''1.0.0''\<rparr>"

text \<open>The threshold of the first rule on the queue size replaces the limit of five.\<close>

definition queue_limit :: "alert_rule list \<Rightarrow> rat" where
  "queue_limit rules =
     (case List.find (\<lambda>r. ar_metric_name r = ''queue_size'') rules of None \<Rightarrow> 5 | Some r \<Rightarrow> ar_threshold r)"

definition triggered_alerts ::
  "(rat \<Rightarrow> string) \<Rightarrow> string \<Rightarrow> alert_rule list \<Rightarrow> health_report \<Rightarrow> int \<Rightarrow> alert list" where
  "triggered_alerts num_str now rules health depth =
     map (\<lambda>reason. mk_alert ''WorkerHeartbeatMissing'' reason ''critical'' now)
       (filter (\<lambda>reason. contains_str ''missed heartbeats'' reason \<or> contains_str ''stopped'' reason) (hp_reasons health)) @
     (if of_int depth > queue_limit rules
      then [mk_alert ''QueueDepthThresholdExceeded''
              (''Queue size is '' @ int_str depth @ '', exceeding threshold limit of '' @
               num_str (queue_limit rules) @ ''.'') ''warning'' now]
      else []) @
     (if hp_workflow_failures health > 2
      then [mk_alert ''WorkflowFailuresSpike''
              (''Workflow failure count is '' @ int_str (hp_workflow_failures health) @ '', indicating spike anomalies.'')
              ''critical'' now]
      else [])"

definition evaluate ::
  "(rat \<Rightarrow> string) \<Rightarrow> string \<Rightarrow> health_report \<Rightarrow> int \<Rightarrow> alert_engine \<Rightarrow> alert list \<times> alert_engine" where
  "evaluate num_str now health depth e =
     (let triggered = triggered_alerts num_str now (ae_rules e) health depth
      in (triggered, e\<lparr>ae_alerts := ae_alerts e @ triggered\<rparr>))"

definition get_alerts :: "alert_engine \<Rightarrow> alert list" where
  "get_alerts e = ae_alerts e"

section \<open>Timelines\<close>

record timeline_entry =
  tm_timestamp :: string
  tm_event_type :: string
  tm_message :: string
  tm_metadata :: pydict

definition meta_text :: "(pyval \<Rightarrow> string) \<Rightarrow> pydict \<Rightarrow> string \<Rightarrow> string \<Rightarrow> string" where
  "meta_text py_str md k dflt = (case dget md k of None \<Rightarrow> dflt | Some v \<Rightarrow> py_str v)"

definition event_message :: "(pyval \<Rightarrow> string) \<Rightarrow> runtime_event \<Rightarrow> string" where
  "event_message py_str e =
     (case ev_kind e of
        TaskSubmitted i t y \<Rightarrow> ''Task '' @ squoted i @ '' submitted to Scheduler queue.''
      | TaskStarted i \<Rightarrow>
          ''Task '' @ squoted i @ '' started execution on worker '' @
          squoted (meta_text py_str (ev_metadata e) ''worker_id'' ''unknown'') @ ''.''
      | TaskCompleted i \<Rightarrow> ''Task '' @ squoted i @ '' completed successfully.''
      | TaskFailed i m \<Rightarrow>
          ''Task '' @ squoted i @ '' failed: '' @ meta_text py_str (ev_metadata e) ''error'' ''unknown error'' @ ''.''
      | TaskCancelled i \<Rightarrow> ''Task '' @ squoted i @ '' was cancelled.''
      | TaskTimedOut i \<Rightarrow> ''Task '' @ squoted i @ '' execution timed out.''
      | k \<Rightarrow> ''Event '' @ squoted (event_class k) @ '' occurred.'')"

definition timeline_entry_of :: "(pyval \<Rightarrow> string) \<Rightarrow> runtime_event \<Rightarrow> timeline_entry" where
  "timeline_entry_of py_str e =
     \<lparr>tm_timestamp = ev_timestamp e, tm_event_type = event_class (ev_kind e), tm_message = event_message py_str e,
      tm_metadata = fold (\<lambda>(k, v). dset k v) (ev_metadata e)
        [(''correlation_id'', popt PStr (ev_correlation_id e)), (''causation_id'', popt PStr (ev_causation_id e))]\<rparr>"

definition reconstruct :: "(pyval \<Rightarrow> string) \<Rightarrow> runtime_event list \<Rightarrow> timeline_entry list" where
  "reconstruct py_str events = sort_key tm_timestamp (map (timeline_entry_of py_str) events)"

section \<open>Replay of a workflow\<close>

record replay_transition =
  rt_timestamp :: string
  rt_node_id :: string
  rt_event_type :: string
  rt_transition :: string

record workflow_replay =
  wr_instance_id :: string
  wr_workflow_name :: pyval
  wr_snapshot_status :: pyval
  wr_node_states :: "(string \<times> string) list"
  wr_transitions :: "replay_transition list"

definition next_state :: "event_kind \<Rightarrow> string \<Rightarrow> string" where
  "next_state k old =
     (case k of TaskStarted i \<Rightarrow> ''Running'' | TaskCompleted i \<Rightarrow> ''Succeeded'' | TaskFailed i m \<Rightarrow> ''Failed'' | _ \<Rightarrow> old)"

definition state_of :: "string \<Rightarrow> (string \<times> string) list \<Rightarrow> string" where
  "state_of n states = (case dget states n of None \<Rightarrow> ''Pending'' | Some s \<Rightarrow> s)"

definition replay_event ::
  "runtime_event \<Rightarrow> (string \<times> string) list \<times> replay_transition list \<Rightarrow> (string \<times> string) list \<times> replay_transition list" where
  "replay_event e = (\<lambda>(states, steps).
     (case dget (ev_metadata e) ''node_id'' of
        Some (PStr n) \<Rightarrow>
          if n = [] then (states, steps)
          else (let old = state_of n states; new = next_state (ev_kind e) old
                in (dset n new states,
                    steps @ [\<lparr>rt_timestamp = ev_timestamp e, rt_node_id = n, rt_event_type = event_class (ev_kind e),
                              rt_transition = old @ '' -> '' @ new\<rparr>]))
      | _ \<Rightarrow> (states, steps)))"

definition of_instance :: "string \<Rightarrow> runtime_event \<Rightarrow> bool" where
  "of_instance i e \<longleftrightarrow> dget (ev_metadata e) ''workflow_instance_id'' = Some (PStr i)"

definition or_none :: "pydict \<Rightarrow> string \<Rightarrow> pyval" where
  "or_none d k = (case dget d k of None \<Rightarrow> PNone | Some v \<Rightarrow> v)"

definition replay_workflow :: "string \<Rightarrow> string \<Rightarrow> string \<Rightarrow> database \<Rightarrow> py_error + workflow_replay" where
  "replay_workflow uid now i db =
     (case dget (db_workflow_instances db) i of
        None \<Rightarrow> Inl (ValueError (''No WorkflowInstance found for: '' @ i))
      | Some row \<Rightarrow>
          bindE (as_dict (json_loads (wir_instance_json row))) (\<lambda>data.
          bindE (ditem_or as_opt_str None data ''started_at'') (\<lambda>started.
          bindE (case started of
                   None \<Rightarrow> Inr []
                 | Some t \<Rightarrow> if t = [] then Inr [] else stream_from uid now t 100 0 db) (\<lambda>events.
          bindE (ditem_or as_dict [] data ''node_states'') (\<lambda>ns.
            (case fold replay_event (filter (of_instance i) events) (map (\<lambda>n. (n, ''Pending'')) (dkeys ns), []) of
               (states, steps) \<Rightarrow>
                 Inr \<lparr>wr_instance_id = i, wr_workflow_name = or_none data ''workflow_name'',
                      wr_snapshot_status = or_none data ''status'', wr_node_states = states,
                      wr_transitions = steps\<rparr>))))))"

section \<open>Diagnostics\<close>

record diagnostics =
  dg_events_stored_total :: int
  dg_instances_by_status :: "(string \<times> int) list"
  dg_pending_tasks_count :: int
  dg_queue_size :: int
  dg_queued_task_ids :: "pyval list"
  dg_completed_tasks_total :: int
  dg_workers_count :: int
  dg_worker_states :: "(string \<times> string) list"
  dg_snapshots_stored_total :: int

definition count_where :: "('a \<Rightarrow> bool) \<Rightarrow> 'a list \<Rightarrow> int" where
  "count_where P xs = int (length (filter P xs))"

definition runtime_summary :: "database \<Rightarrow> int" where
  "runtime_summary db = int (length (db_events db))"

definition workflow_summary :: "database \<Rightarrow> (string \<times> int) list" where
  "workflow_summary db =
     (let rows = dvalues (db_workflow_instances db)
      in map (\<lambda>st. (st, count_where (\<lambda>r. wir_status r = st) rows)) (sort (remdups (map wir_status rows))))"

definition task_count :: "string \<Rightarrow> database \<Rightarrow> int" where
  "task_count st db = count_where (\<lambda>r. tr_status r = st) (dvalues (db_tasks db))"

definition queue_summary :: "database \<Rightarrow> int \<times> pyval list" where
  "queue_summary db =
     (case db_queue_state db of
        None \<Rightarrow> (0, [])
      | Some row \<Rightarrow>
          (case as_list (json_loads (qr_queued_task_ids row)) of
             Inl e \<Rightarrow> (0, [])
           | Inr ids \<Rightarrow> (int (length ids), ids)))"

definition worker_summary :: "database \<Rightarrow> int \<times> (string \<times> string) list" where
  "worker_summary db =
     (int (length (db_workers db)), map (\<lambda>kw. (fst kw, ws_state (snd kw))) (db_workers db))"

definition persistence_summary :: "database \<Rightarrow> int" where
  "persistence_summary db = int (length (db_snapshots db))"

definition diagnostics_summary :: "database \<Rightarrow> diagnostics" where
  "diagnostics_summary db =
     \<lparr>dg_events_stored_total = runtime_summary db, dg_instances_by_status = workflow_summary db,
      dg_pending_tasks_count = task_count ''Pending'' db, dg_queue_size = fst (queue_summary db),
      dg_queued_task_ids = snd (queue_summary db), dg_completed_tasks_total = task_count ''Completed'' db,
      dg_workers_count = fst (worker_summary db), dg_worker_states = snd (worker_summary db),
      dg_snapshots_stored_total = persistence_summary db\<rparr>"

end
