(* ===== verification/Tracing.thy ===== *)
theory Tracing
  imports Telemetry
begin

text \<open>
  The tracer of \<^verbatim>\<open>observability/tracing.py\<close> and the log formatter of \<open>logging.py\<close>. The thread local
  context is one value per thread, shared by all tracers. Span and trace ids come from \<open>uuid4\<close> and are
  arguments, as is the time; \<open>elapsed\<close> is the difference of two ISO times, if they can be parsed.
\<close>

section \<open>Contexts\<close>

record trace_vars =
  cx_trace_id :: "string option"
  cx_span_id :: "string option"
  cx_correlation_id :: "string option"
  cx_causation_id :: "string option"

definition no_context :: trace_vars where
  "no_context = \<lparr>cx_trace_id = None, cx_span_id = None, cx_correlation_id = None, cx_causation_id = None\<rparr>"

definition given_str :: "string option \<Rightarrow> bool" where
  "given_str x = (case x of None \<Rightarrow> False | Some s \<Rightarrow> s \<noteq> [])"

definition str_or :: "string option \<Rightarrow> string option \<Rightarrow> string option" where
  "str_or x y = (if given_str x then x else y)"

section \<open>The tracer\<close>

record tracer =
  tx_spans :: "(string \<times> span) list"
  tx_traces :: "(string \<times> span list) list"

definition tracer_init :: tracer where
  "tracer_init = \<lparr>tx_spans = [], tx_traces = []\<rparr>"

text \<open>The arguments of \<open>start_span\<close>, and the ids and the time it draws.\<close>

record span_request =
  rq_name :: string
  rq_parent_span_id :: "string option"
  rq_correlation_id :: "string option"
  rq_causation_id :: "string option"
  rq_trace_id :: "string option"
  rq_new_span :: string
  rq_new_trace :: string
  rq_now :: string

definition resolve_trace :: "span_request \<Rightarrow> trace_vars \<Rightarrow> string" where
  "resolve_trace q ctx = the (str_or (rq_trace_id q) (str_or (cx_trace_id ctx) (Some (rq_new_trace q))))"

definition new_span :: "span_request \<Rightarrow> trace_vars \<Rightarrow> span" where
  "new_span q ctx =
     \<lparr>sp_span_id = rq_new_span q, sp_trace_id = resolve_trace q ctx, sp_name = rq_name q, sp_start_time = rq_now q,
      sp_end_time = None, sp_parent_span_id = str_or (rq_parent_span_id q) (cx_span_id ctx),
      sp_metadata = [(''correlation_id'', popt PStr (str_or (rq_correlation_id q) (cx_correlation_id ctx))),
                     (''causation_id'', popt PStr (str_or (rq_causation_id q) (cx_causation_id ctx)))],
      sp_version = ''1.0.0''\<rparr>"

definition spans_of :: "string \<Rightarrow> tracer \<Rightarrow> span list" where
  "spans_of tid t = (case dget (tx_traces t) tid of None \<Rightarrow> [] | Some ss \<Rightarrow> ss)"

definition enter_context :: "span_request \<Rightarrow> span \<Rightarrow> trace_vars \<Rightarrow> trace_vars" where
  "enter_context q s ctx =
     \<lparr>cx_trace_id = Some (sp_trace_id s), cx_span_id = Some (sp_span_id s),
      cx_correlation_id = str_or (rq_correlation_id q) (cx_correlation_id ctx),
      cx_causation_id = str_or (rq_causation_id q) (cx_causation_id ctx)\<rparr>"

definition start_span :: "span_request \<Rightarrow> trace_vars \<Rightarrow> tracer \<Rightarrow> span \<times> trace_vars \<times> tracer" where
  "start_span q ctx t =
     (let s = new_span q ctx
      in (s, enter_context q s ctx,
          t\<lparr>tx_spans := dset (sp_span_id s) s (tx_spans t),
            tx_traces := dset (sp_trace_id s) (spans_of (sp_trace_id s) t @ [s]) (tx_traces t)\<rparr>))"

fun replace_span :: "string \<Rightarrow> span \<Rightarrow> span list \<Rightarrow> span list" where
  "replace_span i new [] = []"
| "replace_span i new (s # ss) = (if sp_span_id s = i then new # ss else s # replace_span i new ss)"

definition ended_span :: "(string \<Rightarrow> string \<Rightarrow> rat option) \<Rightarrow> pydict \<Rightarrow> string \<Rightarrow> span \<Rightarrow> span" where
  "ended_span elapsed metadata now s =
     (let md = fold (\<lambda>(k, v). dset k v) metadata (sp_metadata s)
      in s\<lparr>sp_end_time := Some now,
           sp_metadata := (case elapsed (sp_start_time s) now of
                             None \<Rightarrow> md | Some d \<Rightarrow> dset ''duration_seconds'' (PFloat d) md)\<rparr>)"

definition leave_context :: "span \<Rightarrow> trace_vars \<Rightarrow> trace_vars" where
  "leave_context s ctx =
     (if cx_span_id ctx = Some (sp_span_id s)
      then if given_str (sp_parent_span_id s) then ctx\<lparr>cx_span_id := sp_parent_span_id s\<rparr> else no_context
      else ctx)"

definition end_span ::
  "(string \<Rightarrow> string \<Rightarrow> rat option) \<Rightarrow> string \<Rightarrow> pydict \<Rightarrow> string \<Rightarrow> trace_vars \<Rightarrow> tracer \<Rightarrow> trace_vars \<times> tracer" where
  "end_span elapsed i metadata now ctx t =
     (case dget (tx_spans t) i of
        None \<Rightarrow> (ctx, t)
      | Some s \<Rightarrow>
          (let new = ended_span elapsed metadata now s
           in (leave_context s ctx,
               t\<lparr>tx_spans := dset i new (tx_spans t),
                 tx_traces := (case dget (tx_traces t) (sp_trace_id s) of
                                 None \<Rightarrow> tx_traces t
                               | Some ss \<Rightarrow> dset (sp_trace_id s) (replace_span i new ss) (tx_traces t))\<rparr>)))"

definition get_trace :: "string \<Rightarrow> tracer \<Rightarrow> trace option" where
  "get_trace tid t =
     (if spans_of tid t = [] then None
      else Some \<lparr>tc_trace_id = tid, tc_spans = spans_of tid t, tc_version = ''1.0.0''\<rparr>)"

definition list_spans :: "tracer \<Rightarrow> span list" where
  "list_spans t = dvalues (tx_spans t)"

section \<open>Log records\<close>

record log_record =
  lr_time :: string
  lr_level :: string
  lr_message :: string
  lr_name :: string
  lr_filename :: string
  lr_lineno :: int
  lr_extra :: pydict

definition log_payload :: "trace_vars \<Rightarrow> log_record \<Rightarrow> pydict" where
  "log_payload ctx r =
     (let base = [(''timestamp'', PStr (lr_time r)), (''level'', PStr (lr_level r)), (''message'', PStr (lr_message r)),
                  (''logger_name'', PStr (lr_name r)), (''filename'', PStr (lr_filename r)), (''lineno'', PInt (lr_lineno r))];
          add = (\<lambda>(k, x) d. if given_str x then dset k (popt PStr x) d else d);
          d = fold add [(''trace_id'', cx_trace_id ctx), (''span_id'', cx_span_id ctx),
                (''correlation_id'', cx_correlation_id ctx), (''causation_id'', cx_causation_id ctx)] base
      in fold (\<lambda>k d. case dget (lr_extra r) k of None \<Rightarrow> d | Some v \<Rightarrow> dset k v d)
           [''workflow_id'', ''task_id'', ''executor_id'', ''worker_id''] d)"

definition format_record :: "trace_vars \<Rightarrow> log_record \<Rightarrow> py_error + json_text" where
  "format_record ctx r = json_dumps (PDict (log_payload ctx r))"

section \<open>The two dictionaries agree\<close>

text \<open>Every span is filed under its id, and the list of a trace is its spans in the order they started.\<close>

definition tracer_ok :: "tracer \<Rightarrow> bool" where
  "tracer_ok t \<longleftrightarrow> wf_dict (tx_spans t) \<and> (\<forall>(i, s) \<in> set (tx_spans t). sp_span_id s = i) \<and>
     (\<forall>tid. spans_of tid t = filter (\<lambda>s. sp_trace_id s = tid) (dvalues (tx_spans t)))"

lemma tracer_ok_init: "tracer_ok tracer_init"
  by (simp add: tracer_ok_def tracer_init_def spans_of_def)

lemma spans_of_start:
  "spans_of tid (snd (snd (start_span q ctx t))) =
     spans_of tid t @ (if tid = resolve_trace q ctx then [new_span q ctx] else [])"
  by (auto simp: start_span_def Let_def spans_of_def dget_update new_span_def)

lemma tracer_ok_start:
  assumes "tracer_ok t" and "rq_new_span q \<notin> set (dkeys (tx_spans t))"
  shows "tracer_ok (snd (snd (start_span q ctx t)))"
proof -
  have "tx_spans (snd (snd (start_span q ctx t))) = tx_spans t @ [(rq_new_span q, new_span q ctx)]"
    using assms(2) by (simp add: start_span_def Let_def new_span_def update_fresh_append)
  with assms show ?thesis
    unfolding tracer_ok_def spans_of_start by (auto simp: wf_dict_def new_span_def)
qed

lemma set_dset_insert: "set (dset k v d) \<subseteq> insert (k, v) (set d)"
  by (induction d) auto

lemma dvalues_update_own:
  assumes "wf_dict d" and "\<forall>(i, s) \<in> set d. sp_span_id s = i" and "i \<in> set (dkeys d)"
  shows "dvalues (dset i new d) = map (\<lambda>s. if sp_span_id s = i then new else s) (dvalues d)"
  using assms
proof (induction d)
  case (Cons a d)
  show ?case
  proof (cases "fst a = i")
    case True
    with Cons.prems have "\<forall>s \<in> snd ` set d. sp_span_id s \<noteq> i" by (auto simp: wf_dict_def rev_image_eqI)
    with True Cons.prems show ?thesis by (cases a) (auto intro!: map_idI [symmetric])
  next
    case False
    with Cons show ?thesis by (cases a) (auto simp: wf_dict_def)
  qed
qed simp

lemma replace_span_map:
  "distinct (map sp_span_id ss) \<Longrightarrow> replace_span i new ss = map (\<lambda>s. if sp_span_id s = i then new else s) ss"
proof (induction ss)
  case (Cons s ss)
  then have "sp_span_id s = i \<Longrightarrow> map (\<lambda>s. if sp_span_id s = i then new else s) ss = ss"
    by (intro map_idI) (auto simp: image_iff)
  with Cons show ?case by simp
qed simp

lemma own_ids_distinct:
  assumes "wf_dict d" and "\<forall>(i, s) \<in> set d. sp_span_id s = i"
  shows "distinct (map sp_span_id (dvalues d))"
proof -
  have "map sp_span_id (dvalues d) = dkeys d" using assms(2) by (induction d) auto
  with assms(1) show ?thesis by (simp only: wf_dict_def)
qed

lemma tracer_ok_end:
  assumes ok: "tracer_ok t"
  shows "tracer_ok (snd (end_span elapsed i md now ctx t))"
proof (cases "dget (tx_spans t) i")
  case None
  with ok show ?thesis by (simp add: end_span_def)
next
  case (Some s)
  define new where "new = ended_span elapsed md now s"
  let ?t = "snd (end_span elapsed i md now ctx t)"
  let ?f = "\<lambda>x. if sp_span_id x = i then new else x"
  from ok have d: "wf_dict (tx_spans t)" "\<forall>(j, x) \<in> set (tx_spans t). sp_span_id x = j"
    and l: "\<And>tid. spans_of tid t = filter (\<lambda>x. sp_trace_id x = tid) (dvalues (tx_spans t))"
    by (simp_all add: tracer_ok_def)
  from Some d(2) have s: "sp_span_id s = i" by (auto dest: map_of_SomeD)
  have new: "sp_span_id new = i" "sp_trace_id new = sp_trace_id s"
    by (simp_all add: new_def ended_span_def Let_def s)
  have spans: "tx_spans ?t = dset i new (tx_spans t)"
    using Some by (simp add: end_span_def new_def Let_def)
  have vals: "dvalues (tx_spans ?t) = map ?f (dvalues (tx_spans t))"
    unfolding spans by (rule dvalues_update_own [OF d dget_Some_key [OF Some]])
  have same: "sp_trace_id x = sp_trace_id s" if "x \<in> set (dvalues (tx_spans t))" "sp_span_id x = i" for x
  proof -
    from that d(2) have "(i, x) \<in> set (tx_spans t)" by auto
    with d(1) Some show ?thesis by (metis map_of_is_SomeI option.inject wf_dict_def)
  qed
  have "spans_of tid ?t = map ?f (spans_of tid t)" for tid
  proof (cases "tid = sp_trace_id s")
    case True
    have "s \<in> set (spans_of tid t)" unfolding l using Some True by (auto dest: map_of_SomeD intro: image_eqI [of _ snd "(i, s)"])
    then obtain ss where ss: "dget (tx_traces t) tid = Some ss"
      by (cases "dget (tx_traces t) tid") (auto simp: spans_of_def)
    then have "distinct (map sp_span_id ss)"
      using l [of tid] own_ids_distinct [OF d] by (simp add: spans_of_def distinct_map_filter)
    then show ?thesis
      using ss Some True by (simp add: end_span_def spans_of_def Let_def new_def dget_update replace_span_map)
  next
    case False
    then have "spans_of tid ?t = spans_of tid t"
      using Some by (auto simp: end_span_def spans_of_def Let_def dget_update split: option.split)
    moreover have "map ?f (spans_of tid t) = spans_of tid t"
      unfolding l by (rule map_idI) (use same False in auto)
    ultimately show ?thesis by simp
  qed
  note mapped = this
  have filtered: "filter (\<lambda>x. sp_trace_id x = tid) (map ?f xs) = map ?f (filter (\<lambda>x. sp_trace_id x = tid) xs)"
    if "set xs \<subseteq> set (dvalues (tx_spans t))" for tid xs
    using that same new(2) by (induction xs) auto
  have lists: "spans_of tid ?t = filter (\<lambda>x. sp_trace_id x = tid) (dvalues (tx_spans ?t))" for tid
    unfolding mapped l vals by (rule filtered [OF subset_refl, symmetric])
  have "\<forall>(j, x) \<in> set (tx_spans ?t). sp_span_id x = j"
    unfolding spans using d(2) new(1) set_dset_insert [of i new "tx_spans t"] by blast
  moreover have "wf_dict (tx_spans ?t)" using d(1) by (simp add: spans)
  ultimately show ?thesis unfolding tracer_ok_def using lists by blast
qed

section \<open>Calls from several threads\<close>

datatype tracing_call = Start_span string span_request | End_span string string pydict string

type_synonym contexts = "string \<Rightarrow> trace_vars"

fun trace_step :: "(string \<Rightarrow> string \<Rightarrow> rat option) \<Rightarrow> tracing_call \<Rightarrow> contexts \<times> tracer \<Rightarrow> contexts \<times> tracer" where
  "trace_step elapsed (Start_span th q) (cs, t) =
     (case start_span q (cs th) t of (s, ctx, t1) \<Rightarrow> (cs(th := ctx), t1))"
| "trace_step elapsed (End_span th i md now) (cs, t) =
     (case end_span elapsed i md now (cs th) t of (ctx, t1) \<Rightarrow> (cs(th := ctx), t1))"

fun started_ids :: "tracing_call list \<Rightarrow> string list" where
  "started_ids [] = []"
| "started_ids (Start_span th q # cs) = rq_new_span q # started_ids cs"
| "started_ids (End_span th i md now # cs) = started_ids cs"

lemma dkeys_start:
  "rq_new_span q \<notin> set (dkeys (tx_spans t)) \<Longrightarrow>
   dkeys (tx_spans (snd (snd (start_span q ctx t)))) = dkeys (tx_spans t) @ [rq_new_span q]"
  by (simp add: start_span_def Let_def new_span_def update_fresh_append)

lemma dkeys_end: "dkeys (tx_spans (snd (end_span elapsed i md now ctx t))) = dkeys (tx_spans t)"
  by (auto simp: end_span_def Let_def split: option.split intro: dkeys_update_present dget_Some_key)

lemma trace_run_ok:
  assumes "tracer_ok t" and "distinct (dkeys (tx_spans t) @ started_ids calls)"
  shows "tracer_ok (snd (fold (trace_step elapsed) calls (cs, t))) \<and>
    dkeys (tx_spans (snd (fold (trace_step elapsed) calls (cs, t)))) = dkeys (tx_spans t) @ started_ids calls"
  using assms
proof (induction calls arbitrary: cs t)
  case (Cons c calls)
  show ?case
  proof (cases c)
    case (Start_span th q)
    obtain s ctx t1 where r: "start_span q (cs th) t = (s, ctx, t1)" by (metis prod.exhaust)
    from Cons.prems Start_span have "rq_new_span q \<notin> set (dkeys (tx_spans t))" by auto
    with tracer_ok_start [OF Cons.prems(1) this, of "cs th"] dkeys_start [OF this, of "cs th"] r
    have "tracer_ok t1" "dkeys (tx_spans t1) = dkeys (tx_spans t) @ [rq_new_span q]" by simp_all
    with Cons.IH [of t1 "cs(th := ctx)"] Cons.prems Start_span r show ?thesis by (simp add: fun_upd_def)
  next
    case (End_span th i md now)
    obtain ctx t1 where r: "end_span elapsed i md now (cs th) t = (ctx, t1)" by (metis prod.exhaust)
    with tracer_ok_end [OF Cons.prems(1), of elapsed i md now "cs th"] dkeys_end [of elapsed i md now "cs th" t]
    have "tracer_ok t1" "dkeys (tx_spans t1) = dkeys (tx_spans t)" by simp_all
    with Cons.IH [of t1 "cs(th := ctx)"] Cons.prems End_span r show ?thesis by (simp add: fun_upd_def)
  qed
qed simp

lemma list_spans_ids: "tracer_ok t \<Longrightarrow> map sp_span_id (list_spans t) = dkeys (tx_spans t)"
proof -
  assume "tracer_ok t"
  then have "\<forall>(i, s) \<in> set (tx_spans t). sp_span_id s = i" by (simp add: tracer_ok_def)
  then show ?thesis unfolding list_spans_def by (induction "tx_spans t" arbitrary: t) auto
qed

end
