(* ===== verification/Observability.thy ===== *)
theory Observability
  imports Monitoring Tracing
begin

text \<open>
  The event bus and what listens to it: \<^verbatim>\<open>observability/bus.py\<close> and \<open>integration.py\<close>. Subscribers run on
  the thread that publishes, one after the other; what they raise is logged and dropped. The set of
  subscribers is a list of named ones, in the order a publication happens to call them. What a listener
  of the bus does is the contract of the locale \<open>bus_sink\<close>.
\<close>

section \<open>The bus\<close>

type_synonym 'w subscriber = "string \<Rightarrow> runtime_event \<Rightarrow> 'w \<Rightarrow> py_error option \<times> 'w"

record 'w event_bus =
  eb_subscribers :: "(string \<times> 'w subscriber) list"

definition bus_init :: "'w event_bus" where
  "bus_init = \<lparr>eb_subscribers = []\<rparr>"

definition subscribe :: "string \<Rightarrow> 'w subscriber \<Rightarrow> 'w event_bus \<Rightarrow> 'w event_bus" where
  "subscribe nm f b =
     (if dget (eb_subscribers b) nm = None then b\<lparr>eb_subscribers := eb_subscribers b @ [(nm, f)]\<rparr> else b)"

definition unsubscribe :: "string \<Rightarrow> 'w event_bus \<Rightarrow> 'w event_bus" where
  "unsubscribe nm b = b\<lparr>eb_subscribers := dpop nm (eb_subscribers b)\<rparr>"

definition bus_publish :: "'w event_bus \<Rightarrow> string \<Rightarrow> runtime_event \<Rightarrow> 'w \<Rightarrow> 'w" where
  "bus_publish b th e w = fold (\<lambda>(nm, f) w. snd (f th e w)) (eb_subscribers b) w"

definition batch_publish :: "'w event_bus \<Rightarrow> string \<Rightarrow> runtime_event list \<Rightarrow> 'w \<Rightarrow> 'w" where
  "batch_publish b th es w = fold (bus_publish b th) es w"

text \<open>
  A sink sees a part of the world, and handling an event acts on that part as \<open>spec\<close> says, whether it
  raises or not.
\<close>

locale bus_sink =
  fixes run :: "'w subscriber"
    and view :: "'w \<Rightarrow> 's"
    and spec :: "runtime_event \<Rightarrow> 's \<Rightarrow> 's"
  assumes effect: "view (snd (run th e w)) = spec e (view w)"
begin

text \<open>On a bus the sink is subscribed to once; the other subscribers leave its part of the world alone.\<close>

definition alone :: "'w event_bus \<Rightarrow> string \<Rightarrow> bool" where
  "alone b nm \<longleftrightarrow> wf_dict (eb_subscribers b) \<and> dget (eb_subscribers b) nm = Some run \<and>
     (\<forall>(n, f) \<in> set (eb_subscribers b). n \<noteq> nm \<longrightarrow> (\<forall>th e w. view (snd (f th e w)) = view w))"

lemma others_leave:
  "\<forall>(n, f) \<in> set subs. n \<noteq> nm \<longrightarrow> (\<forall>th e w. view (snd (f th e w)) = view w) \<Longrightarrow> nm \<notin> set (dkeys subs) \<Longrightarrow>
   view (fold (\<lambda>(n, f) w. snd (f th e w)) subs w) = view w"
  by (induction subs arbitrary: w) auto

lemma publish_view:
  assumes "alone b nm"
  shows "view (bus_publish b th e w) = spec e (view w)"
proof -
  from assms have subs: "wf_dict (eb_subscribers b)" "(nm, run) \<in> set (eb_subscribers b)"
    "\<forall>(n, f) \<in> set (eb_subscribers b). n \<noteq> nm \<longrightarrow> (\<forall>th e w. view (snd (f th e w)) = view w)"
    by (auto simp: alone_def dest: map_of_SomeD)
  then obtain xs ys where s: "eb_subscribers b = xs @ (nm, run) # ys" by (meson split_list)
  with subs(1) have fresh: "nm \<notin> set (dkeys xs)" "nm \<notin> set (dkeys ys)" by (auto simp: wf_dict_def)
  from subs(3) s have "\<forall>(n, f) \<in> set xs. n \<noteq> nm \<longrightarrow> (\<forall>th e w. view (snd (f th e w)) = view w)" by simp
  note xs = others_leave [OF this fresh(1)]
  from subs(3) s have "\<forall>(n, f) \<in> set ys. n \<noteq> nm \<longrightarrow> (\<forall>th e w. view (snd (f th e w)) = view w)" by simp
  note ys = others_leave [OF this fresh(2)]
  show ?thesis by (simp add: bus_publish_def s ys effect xs)
qed

lemma batch_view:
  assumes "alone b nm"
  shows "view (batch_publish b th es w) = fold spec es (view w)"
  unfolding batch_publish_def by (induction es arbitrary: w) (simp_all add: publish_view [OF assms])

end

section \<open>What the subscribers share\<close>

record obs_world =
  ow_db :: database
  ow_health :: health_monitor
  ow_metrics :: metrics_registry
  ow_tracer :: tracer
  ow_contexts :: contexts
  ow_active_spans :: "(string \<times> string) list"
  ow_now :: string
  ow_elapsed :: "string \<Rightarrow> string \<Rightarrow> rat option"
  ow_uuid :: "nat \<Rightarrow> string"
  ow_drawn :: nat

section \<open>The subscribers\<close>

definition event_store_subscriber :: "obs_world subscriber" where
  "event_store_subscriber th e w =
     (case store_append e (ow_db w) of
        (Inl err, db) \<Rightarrow> (Some err, w\<lparr>ow_db := db\<rparr>)
      | (Inr _, db) \<Rightarrow> (None, w\<lparr>ow_db := db\<rparr>))"

definition runtime_labels :: "runtime_event \<Rightarrow> labels" where
  "runtime_labels e = Some [(''runtime_id'', ev_runtime_id e)]"

fun event_counter :: "event_kind \<Rightarrow> string option" where
  "event_counter (TaskSubmitted i t y) = Some ''scheduler_tasks_submitted_total''"
| "event_counter (TaskStarted i) = Some ''worker_tasks_started_total''"
| "event_counter (TaskCompleted i) = Some ''worker_tasks_completed_total''"
| "event_counter (TaskFailed i m) = Some ''worker_tasks_failed_total''"
| "event_counter (TaskCancelled i) = Some ''worker_tasks_failed_total''"
| "event_counter (TaskTimedOut i) = Some ''worker_tasks_failed_total''"
| "event_counter _ = None"

definition count_event :: "string \<Rightarrow> runtime_event \<Rightarrow> metrics_registry \<Rightarrow> metrics_registry" where
  "count_event now e g =
     (case event_counter (ev_kind e) of None \<Rightarrow> g | Some c \<Rightarrow> increment c 1 (runtime_labels e) now g)"

text \<open>The span of a task that starts; the first id drawn is the span's, a second one the trace's if it needs one.\<close>

definition task_span_request :: "runtime_event \<Rightarrow> string \<Rightarrow> string option \<Rightarrow> obs_world \<Rightarrow> span_request" where
  "task_span_request e i wfid w =
     \<lparr>rq_name = ''ExecuteTask:'' @ i, rq_parent_span_id = None, rq_correlation_id = ev_correlation_id e,
      rq_causation_id = ev_causation_id e, rq_trace_id = wfid, rq_new_span = ow_uuid w (ow_drawn w),
      rq_new_trace = ow_uuid w (Suc (ow_drawn w)), rq_now = ow_now w\<rparr>"

definition start_task_span :: "string \<Rightarrow> runtime_event \<Rightarrow> string \<Rightarrow> string option \<Rightarrow> obs_world \<Rightarrow> obs_world" where
  "start_task_span th e i wfid w =
     (case start_span (task_span_request e i wfid w) (ow_contexts w th) (ow_tracer w) of
        (s, ctx, t) \<Rightarrow>
          w\<lparr>ow_tracer := t, ow_contexts := (ow_contexts w)(th := ctx),
            ow_drawn := (if given_str wfid \<or> given_str (cx_trace_id (ow_contexts w th)) then Suc (ow_drawn w)
                         else Suc (Suc (ow_drawn w))),
            ow_active_spans := dset i (sp_span_id s) (ow_active_spans w)\<rparr>)"

definition end_task_span :: "string \<Rightarrow> string \<Rightarrow> pydict \<Rightarrow> obs_world \<Rightarrow> obs_world" where
  "end_task_span th i md w =
     (case dget (ow_active_spans w) i of
        None \<Rightarrow> w
      | Some sid \<Rightarrow>
          (let w1 = w\<lparr>ow_active_spans := dpop i (ow_active_spans w)\<rparr>
           in if sid = [] then w1
              else case end_span (ow_elapsed w) sid md (ow_now w) (ow_contexts w th) (ow_tracer w) of
                     (ctx, t) \<Rightarrow> w1\<lparr>ow_tracer := t, ow_contexts := (ow_contexts w)(th := ctx)\<rparr>))"

definition observability_subscriber :: "obs_world subscriber" where
  "observability_subscriber th e w =
     (case health_on_event e (ow_health w) of
        Inl err \<Rightarrow> (Some err, w)
      | Inr h \<Rightarrow>
          (let w1 = w\<lparr>ow_health := h, ow_metrics := count_event (ow_now w) e (ow_metrics w)\<rparr>
           in case ev_kind e of
                TaskStarted i \<Rightarrow>
                  (case ditem_or as_opt_str None (ev_metadata e) ''workflow_instance_id'' of
                     Inl err \<Rightarrow> (Some err, w1)
                   | Inr wfid \<Rightarrow> (None, start_task_span th e i wfid w1))
              | TaskCompleted i \<Rightarrow>
                  (None, end_task_span th i [(''status'', PStr ''Succeeded''), (''result'', or_none (ev_metadata e) ''result'')] w1)
              | TaskFailed i m \<Rightarrow>
                  (None, end_task_span th i [(''status'', PStr ''Failed''), (''error'', or_none (ev_metadata e) ''error'')] w1)
              | TaskCancelled i \<Rightarrow>
                  (None, end_task_span th i [(''status'', PStr ''Failed''), (''error'', or_none (ev_metadata e) ''error'')] w1)
              | TaskTimedOut i \<Rightarrow>
                  (None, end_task_span th i [(''status'', PStr ''Failed''), (''error'', or_none (ev_metadata e) ''error'')] w1)
              | _ \<Rightarrow> (None, w1)))"

section \<open>The proxy of the event store\<close>

text \<open>Appends go to the bus and never raise; everything else goes to the store behind it.\<close>

definition proxy_append ::
  "obs_world event_bus \<Rightarrow> string \<Rightarrow> runtime_event \<Rightarrow> obs_world \<Rightarrow> (py_error + unit) \<times> obs_world" where
  "proxy_append b th e w = (Inr (), bus_publish b th e w)"

definition proxy_append_batch ::
  "obs_world event_bus \<Rightarrow> string \<Rightarrow> runtime_event list \<Rightarrow> obs_world \<Rightarrow> (py_error + unit) \<times> obs_world" where
  "proxy_append_batch b th es w = (Inr (), batch_publish b th es w)"

definition proxy_load :: "string \<Rightarrow> string \<Rightarrow> string \<Rightarrow> obs_world \<Rightarrow> py_error + runtime_event option" where
  "proxy_load uid now i w = store_load uid now i (ow_db w)"

definition proxy_stream :: "string \<Rightarrow> string \<Rightarrow> int \<Rightarrow> int \<Rightarrow> obs_world \<Rightarrow> py_error + runtime_event list" where
  "proxy_stream uid now limit offset w = stream uid now limit offset (ow_db w)"

definition proxy_stream_from ::
  "string \<Rightarrow> string \<Rightarrow> string \<Rightarrow> int \<Rightarrow> int \<Rightarrow> obs_world \<Rightarrow> py_error + runtime_event list" where
  "proxy_stream_from uid now t limit offset w = stream_from uid now t limit offset (ow_db w)"

definition proxy_replay :: "string \<Rightarrow> string \<Rightarrow> string \<Rightarrow> obs_world \<Rightarrow> py_error + runtime_event list" where
  "proxy_replay uid now rid w = replay uid now rid (ow_db w)"

definition proxy_count :: "obs_world \<Rightarrow> int" where
  "proxy_count w = count_events (ow_db w)"

definition proxy_truncate :: "obs_world \<Rightarrow> obs_world" where
  "proxy_truncate w = w\<lparr>ow_db := truncate_events (ow_db w)\<rparr>"

text \<open>The wiring: the store and the telemetry both listen.\<close>

definition standard_bus :: "obs_world event_bus" where
  "standard_bus = subscribe ''observability'' observability_subscriber
     (subscribe ''event_store'' event_store_subscriber bus_init)"

section \<open>The subscribers are sinks\<close>

definition store_effect :: "runtime_event \<Rightarrow> database \<Rightarrow> database" where
  "store_effect e db = snd (store_append e db)"

lemma store_subscriber_view: "ow_db (snd (event_store_subscriber th e w)) = store_effect e (ow_db w)"
  by (simp add: event_store_subscriber_def store_effect_def split: prod.split sum.split)

interpretation store_sink: bus_sink event_store_subscriber ow_db store_effect
  by unfold_locales (rule store_subscriber_view)

definition telemetry_view :: "obs_world \<Rightarrow> health_monitor \<times> metrics_registry \<times> string" where
  "telemetry_view w = (ow_health w, ow_metrics w, ow_now w)"

definition telemetry_effect ::
  "runtime_event \<Rightarrow> health_monitor \<times> metrics_registry \<times> string \<Rightarrow> health_monitor \<times> metrics_registry \<times> string" where
  "telemetry_effect e s =
     (case s of (h, g, now) \<Rightarrow>
        (case health_on_event e h of Inl err \<Rightarrow> (h, g, now) | Inr h1 \<Rightarrow> (h1, count_event now e g, now)))"

lemma span_steps_view:
  "telemetry_view (start_task_span th e i wfid w) = telemetry_view w"
  "telemetry_view (end_task_span th i md w) = telemetry_view w"
  "ow_db (start_task_span th e i wfid w) = ow_db w"
  "ow_db (end_task_span th i md w) = ow_db w"
  by (auto simp: telemetry_view_def start_task_span_def end_task_span_def Let_def split: prod.split option.split)

lemma telemetry_subscriber_view:
  "telemetry_view (snd (observability_subscriber th e w)) = telemetry_effect e (telemetry_view w)"
proof -
  have w1: "telemetry_view (w\<lparr>ow_health := h, ow_metrics := g\<rparr>) = (h, g, ow_now w)" for h g
    by (simp add: telemetry_view_def)
  show ?thesis
    by (cases "health_on_event e (ow_health w)"; cases "ev_kind e")
      (auto simp: observability_subscriber_def Let_def span_steps_view w1 telemetry_effect_def telemetry_view_def [of w]
        split: sum.split)
qed

interpretation telemetry_sink: bus_sink observability_subscriber telemetry_view telemetry_effect
  by unfold_locales (rule telemetry_subscriber_view)

lemma observability_leaves_store: "ow_db (snd (observability_subscriber th e w)) = ow_db w"
  by (cases "health_on_event e (ow_health w)"; cases "ev_kind e")
    (auto simp: observability_subscriber_def Let_def span_steps_view split: sum.split)

lemma store_leaves_telemetry: "telemetry_view (snd (event_store_subscriber th e w)) = telemetry_view w"
  by (simp add: event_store_subscriber_def telemetry_view_def split: prod.split sum.split)

lemma standard_subscribers:
  "eb_subscribers standard_bus = [(''event_store'', event_store_subscriber), (''observability'', observability_subscriber)]"
  by (simp add: standard_bus_def subscribe_def bus_init_def)

lemma standard_alone:
  "store_sink.alone standard_bus ''event_store''" "telemetry_sink.alone standard_bus ''observability''"
  by (simp_all add: store_sink.alone_def telemetry_sink.alone_def standard_subscribers wf_dict_def
      observability_leaves_store store_leaves_telemetry)

lemmas store_after_batch = store_sink.batch_view [OF standard_alone(1)]
lemmas telemetry_after_batch = telemetry_sink.batch_view [OF standard_alone(2)]

end
