(* ===== verification/Observability_Properties.thy ===== *)
theory Observability_Properties
  imports Observability Orchestrator_Properties
begin

text \<open>
  The properties of the observability layer: the metrics registry as a map of series, the tracer's two
  dictionaries, what a time-out does to the next task's span, what the bus keeps of the events sent
  through it, the alerts of a health report, and timelines. The witnesses start from an empty world.
\<close>

section \<open>Metrics\<close>



text \<open>
  C28. When every name is used with one kind of call, the type a family declares is the kind of all its
  metrics, and never changes.
\<close>

theorem metric_families_keep_their_type:
  assumes "\<forall>c \<in> set cs. call_type c = ty (call_name c)"
    and "get_family n (fold metric_step cs metrics_init) = Some f"
  shows "mf_metric_type f = ty n \<and> (\<forall>k m. dget (mf_metrics f) k = Some m \<longrightarrow> metric_class m = ty n)"
proof -
  have "typed_by ty metrics_init" by (simp add: typed_by_def metrics_init_def)
  from typed_calls [OF this assms(1)] assms(2) show ?thesis by (auto simp: typed_by_def get_family_def)
qed

theorem metric_families_keep_their_type_witness:
  "map_option mf_metric_type (get_family ''n'' (fold metric_step [Observe ''n'' 1 None ''''] metrics_init)) =
     Some ''histogram''"
proof -
  obtain f where f: "get_family ''n'' (fold metric_step [Observe ''n'' 1 None ''''] metrics_init) = Some f"
    by (simp add: get_family_def observe_histogram_def update_metric_def get_or_create_family_def metrics_init_def Let_def)
  with metric_families_keep_their_type [OF _ f, of "\<lambda>_. ''histogram''"] show ?thesis by simp
qed

section \<open>Traces\<close>

text \<open>
  C21. Whatever threads start and end spans in whatever order, with fresh span ids: the tracer knows every
  span it has started, in that order, and a trace consists of exactly the spans with its id, in that
  order and in their latest version.
\<close>

theorem traces_hold_all_spans:
  assumes "distinct (started_ids calls)"
    and "t = snd (fold (trace_step elapsed) calls (\<lambda>th. no_context, tracer_init))"
  shows "map sp_span_id (list_spans t) = started_ids calls \<and>
    (\<forall>tid. get_trace tid t =
       (if filter (\<lambda>s. sp_trace_id s = tid) (list_spans t) = [] then None
        else Some \<lparr>tc_trace_id = tid, tc_spans = filter (\<lambda>s. sp_trace_id s = tid) (list_spans t),
                   tc_version = ''1.0.0''\<rparr>))"
proof -
  have ok: "tracer_ok t" "dkeys (tx_spans t) = started_ids calls"
    using trace_run_ok [OF tracer_ok_init, of calls elapsed "\<lambda>th. no_context"] assms
    by (simp_all add: tracer_init_def)
  have "spans_of tid t = filter (\<lambda>s. sp_trace_id s = tid) (list_spans t)" for tid
    using ok(1) by (simp add: tracer_ok_def list_spans_def)
  with list_spans_ids [OF ok(1)] ok(2) show ?thesis by (simp add: get_trace_def)
qed

definition simple_request :: "string \<Rightarrow> span_request" where
  "simple_request i = \<lparr>rq_name = i, rq_parent_span_id = None, rq_correlation_id = None, rq_causation_id = None,
     rq_trace_id = None, rq_new_span = i, rq_new_trace = ''T'' @ i, rq_now = []\<rparr>"

theorem traces_hold_all_spans_witness:
  "map sp_span_id (list_spans (snd (fold (trace_step (\<lambda>_ _. None))
     [Start_span ''a'' (simple_request ''1''), Start_span ''b'' (simple_request ''2''), End_span ''b'' ''1'' [] '''']
     (\<lambda>th. no_context, tracer_init)))) = [''1'', ''2'']"
  using traces_hold_all_spans [OF _ refl, of "[Start_span ''a'' (simple_request ''1''),
      Start_span ''b'' (simple_request ''2''), End_span ''b'' ''1'' [] '''']" "\<lambda>_ _. None"]
  by (simp add: simple_request_def)

section \<open>Spans of tasks\<close>

definition task_event :: "string \<Rightarrow> event_kind \<Rightarrow> runtime_event" where
  "task_event uid k = mk_event uid ''now'' k"

text \<open>
  C25. A worker that starts and completes a task leaves its thread without a trace context, so the next task
  begins a trace of its own. When the time-out monitor reports a task as timed out, its span is ended on
  the monitor's thread, and the worker's context still names it: the next task on this worker becomes a
  child of a span that has ended, in the trace of the other task.
\<close>

theorem timed_out_task_adopts_the_next:
  assumes ctx: "ow_contexts w th = no_context" and mon: "mon \<noteq> th" and task: "j \<noteq> i"
    and ids: "inj (ow_uuid w)" "\<forall>n. ow_uuid w n \<noteq> []"
    and run: "w1 = snd (observability_subscriber th (task_event a (TaskStarted i)) w)"
  shows "ow_contexts (snd (observability_subscriber th (task_event b (TaskCompleted i)) w1)) th = no_context \<and>
    (\<forall>w3. w3 = snd (observability_subscriber th (task_event c (TaskStarted j))
             (snd (observability_subscriber mon (task_event b (TaskTimedOut i)) w1))) \<longrightarrow>
       (\<exists>s1 s3. dget (tx_spans (ow_tracer w3)) (ow_uuid w (ow_drawn w)) = Some s1 \<and> sp_end_time s1 \<noteq> None \<and>
          dget (ow_active_spans w3) j = Some (sp_span_id s3) \<and>
          dget (tx_spans (ow_tracer w3)) (sp_span_id s3) = Some s3 \<and>
          sp_parent_span_id s3 = Some (sp_span_id s1) \<and> sp_trace_id s3 = sp_trace_id s1))"
proof -
  have ne: "ow_uuid w m \<noteq> ow_uuid w n \<longleftrightarrow> m \<noteq> n" for m n using ids(1) by (simp add: inj_eq)
  note defs = observability_subscriber_def health_on_event_def task_event_def mk_event_def ditem_or_def Let_def
    start_task_span_def end_task_span_def start_span_def end_span_def task_span_request_def new_span_def
    resolve_trace_def enter_context_def leave_context_def ended_span_def str_or_def given_str_def no_context_def
    dget_update dget_delete
  show ?thesis using ctx mon task ids(2) ne unfolding run by (auto simp: defs)
qed

definition sample_obs :: obs_world where
  "sample_obs = \<lparr>ow_db = initialize_schema, ow_health = health_init 10, ow_metrics = metrics_init,
     ow_tracer = tracer_init, ow_contexts = (\<lambda>_. no_context), ow_active_spans = [], ow_now = ''now'',
     ow_elapsed = (\<lambda>_ _. None), ow_uuid = (\<lambda>n. replicate (Suc n) (CHR ''u'')), ow_drawn = 0\<rparr>"

theorem timed_out_task_adopts_the_next_witness:
  "\<exists>s. dget (tx_spans (ow_tracer (snd (observability_subscriber ''w'' (task_event ''3'' (TaskStarted ''B''))
         (snd (observability_subscriber ''m'' (task_event ''2'' (TaskTimedOut ''A''))
            (snd (observability_subscriber ''w'' (task_event ''1'' (TaskStarted ''A'')) sample_obs))))))))
       (ow_uuid sample_obs 0) = Some s \<and> sp_end_time s \<noteq> None"
proof -
  have "inj (ow_uuid sample_obs)"
    by (auto simp: sample_obs_def intro!: injI dest: arg_cong [of _ _ length])
  then show ?thesis
    using timed_out_task_adopts_the_next [of sample_obs "''w''" "''m''" "''B''" "''A''" _ "''1''" "''2''" "''3''"]
    by (auto simp: sample_obs_def)
qed

section \<open>The bus in front of the event store\<close>

text \<open>The events the store takes: those that can be encoded and whose id is new.\<close>

fun accepted :: "string list \<Rightarrow> runtime_event list \<Rightarrow> runtime_event list" where
  "accepted ids [] = []"
| "accepted ids (e # es) =
     (if json_ok (PDict (ev_metadata e)) \<and> ev_id e \<notin> set ids then e # accepted (ids @ [ev_id e]) es
      else accepted ids es)"

lemma store_refuses:
  assumes "\<not> json_ok (PDict (ev_metadata e))"
  shows "store_effect e db = db"
proof -
  have "json_dumps (PDict (ev_metadata e)) = Inl (TypeError ''not JSON serializable'')"
    using assms by (simp add: json_dumps_def del: json_ok.simps)
  then show ?thesis
    by (simp add: store_effect_def store_append_def transaction_def insert_event_def Let_def)
qed

lemma store_effect_log:
  assumes "log_rep db es" and "ev_type e = event_class (ev_kind e)"
  shows "log_rep (store_effect e db)
    (if json_ok (PDict (ev_metadata e)) \<and> ev_id e \<notin> set (map ev_id es) then es @ [e] else es)"
proof (cases "json_ok (PDict (ev_metadata e))")
  case True
  with assms(2) have "wf_event e" by (simp add: wf_event_def del: json_ok.simps)
  then show ?thesis
    using True store_append_new [OF assms(1), of e] store_append_duplicate [OF assms(1), of e] assms(1)
    by (cases "ev_id e \<in> set (map ev_id es)") (auto simp: store_effect_def simp del: json_ok.simps)
next
  case False
  with assms(1) store_refuses [OF False] show ?thesis by (simp del: json_ok.simps)
qed

lemma store_effects_log:
  "log_rep db es \<Longrightarrow> \<forall>e \<in> set fs. ev_type e = event_class (ev_kind e) \<Longrightarrow>
   log_rep (fold store_effect fs db) (es @ accepted (map ev_id es) fs)"
proof (induction fs arbitrary: db es)
  case (Cons f fs)
  from store_effect_log [OF Cons.prems(1), of f] Cons.prems(2)
  show ?case
    using Cons.IH [of "store_effect f db" "es @ [f]"] Cons.IH [of "store_effect f db" es] Cons.prems(2)
    by (auto simp del: json_ok.simps split: if_splits)
qed simp

definition runtime_key :: "string \<Rightarrow> string" where
  "runtime_key r = serialize_labels (Some [(''runtime_id'', r)])"

lemma runtime_key_inject: "runtime_key r = runtime_key s \<longleftrightarrow> r = s"
  by (simp add: runtime_key_def serialize_labels_def label_pairs_def label_text_def)

lemma series_count_event:
  "length (series (count_event now e g) c (runtime_key r)) =
     length (series g c (runtime_key r)) +
     (if event_counter (ev_kind e) = Some c \<and> ev_runtime_id e = r then 1 else 0)"
  using runtime_key_inject [of r "ev_runtime_id e"]
  by (auto simp: count_event_def increment_def series_update_metric new_metric_data_def runtime_labels_def runtime_key_def
      split: option.split)

lemma counted_not_refused: "event_counter (ev_kind e) = Some c \<Longrightarrow> health_on_event e h = Inr h"
  by (cases "ev_kind e") (auto simp: health_on_event_def)

lemma telemetry_effect_series:
  "length (series (fst (snd (telemetry_effect e s))) c (runtime_key r)) =
     length (series (fst (snd s)) c (runtime_key r)) +
     (if event_counter (ev_kind e) = Some c \<and> ev_runtime_id e = r then 1 else 0)"
proof (cases s)
  case (fields h g now)
  show ?thesis
  proof (cases "event_counter (ev_kind e)")
    case None
    then show ?thesis by (simp add: telemetry_effect_def fields count_event_def split: sum.split)
  next
    case (Some d)
    with counted_not_refused [OF Some, of h] show ?thesis
      by (simp add: telemetry_effect_def fields series_count_event)
  qed
qed

lemma telemetry_effects_series:
  "length (series (fst (snd (fold telemetry_effect es s))) c (runtime_key r)) =
     length (series (fst (snd s)) c (runtime_key r)) +
     length (filter (\<lambda>e. event_counter (ev_kind e) = Some c \<and> ev_runtime_id e = r) es)"
  by (induction es arbitrary: s) (simp_all add: telemetry_effect_series)

text \<open>
  C16. A batch appended through the bus never raises and is not atomic: the store takes the events it can
  encode and has not seen, in order, and the others are lost without a trace, while the metrics count
  them all.
\<close>

theorem bus_loses_refused_events:
  assumes "log_rep (ow_db w) es" and "\<forall>e \<in> set fs. ev_type e = event_class (ev_kind e)"
    and "proxy_append_batch standard_bus th fs w = (res, w1)"
  shows "res = Inr () \<and> log_rep (ow_db w1) (es @ accepted (map ev_id es) fs) \<and>
    proxy_count w1 = int (length es + length (accepted (map ev_id es) fs)) \<and>
    length (series (ow_metrics w1) c (runtime_key r)) = length (series (ow_metrics w) c (runtime_key r)) +
      length (filter (\<lambda>e. event_counter (ev_kind e) = Some c \<and> ev_runtime_id e = r) fs)"
proof -
  from assms(3) have r: "res = Inr ()" and w1: "w1 = batch_publish standard_bus th fs w"
    by (simp_all add: proxy_append_batch_def)
  have log: "log_rep (ow_db w1) (es @ accepted (map ev_id es) fs)"
    unfolding w1 store_after_batch by (rule store_effects_log [OF assms(1,2)])
  have view: "telemetry_view w1 = fold telemetry_effect fs (telemetry_view w)"
    unfolding w1 by (rule telemetry_after_batch)
  have metrics: "fst (snd (telemetry_view x)) = ow_metrics x" for x by (simp add: telemetry_view_def)
  show ?thesis
    using r log count_events_rep [OF log] telemetry_effects_series [of fs "telemetry_view w" c r]
    unfolding view [symmetric] metrics proxy_count_def by simp
qed

theorem bus_loses_refused_events_witness:
  "proxy_count (snd (proxy_append_batch standard_bus ''w''
     [task_event ''1'' (TaskQueued ''A''), task_event ''1'' (TaskCompleted ''A'')] sample_obs)) = 1"
  using bus_loses_refused_events [of sample_obs "[]" "[task_event ''1'' (TaskQueued ''A''), task_event ''1'' (TaskCompleted ''A'')]"
      "''w''", OF _ _ prod.collapse [symmetric]]
  by (simp add: sample_obs_def log_rep_init task_event_def mk_event_def)

section \<open>Health and alerts\<close>

definition health_run :: "runtime_event list \<Rightarrow> health_monitor \<Rightarrow> health_monitor" where
  "health_run es h = fold (\<lambda>e h. case health_on_event e h of Inl err \<Rightarrow> h | Inr h1 \<Rightarrow> h1) es h"

lemma health_failures: "health_on_event e h = Inr h1 \<Longrightarrow> hm_workflow_failures h1 = hm_workflow_failures h"
  by (cases "ev_kind e") (auto simp: health_on_event_def bindE_def split: sum.splits)

lemma health_run_failures: "hm_workflow_failures (health_run es h) = hm_workflow_failures h"
  unfolding health_run_def by (induction es arbitrary: h) (auto split: sum.split dest: health_failures)

definition late_workers :: "health_probes \<Rightarrow> health_monitor \<Rightarrow> (string \<times> rat) list" where
  "late_workers pb h =
     List.map_filter (\<lambda>wt. map_option (Pair (fst wt)) (late_worker pb (hm_threshold h) wt)) (hm_workers h)"

lemma check_workers_late:
  "check_workers pb th wts (st, rs) =
     (let late = List.map_filter (\<lambda>wt. map_option (Pair (fst wt)) (late_worker pb th wt)) wts
      in (if late = [] then st else DEGRADED, rs @ map (\<lambda>(w, d). late_reason pb w d) late))"
  by (induction wts arbitrary: st rs)
    (auto simp: check_workers_def Let_def map_filter_simps split: option.splits)

lemma starts_with_append: "starts_with p (p @ s)"
  by (induction p) auto

lemma contains_append: "contains_str p (s @ p @ t)"
proof (induction s)
  case Nil
  show ?case using starts_with_append [of p t] by (cases "p @ t") auto
qed simp

lemma late_reason_contains: "contains_str ''missed heartbeats'' (late_reason pb w d)"
proof -
  have "late_reason pb w d = (''Worker '' @ squoted w @ '' '') @ ''missed heartbeats'' @ '' (last seen '' @ pb_seconds pb d @ ''s ago).''"
    by (simp add: late_reason_def)
  then show ?thesis by (simp only: contains_append)
qed

text \<open>
  With database and file system in order, the health is good exactly when the scheduler runs and every
  known worker's last sign of life is recent enough, and the alerts are: a missing heartbeat for a stopped
  scheduler and for every worker that is late, and a warning when the queue is longer than the limit.
  The alert for failed workflows is never raised: no event of that class exists.
\<close>

theorem alerts_of_health:
  assumes "pb_connection pb \<in> {None, Some None}" and "pb_filesystem pb = None"
    and "h = health_run es (health_init threshold)"
  shows "(hp_status (check_health pb h) = ''Healthy'' \<longleftrightarrow> hm_scheduler_running h \<and> late_workers pb h = []) \<and>
    fst (evaluate num_str now (check_health pb h) depth eng) =
      (if hm_scheduler_running h then []
       else [mk_alert ''WorkerHeartbeatMissing'' ''Scheduler process is stopped.'' ''critical'' now]) @
      map (\<lambda>(w, d). mk_alert ''WorkerHeartbeatMissing'' (late_reason pb w d) ''critical'' now) (late_workers pb h) @
      (if of_int depth > queue_limit (ae_rules eng)
       then [mk_alert ''QueueDepthThresholdExceeded''
               (''Queue size is '' @ int_str depth @ '', exceeding threshold limit of '' @
                num_str (queue_limit (ae_rules eng)) @ ''.'') ''warning'' now] else [])"
proof -
  let ?start = "if hm_scheduler_running h then (HEALTHY, []) else (DEGRADED, [''Scheduler process is stopped.''])"
  have "hm_workflow_failures h = 0" by (simp add: assms(3) health_run_failures health_init_def)
  moreover have report: "check_health pb h =
      \<lparr>hp_status = health_status_value (if late_workers pb h = [] then fst ?start else DEGRADED),
       hp_reasons = snd ?start @ map (\<lambda>(w, d). late_reason pb w d) (late_workers pb h),
       hp_active_workers_count = int (length (hm_workers h)), hp_workflow_failures = hm_workflow_failures h\<rparr>"
    using assms(1,2) check_workers_late [of pb "hm_threshold h" "hm_workers h" "fst ?start" "snd ?start"]
    by (auto simp: check_health_def Let_def late_workers_def)
  moreover have "filter (\<lambda>reason. contains_str ''missed heartbeats'' reason \<or> contains_str ''stopped'' reason)
      (snd ?start @ map (\<lambda>(w, d). late_reason pb w d) ls) = snd ?start @ map (\<lambda>(w, d). late_reason pb w d) ls" for ls
    by (induction ls) (auto simp: late_reason_contains)
  ultimately show ?thesis
    by (simp add: evaluate_def triggered_alerts_def Let_def) auto
qed

theorem alerts_of_health_witness:
  "map al_rule_name (fst (evaluate (\<lambda>_. ''5'') ''now''
     (check_health \<lparr>pb_now = 20, pb_fromiso = (\<lambda>_. Some 0), pb_seconds = (\<lambda>_. ''20.0''), pb_connection = None,
        pb_filesystem = None\<rparr> (health_run [task_event ''1'' SchedulerStarted, task_event ''2'' (WorkerStarted ''w'')] (health_init 10)))
     6 (alert_engine_init []))) = [''WorkerHeartbeatMissing'', ''QueueDepthThresholdExceeded'']"
  by (subst conjunct2 [OF alerts_of_health [where threshold = 10
        and es = "[task_event ''1'' SchedulerStarted, task_event ''2'' (WorkerStarted ''w'')]"]])
    (simp_all add: health_run_def health_init_def health_on_event_def task_event_def mk_event_def event_worker_def
      ditem_or_def late_workers_def late_worker_def map_filter_simps queue_limit_def alert_engine_init_def mk_alert_def)

section \<open>Replay\<close>

definition on_node :: "string \<Rightarrow> runtime_event \<Rightarrow> bool" where
  "on_node n e \<longleftrightarrow> n \<noteq> [] \<and> dget (ev_metadata e) ''node_id'' = Some (PStr n)"

lemma replay_event_state:
  "state_of n (fst (replay_event e (states, steps))) =
     (if on_node n e then next_state (ev_kind e) (state_of n states) else state_of n states)"
  by (auto simp: replay_event_def on_node_def state_of_def dget_update Let_def split: option.split pyval.split)

lemma replay_events_state:
  "state_of n (fst (fold replay_event es s)) =
     fold (\<lambda>e. next_state (ev_kind e)) (filter (on_node n) es) (state_of n (fst s))"
proof (induction es arbitrary: s)
  case (Cons e es)
  show ?case using Cons [of "replay_event e s"] replay_event_state [of n e "fst s" "snd s"] by simp
qed simp

lemma pending_state: "state_of n (map (\<lambda>k. (k, ''Pending'')) ks) = ''Pending''"
  by (induction ks) (auto simp: state_of_def)

lemma log_rep_checkpoint:
  "checkpoint_workflow w db = (Inr (), db') \<Longrightarrow> log_rep db es \<Longrightarrow> log_rep db' es"
  by (auto simp: checkpoint_cases log_rep_def split: if_splits)

text \<open>
  C27. The replay of a stored workflow gives every node the state that the started, completed and failed
  events of the node lead to, of this instance only, in the order of the log, and among the first
  hundred events since the workflow started only. Timed out and cancelled nodes keep the state before.
\<close>

theorem replay_follows_the_log:
  assumes "log_rep db es" and "checkpoint_workflow w db = (Inr (), db')" and "started_at w \<noteq> []"
  shows "\<exists>rep. replay_workflow uid now (instance_id w) db' = Inr rep \<and>
    wr_snapshot_status rep = PStr (enum_value workflow_statuses (wi_status w)) \<and>
    (\<forall>n. state_of n (wr_node_states rep) =
       fold (\<lambda>e. next_state (ev_kind e))
         (filter (\<lambda>e. of_instance (instance_id w) e \<and> on_node n e)
           (take 100 (filter (\<lambda>e. started_at w \<le> ev_timestamp e) es))) ''Pending'')"
proof -
  let ?events = "take 100 (filter (\<lambda>e. started_at w \<le> ev_timestamp e) es)"
  have log: "log_rep db' es" by (rule log_rep_checkpoint [OF assms(2,1)])
  have events: "stream_from uid now (started_at w) 100 0 db' = Inr ?events"
    using stream_from_rep [OF log, of uid now "started_at w" 100 0] by (simp add: sql_limit_def)
  obtain row where row: "dget (db_workflow_instances db') (instance_id w) = Some row"
    "wir_instance_json row = JText (instance_to_dict w)"
    using assms(2) by (auto simp: checkpoint_cases dget_insert_or_replace split: if_splits)
  let ?start = "(map (\<lambda>n. (n, ''Pending'')) (dkeys (wi_node_states w)), []) :: (string \<times> string) list \<times> replay_transition list"
  obtain states steps where r: "fold replay_event (filter (of_instance (instance_id w)) ?events) ?start = (states, steps)"
    by (metis prod.exhaust)
  have "replay_workflow uid now (instance_id w) db' =
      Inr \<lparr>wr_instance_id = instance_id w, wr_workflow_name = PStr (workflow_name w),
           wr_snapshot_status = PStr (enum_value workflow_statuses (wi_status w)), wr_node_states = states,
           wr_transitions = steps\<rparr>"
    using assms(3) r
    by (simp add: replay_workflow_def row instance_to_dict_def ditem_or_def events or_none_def dmap_def comp_def)
  moreover have "state_of n states = fold (\<lambda>e. next_state (ev_kind e))
      (filter (\<lambda>e. of_instance (instance_id w) e \<and> on_node n e) ?events) ''Pending''" for n
    using replay_events_state [of n "filter (of_instance (instance_id w)) ?events" ?start]
    unfolding r fst_conv pending_state filter_filter by (simp add: conj_commute)
  ultimately show ?thesis by simp
qed

theorem replay_follows_the_log_witness:
  "\<exists>db rep. checkpoint_workflow (two_steps_instance WF_RUNNING NS_RUNNING NS_PENDING) initialize_schema = (Inr (), db) \<and>
     replay_workflow ''u'' ''n'' ''I'' db = Inr rep \<and> state_of ''A'' (wr_node_states rep) = ''Pending''"
proof -
  let ?w = "two_steps_instance WF_RUNNING NS_RUNNING NS_PENDING"
  obtain db where db: "checkpoint_workflow ?w initialize_schema = (Inr (), db)" using stored_instance by blast
  moreover have "started_at ?w \<noteq> []" by (simp add: two_steps_instance_def)
  ultimately show ?thesis
    using replay_follows_the_log [OF log_rep_init db, of "''u''" "''n''"] by auto
qed

end
