(* ===== verification/Exporters.thy ===== *)
theory Exporters
  imports Telemetry
begin

text \<open>
  The exporters of \<^verbatim>\<open>observability/exporters.py\<close>: console lines, JSON texts, and CSV text as the standard
  module \<open>csv\<close> writes it. The three exporters that need packages the repository does not have raise or
  do nothing. \<open>num\<close> renders a number.
\<close>

section \<open>Console and JSON\<close>

definition console_metrics :: "metric_family list \<Rightarrow> string list" where
  "console_metrics fs =
     map (\<lambda>f. ''[ConsoleExporter] MetricFamily: '' @ mf_name f @ '' ('' @ mf_metric_type f @ '') - '' @
                decimal (length (mf_metrics f)) @ '' series'') fs"

definition console_spans :: "span list \<Rightarrow> string list" where
  "console_spans ss =
     map (\<lambda>s. ''[ConsoleExporter] Span: '' @ sp_name s @ '' ('' @ sp_span_id s @ '') - trace='' @ sp_trace_id s) ss"

definition console_alerts :: "alert list \<Rightarrow> string list" where
  "console_alerts as =
     map (\<lambda>a. ''[ConsoleExporter] Alert: '' @ al_rule_name a @ '' - '' @ al_severity a @ '': '' @ al_message a) as"

definition json_metrics :: "metric_family list \<Rightarrow> py_error + json_text" where
  "json_metrics fs = json_dumps (PList (map (\<lambda>f. PDict (family_to_dict f)) fs))"

definition json_spans :: "span list \<Rightarrow> py_error + json_text" where
  "json_spans ss = json_dumps (PList (map (\<lambda>s. PDict (span_to_dict s)) ss))"

definition json_alerts :: "alert list \<Rightarrow> py_error + json_text" where
  "json_alerts as = json_dumps (PList (map (\<lambda>a. PDict (alert_to_dict a)) as))"

section \<open>CSV\<close>

text \<open>
  \<open>csv.writer\<close> with its defaults: a field with a comma, a quote or a line break is put in quotes, the
  quotes in it doubled; \<open>None\<close> is the empty field; a row ends with a carriage return and a newline.
\<close>

definition csv_special :: "char \<Rightarrow> bool" where
  "csv_special c \<longleftrightarrow> c = CHR '','' \<or> c = CHR 0x22 \<or> c = CHR 0x0D \<or> c = CHR 0x0A"

fun csv_escape :: "string \<Rightarrow> string" where
  "csv_escape [] = []"
| "csv_escape (c # cs) = (if c = CHR 0x22 then [CHR 0x22, CHR 0x22] else [c]) @ csv_escape cs"

definition csv_field :: "string \<Rightarrow> string" where
  "csv_field s = (if list_ex csv_special s then CHR 0x22 # csv_escape s @ [CHR 0x22] else s)"

definition csv_row :: "string list \<Rightarrow> string" where
  "csv_row fs = join_with (CHR '','') (map csv_field fs) @ [CHR 0x0D, CHR 0x0A]"

definition csv_text :: "string list list \<Rightarrow> string" where
  "csv_text rows = concat (map csv_row rows)"

definition opt_field :: "string option \<Rightarrow> string" where
  "opt_field x = (case x of None \<Rightarrow> [] | Some s \<Rightarrow> s)"

definition csv_metrics :: "(rat \<Rightarrow> string) \<Rightarrow> metric_family list \<Rightarrow> string" where
  "csv_metrics num fs =
     csv_text ([''FamilyName'', ''MetricType'', ''MetricKey'', ''Timestamp'', ''Value''] #
       concat (map (\<lambda>f. concat (map (\<lambda>(key, m).
         map (\<lambda>p. [mf_name f, mf_metric_type f, key, mp_timestamp p, num (mp_value p)]) (md_points (metric_data_of m)))
         (mf_metrics f))) fs))"

definition csv_spans :: "span list \<Rightarrow> string" where
  "csv_spans ss =
     csv_text ([''SpanID'', ''TraceID'', ''Name'', ''StartTime'', ''EndTime'', ''ParentSpanID''] #
       map (\<lambda>s. [sp_span_id s, sp_trace_id s, sp_name s, sp_start_time s, opt_field (sp_end_time s),
                 opt_field (sp_parent_span_id s)]) ss)"

definition csv_alerts :: "alert list \<Rightarrow> string" where
  "csv_alerts as =
     csv_text ([''RuleName'', ''Severity'', ''Message'', ''Timestamp''] #
       map (\<lambda>a. [al_rule_name a, al_severity a, al_message a, al_timestamp a]) as)"

section \<open>Exporters without a package\<close>

definition open_telemetry_metrics :: "py_error + unit" where
  "open_telemetry_metrics = Inl (RuntimeError ''NotImplementedError'')"

definition prometheus_metrics :: "py_error + unit" where
  "prometheus_metrics = Inl (RuntimeError ''NotImplementedError'')"

definition grafana_metrics :: "py_error + unit" where
  "grafana_metrics = Inr ()"

section \<open>Exported metrics are always JSON\<close>

lemma json_ok_metric: "json_ok (metric_to_dict m)"
  by (cases m) (auto simp: metric_to_dict_def point_to_dict_def dmap_def)

lemma json_ok_family: "json_ok (PDict (family_to_dict f))"
  using json_ok_metric by (auto simp: family_to_dict_def dmap_def)

lemma json_metrics_total: "json_metrics fs = Inr (JText (PList (map (\<lambda>f. PDict (family_to_dict f)) fs)))"
  using json_ok_family by (simp add: json_metrics_def json_dumps_def del: json_ok.simps(2))

section \<open>CSV text can be read back\<close>

text \<open>
  A reader of CSV text, character by character: in a plain field, in a quoted one, or after a quote in
  one that may end it or stand for itself; with the field so far, the row so far, and whether the
  field has begun with a quote.
\<close>

datatype csv_state = Csv_start | Csv_plain | Csv_quoted | Csv_quote

fun csv_read :: "csv_state \<Rightarrow> string \<Rightarrow> string list \<Rightarrow> string \<Rightarrow> string list list" where
  "csv_read st fld row [] = []"
| "csv_read Csv_quoted fld row (c # cs) =
     (if c = CHR 0x22 then csv_read Csv_quote fld row cs else csv_read Csv_quoted (fld @ [c]) row cs)"
| "csv_read st fld row (c # cs) =
     (if c = CHR '','' then csv_read Csv_start [] (row @ [fld]) cs
      else if c = CHR 0x0D then csv_read st fld row cs
      else if c = CHR 0x0A then (row @ [fld]) # csv_read Csv_start [] [] cs
      else if c = CHR 0x22 then csv_read Csv_quoted (if st = Csv_quote then fld @ [c] else fld) row cs
      else csv_read Csv_plain (fld @ [c]) row cs)"

definition read_csv :: "string \<Rightarrow> string list list" where
  "read_csv s = csv_read Csv_start [] [] s"

lemma read_plain:
  "\<forall>c \<in> set s. \<not> csv_special c \<Longrightarrow> csv_read Csv_plain fld row (s @ rest) = csv_read Csv_plain (fld @ s) row rest"
  by (induction s arbitrary: fld) (auto simp: csv_special_def)

lemma read_escaped:
  "csv_read Csv_quoted fld row (csv_escape s @ CHR 0x22 # rest) = csv_read Csv_quote (fld @ s) row rest"
proof (induction s arbitrary: fld)
  case (Cons c s)
  show ?case using Cons.IH [of "fld @ [c]"] by auto
qed simp

lemma read_field:
  assumes "rest = CHR '','' # r \<or> rest = CHR 0x0D # CHR 0x0A # r"
  shows "csv_read Csv_start [] row (csv_field s @ rest) = csv_read Csv_plain s row rest"
proof (cases "list_ex csv_special s")
  case True
  then have "csv_read Csv_start [] row (csv_field s @ rest) = csv_read Csv_quote s row rest"
    using read_escaped [of "[]" row s rest] by (simp add: csv_field_def)
  with assms show ?thesis by auto
next
  case False
  then have plain: "\<forall>c \<in> set s. \<not> csv_special c" by (auto simp: list_ex_iff)
  show ?thesis
  proof (cases s)
    case Nil
    with assms show ?thesis by (auto simp: csv_field_def)
  next
    case (Cons c cs)
    with plain have "csv_read Csv_start [] row (s @ rest) = csv_read Csv_plain [c] row (cs @ rest)"
      by (auto simp: csv_special_def)
    with plain Cons False read_plain [of cs "[c]" row rest] show ?thesis by (simp add: csv_field_def)
  qed
qed

lemma read_row:
  "fs \<noteq> [] \<Longrightarrow> csv_read Csv_start [] row (csv_row fs @ rest) = (row @ fs) # csv_read Csv_start [] [] rest"
proof (induction fs arbitrary: row rule: induct_list012)
  case (2 f)
  have "csv_row [f] @ rest = csv_field f @ CHR 0x0D # CHR 0x0A # rest" by (simp add: csv_row_def)
  then show ?case using read_field [of "CHR 0x0D # CHR 0x0A # rest" rest row f] by simp
next
  case (3 f g gs)
  have "csv_row (f # g # gs) @ rest = csv_field f @ CHR '','' # csv_row (g # gs) @ rest"
    by (simp add: csv_row_def)
  then show ?case
    using read_field [of "CHR '','' # csv_row (g # gs) @ rest" "csv_row (g # gs) @ rest" row f] 3(2) [of "row @ [f]"] by simp
qed simp

lemma read_csv_text: "\<forall>r \<in> set rows. r \<noteq> [] \<Longrightarrow> read_csv (csv_text rows) = rows"
  by (induction rows) (simp_all add: read_csv_def csv_text_def read_row)

end
